theory Spec2Isabelle
  imports Main "HOL-Library.Sublist"
begin

section \<open>Python text\<close>

text \<open>
  A Python \<open>str\<close> is a sequence of Unicode code points; it is modelled as a list of
  natural numbers, one per code point. Literals of the scripts are ASCII and are written
  with \<open>str\<close>. The content of a file is taken as the text it decodes to (the files the
  scripts touch are UTF-8 text, and they are read with \<open>errors="ignore"\<close>), so reading
  never fails and only the newline translation of Python's text mode is modelled. Writing
  encodes strictly: see \<open>encodable\<close> below.
\<close>

type_synonym pystr = "nat list"

definition str :: "string \<Rightarrow> pystr" where
  "str s = map (of_char :: char \<Rightarrow> nat) s"

text \<open>The line boundaries of \<open>str.splitlines\<close>: LF, VT, FF, CR, FS, GS, RS, NEL, LS, PS.\<close>

definition linebreak :: "nat \<Rightarrow> bool" where
  "linebreak c \<longleftrightarrow> c \<in> {10, 11, 12, 13, 28, 29, 30, 133, 8232, 8233}"

text \<open>
  \<open>str.splitlines()\<close>: the text is cut at every line boundary, CR LF counting as one
  boundary; the boundaries are dropped, and a text that ends with a boundary has no empty
  last line. The first argument is the line read so far.
\<close>

fun splitlines_from :: "pystr \<Rightarrow> pystr \<Rightarrow> pystr list" where
  "splitlines_from cur [] = (if cur = [] then [] else [cur])"
| "splitlines_from cur [c] = (if linebreak c then [cur] else [cur @ [c]])"
| "splitlines_from cur (c # d # cs) =
     (if c = 13 \<and> d = 10 then cur # splitlines_from [] cs
      else if linebreak c then cur # splitlines_from [] (d # cs)
      else splitlines_from (cur @ [c]) (d # cs))"

definition splitlines :: "pystr \<Rightarrow> pystr list" where
  "splitlines s = splitlines_from [] s"

text \<open>\<open>s.endswith(t)\<close>.\<close>

definition endswith :: "pystr \<Rightarrow> pystr \<Rightarrow> bool" where
  "endswith s t \<longleftrightarrow> suffix t s"

text \<open>
  Reading in text mode with the default \<open>newline=None\<close> translates CR LF and a lone CR
  to LF. Writing on Linux (\<open>os.linesep\<close> is LF) translates nothing.
\<close>

fun universal_newlines :: "pystr \<Rightarrow> pystr" where
  "universal_newlines [] = []"
| "universal_newlines [c] = [if c = 13 then 10 else c]"
| "universal_newlines (c # d # cs) =
     (if c = 13 \<and> d = 10 then 10 # universal_newlines cs
      else if c = 13 then 10 # universal_newlines (d # cs)
      else c # universal_newlines (d # cs))"

text \<open>\<open>str.isspace\<close> of one code point, and \<open>str.strip()\<close>.\<close>

definition isspace :: "nat \<Rightarrow> bool" where
  "isspace c \<longleftrightarrow> (9 \<le> c \<and> c \<le> 13) \<or> (28 \<le> c \<and> c \<le> 32) \<or> c = 133 \<or> c = 160
     \<or> c = 5760 \<or> (8192 \<le> c \<and> c \<le> 8202) \<or> c = 8232 \<or> c = 8233 \<or> c = 8239
     \<or> c = 8287 \<or> c = 12288"

definition strip :: "pystr \<Rightarrow> pystr" where
  "strip s = rev (dropWhile isspace (rev (dropWhile isspace s)))"

text \<open>The size in bytes of the UTF-8 encoding of a text.\<close>

definition utf8_width :: "nat \<Rightarrow> nat" where
  "utf8_width c = (if c < 128 then 1 else if c < 2048 then 2 else if c < 65536 then 3 else 4)"

definition utf8_size :: "pystr \<Rightarrow> nat" where
  "utf8_size s = sum_list (map utf8_width s)"

text \<open>
  A text has a UTF-8 encoding when each of its code points is a Unicode scalar value:
  at most U+10FFFF and not a surrogate (U+D800 to U+DFFF). A Python \<open>str\<close> may hold
  lone surrogates, and encoding it with the default \<open>errors="strict"\<close> then raises
  \<open>UnicodeEncodeError\<close>.
\<close>

definition scalar_value :: "nat \<Rightarrow> bool" where
  "scalar_value c \<longleftrightarrow> c < 55296 \<or> (57343 < c \<and> c < 1114112)"

definition encodable :: "pystr \<Rightarrow> bool" where
  "encodable s \<longleftrightarrow> list_all scalar_value s"

text \<open>Decimal rendering of a number, as an f-string formats an \<open>int\<close>.\<close>

fun show_nat :: "nat \<Rightarrow> string" where
  "show_nat n = (if n < 10 then [char_of (48 + n)] else show_nat (n div 10) @ [char_of (48 + n mod 10)])"

definition show_int :: "int \<Rightarrow> string" where
  "show_int i = (if i < 0 then CHR ''-'' # show_nat (nat (- i)) else show_nat (nat i))"

text \<open>Two lower-case hexadecimal digits, as in the escape \<open>\xhh\<close>.\<close>

definition hex_digit :: "nat \<Rightarrow> char" where
  "hex_digit n = (if n < 10 then char_of (48 + n) else char_of (87 + n))"

definition hex2 :: "nat \<Rightarrow> string" where
  "hex2 n = [hex_digit (n div 16 mod 16), hex_digit (n mod 16)]"

text \<open>
  \<open>repr\<close> of a \<open>str\<close> whose code points are below 256, which is what a \<open>string\<close>
  holds: double quotes when the text has a single quote and no double quote, single
  quotes otherwise; the quote and the backslash are escaped, and so are tab, newline,
  carriage return, and the code points that are not printable (the control characters,
  U+007F to U+00A0 and the soft hyphen U+00AD).
\<close>

definition repr_char :: "char \<Rightarrow> char \<Rightarrow> string" where
  "repr_char quote c = (let n = (of_char c :: nat) in
     if c = quote \<or> n = 92 then [CHR 92, c]
     else if n = 9 then [CHR 92, CHR ''t'']
     else if n = 10 then [CHR 92, CHR ''n'']
     else if n = 13 then [CHR 92, CHR ''r'']
     else if n < 32 \<or> (127 \<le> n \<and> n \<le> 160) \<or> n = 173 then [CHR 92, CHR ''x''] @ hex2 n
     else [c])"

definition repr_str :: "string \<Rightarrow> string" where
  "repr_str s = (let quote = (if CHR 39 \<in> set s \<and> CHR 34 \<notin> set s then CHR 34 else CHR 39)
     in [quote] @ concat (map (repr_char quote) s) @ [quote])"

text \<open>\<open>str\<close> of a list of \<open>str\<close>.\<close>

fun join_commas :: "string list \<Rightarrow> string" where
  "join_commas [] = []"
| "join_commas [x] = x"
| "join_commas (x # y # ys) = x @ '', '' @ join_commas (y # ys)"

definition show_list :: "string list \<Rightarrow> string" where
  "show_list xs = ''['' @ join_commas (map repr_str xs) @ '']''"

text \<open>\<open>' '.join(cmd)\<close>.\<close>

fun join_spaces :: "string list \<Rightarrow> string" where
  "join_spaces [] = []"
| "join_spaces [x] = x"
| "join_spaces (x # y # ys) = x @ '' '' @ join_spaces (y # ys)"

section \<open>The machine, events and programs\<close>

text \<open>
  A path is the list of its components below the root. A file system maps a path to a
  directory or to a regular file with its text; the root is always a directory.
  \<open>installed m c\<close> says that \<open>shutil.which(c)\<close> finds the command \<open>c\<close>, which is also
  what lets \<open>subprocess\<close> start it.
\<close>

type_synonym path = "string list"

datatype node = Dir | File pystr

record machine =
  fs :: "path \<Rightarrow> node option"
  installed :: "string \<Rightarrow> bool"

definition node_at :: "machine \<Rightarrow> path \<Rightarrow> node option" where
  "node_at m p = (if p = [] then Some Dir else fs m p)"

definition show_path :: "path \<Rightarrow> string" where
  "show_path p = (if p = [] then ''/'' else concat (map (\<lambda>c. ''/'' @ c) p))"

definition parent :: "path \<Rightarrow> path" where
  "parent p = butlast p"

text \<open>
  What an external program does when it is started: its exit code, the text it prints
  when its output is captured (\<open>None\<close> when that output is not decodable text), and the
  machine it leaves behind.
\<close>

record proc =
  returncode :: int
  captured :: "pystr option"
  after :: machine

text \<open>
  What a script reads from its process and platform: \<open>os.geteuid()\<close> (\<open>None\<close> where
  the \<open>os\<close> module has no \<open>geteuid\<close>), \<open>platform.system()\<close>, \<open>platform.release()\<close>,
  \<open>Path.home()\<close>, \<open>sys.executable\<close>, the size \<open>stat\<close> reports for a directory, and
  the name the platform gives to a signal number, which is the table of
  \<open>signal.Signals\<close>. \<open>exec\<close> is the behaviour of every external program and is
  arbitrary; the environment variables a script passes on are part of it.
\<close>

record env =
  geteuid :: "nat option"
  system :: string
  release :: string
  home :: path
  sys_executable :: string
  dir_size :: nat
  signal_name :: "nat \<Rightarrow> string option"
  exec :: "string list \<Rightarrow> machine \<Rightarrow> proc"

text \<open>
  The events of a run, in order: a printed line, a call of \<open>subprocess.run\<close> with its
  \<open>check\<close> flag, a call of \<open>subprocess.check_output\<close>. The outcome of a call is the
  exit code of the program, or \<open>NotFound\<close> when the executable could not be started.
\<close>

datatype outcome = NotFound | Exited int

datatype event = Printed pystr | Run "string list" bool outcome | Output "string list" outcome

datatype exn =
    CalledProcessError "string list" int
  | SystemExit int
  | FileNotFoundError
  | FileExistsError
  | NotADirectoryError
  | IsADirectoryError
  | IndexError
  | AttributeError
  | UnicodeDecodeError
  | UnicodeEncodeError

text \<open>
  A program takes the machine and gives its result (an exception or a value), the machine
  afterwards and the events it produced.
\<close>

type_synonym 'a prog = "machine \<Rightarrow> (exn + 'a) \<times> machine \<times> event list"

definition ret :: "'a \<Rightarrow> 'a prog" where
  "ret x = (\<lambda>m. (Inr x, m, []))"

definition raise :: "exn \<Rightarrow> 'a prog" where
  "raise e = (\<lambda>m. (Inl e, m, []))"

definition bnd :: "'a prog \<Rightarrow> ('a \<Rightarrow> 'b prog) \<Rightarrow> 'b prog" where
  "bnd p f = (\<lambda>m. case p m of
       (Inl e, m1, t1) \<Rightarrow> (Inl e, m1, t1)
     | (Inr x, m1, t1) \<Rightarrow> (case f x m1 of (r, m2, t2) \<Rightarrow> (r, m2, t1 @ t2)))"

definition thn :: "'a prog \<Rightarrow> 'b prog \<Rightarrow> 'b prog" where
  "thn p q = bnd p (\<lambda>_. q)"

fun steps :: "unit prog list \<Rightarrow> unit prog" where
  "steps [] = ret ()"
| "steps (p # ps) = thn p (steps ps)"

definition discard :: "'a prog \<Rightarrow> unit prog" where
  "discard p = bnd p (\<lambda>_. ret ())"

definition ask :: "(machine \<Rightarrow> 'a) \<Rightarrow> 'a prog" where
  "ask f = (\<lambda>m. (Inr (f m), m, []))"

definition print :: "pystr \<Rightarrow> unit prog" where
  "print s = (\<lambda>m. (Inr (), m, [Printed s]))"

definition sys_exit :: "int \<Rightarrow> 'a prog" where
  "sys_exit n = raise (SystemExit n)"

text \<open>
  \<open>try: p except CalledProcessError as e: h e.returncode\<close>, and
  \<open>try: p except Exception: h\<close>. \<open>SystemExit\<close> is not an \<open>Exception\<close>.
\<close>

definition except_called_process_error :: "'a prog \<Rightarrow> (string list \<Rightarrow> int \<Rightarrow> 'a prog) \<Rightarrow> 'a prog" where
  "except_called_process_error p h = (\<lambda>m. case p m of
       (Inl (CalledProcessError c rc), m1, t1) \<Rightarrow> (case h c rc m1 of (r, m2, t2) \<Rightarrow> (r, m2, t1 @ t2))
     | other \<Rightarrow> other)"

fun is_Exception :: "exn \<Rightarrow> bool" where
  "is_Exception (SystemExit n) = False"
| "is_Exception e = True"

definition except_Exception :: "'a prog \<Rightarrow> 'a prog \<Rightarrow> 'a prog" where
  "except_Exception p h = (\<lambda>m. case p m of
       (Inl e, m1, t1) \<Rightarrow>
         (if is_Exception e then (case h m1 of (r, m2, t2) \<Rightarrow> (r, m2, t1 @ t2)) else (Inl e, m1, t1))
     | other \<Rightarrow> other)"

text \<open>
  The exit status of the interpreter, as a POSIX system reports it to the parent process:
  0 when the script ends, the low eight bits of the argument of \<open>sys.exit\<close> (so
  \<open>sys.exit(-9)\<close> gives 247), and 1 after an exception nobody caught. Windows keeps
  32 bits of the argument; for an argument from 0 to 255 the status is the same there.
\<close>

fun exit_status :: "exn + unit \<Rightarrow> int" where
  "exit_status (Inr u) = 0"
| "exit_status (Inl (SystemExit n)) = n mod 256"
| "exit_status (Inl e) = 1"

subsection \<open>pathlib and the file system\<close>

text \<open>
  \<open>Path.mkdir(parents=True, exist_ok=True)\<close> walks down from the root and creates what
  is missing. A regular file in the way raises, and then nothing was created: in a file
  system nothing lies below a missing directory or a regular file.
\<close>

fun mkdirs :: "path list \<Rightarrow> machine \<Rightarrow> exn + machine" where
  "mkdirs [] m = Inr m"
| "mkdirs (q # qs) m =
     (case node_at m q of
        None \<Rightarrow> mkdirs qs (m\<lparr>fs := (fs m)(q \<mapsto> Dir)\<rparr>)
      | Some Dir \<Rightarrow> mkdirs qs m
      | Some (File c) \<Rightarrow> Inl (if qs = [] then FileExistsError else NotADirectoryError))"

definition path_mkdir :: "path \<Rightarrow> unit prog" where
  "path_mkdir p = (\<lambda>m. case mkdirs (prefixes p) m of
       Inl e \<Rightarrow> (Inl e, m, [])
     | Inr m' \<Rightarrow> (Inr (), m', []))"

definition path_exists :: "path \<Rightarrow> bool prog" where
  "path_exists p = ask (\<lambda>m. node_at m p \<noteq> None)"

definition read_text :: "path \<Rightarrow> pystr prog" where
  "read_text p = (\<lambda>m. case node_at m p of
       None \<Rightarrow> (Inl FileNotFoundError, m, [])
     | Some Dir \<Rightarrow> (Inl IsADirectoryError, m, [])
     | Some (File c) \<Rightarrow> (Inr (universal_newlines c), m, []))"

text \<open>
  \<open>open("a", encoding="utf-8")\<close> creates a missing file, empty, in an existing
  directory. \<open>f.write(s)\<close> on a file opened for appending encodes \<open>s\<close> and adds it at
  the end of the file; when \<open>s\<close> has no encoding it raises and adds nothing. What was
  written before stays written: leaving the \<open>with\<close> block closes the file.
\<close>

definition open_append :: "path \<Rightarrow> unit prog" where
  "open_append p = (\<lambda>m. case node_at m p of
       Some Dir \<Rightarrow> (Inl IsADirectoryError, m, [])
     | Some (File c) \<Rightarrow> (Inr (), m, [])
     | None \<Rightarrow>
        (case node_at m (parent p) of
           None \<Rightarrow> (Inl FileNotFoundError, m, [])
         | Some (File c) \<Rightarrow> (Inl NotADirectoryError, m, [])
         | Some Dir \<Rightarrow> (Inr (), m\<lparr>fs := (fs m)(p \<mapsto> File [])\<rparr>, [])))"

definition write_append :: "path \<Rightarrow> pystr \<Rightarrow> unit prog" where
  "write_append p s = (\<lambda>m.
     if \<not> encodable s then (Inl UnicodeEncodeError, m, [])
     else case node_at m p of
       Some (File c) \<Rightarrow> (Inr (), m\<lparr>fs := (fs m)(p \<mapsto> File (c @ s))\<rparr>, [])
     | Some Dir \<Rightarrow> (Inl IsADirectoryError, m, [])
     | None \<Rightarrow> (Inl FileNotFoundError, m, []))"

subsection \<open>Subprocesses\<close>

text \<open>
  \<open>subprocess.run(cmd, check=check)\<close>: an executable that cannot be found raises
  \<open>FileNotFoundError\<close>; otherwise the program runs, and a non-zero exit code raises
  \<open>CalledProcessError\<close> when \<open>check\<close> is set. External programs are taken to end.
\<close>

definition subprocess_run :: "env \<Rightarrow> string list \<Rightarrow> bool \<Rightarrow> int prog" where
  "subprocess_run E cmd check = (\<lambda>m. case cmd of
       [] \<Rightarrow> (Inl IndexError, m, [])
     | c # args \<Rightarrow>
         if \<not> installed m c then (Inl FileNotFoundError, m, [Run cmd check NotFound])
         else let p = exec E cmd m in
           if check \<and> returncode p \<noteq> 0
           then (Inl (CalledProcessError cmd (returncode p)), after p, [Run cmd check (Exited (returncode p))])
           else (Inr (returncode p), after p, [Run cmd check (Exited (returncode p))]))"

text \<open>
  \<open>subprocess.check_output(cmd, text=True)\<close>: the captured output is decoded and its
  newlines translated, then a non-zero exit code raises.
\<close>

definition check_output :: "env \<Rightarrow> string list \<Rightarrow> pystr prog" where
  "check_output E cmd = (\<lambda>m. case cmd of
       [] \<Rightarrow> (Inl IndexError, m, [])
     | c # args \<Rightarrow>
         if \<not> installed m c then (Inl FileNotFoundError, m, [Output cmd NotFound])
         else let p = exec E cmd m in
           (case captured p of
              None \<Rightarrow> (Inl UnicodeDecodeError, after p, [Output cmd (Exited (returncode p))])
            | Some out \<Rightarrow>
                if returncode p \<noteq> 0
                then (Inl (CalledProcessError cmd (returncode p)), after p, [Output cmd (Exited (returncode p))])
                else (Inr (universal_newlines out), after p, [Output cmd (Exited (returncode p))])))"

definition stat_size :: "env \<Rightarrow> path \<Rightarrow> nat prog" where
  "stat_size E p = (\<lambda>m. case node_at m p of
       None \<Rightarrow> (Inl FileNotFoundError, m, [])
     | Some Dir \<Rightarrow> (Inr (dir_size E), m, [])
     | Some (File c) \<Rightarrow> (Inr (utf8_size c), m, []))"

definition isdir :: "path \<Rightarrow> bool prog" where
  "isdir p = ask (\<lambda>m. node_at m p = Some Dir)"

section \<open>install_aikbt.py\<close>

definition AIK_BT_URL :: string where
  "AIK_BT_URL = ''https://raw.githubusercontent.com/aikaryashala/practice/refs/heads/main/lldb/aik_bt.py''"

definition AIK_RENDERER_URL :: string where
  "AIK_RENDERER_URL = ''https://raw.githubusercontent.com/aikaryashala/practice/refs/heads/main/lldb/aik_renderer.py''"

definition aikbt_run :: "env \<Rightarrow> string list \<Rightarrow> bool \<Rightarrow> int prog" where
  "aikbt_run E cmd check =
     thn (print ([10] @ str ''>>> '' @ str (join_spaces cmd))) (subprocess_run E cmd check)"

definition have_cmd :: "string \<Rightarrow> bool prog" where
  "have_cmd cmd = ask (\<lambda>m. installed m cmd)"

definition ensure_line_in_file :: "path \<Rightarrow> pystr \<Rightarrow> unit prog" where
  "ensure_line_in_file file_path line =
     thn (path_mkdir (parent file_path))
    (bnd (path_exists file_path) (\<lambda>ex.
     bnd (if ex then bnd (read_text file_path) (\<lambda>t. ret (splitlines t)) else ret []) (\<lambda>existing.
       if ex \<and> line \<in> set existing
       then print (str ''OK: Line already present in '' @ str (show_path file_path))
       else steps [
         open_append file_path,
         bnd (if existing \<noteq> []
              then bnd (read_text file_path) (\<lambda>t. ret (\<not> endswith t [10]))
              else ret False)
           (\<lambda>sep. if sep then write_append file_path [10] else ret ()),
         write_append file_path (line @ [10]),
         print (str ''OK: Added line to '' @ str (show_path file_path))])))"

definition download_to :: "env \<Rightarrow> string \<Rightarrow> path \<Rightarrow> unit prog" where
  "download_to E url dest = steps [
     path_mkdir (parent dest),
     bnd (have_cmd ''curl'') (\<lambda>h.
       if \<not> h
       then thn (print (str ''ERROR: curl not found. Install it with: sudo apt install -y curl''))
                (sys_exit 1)
       else ret ()),
     discard (aikbt_run E [''curl'', ''-fsSL'', url, ''-o'', show_path dest] True),
     bnd (path_exists dest) (\<lambda>ex.
       if \<not> ex then thn (print (str ''ERROR: Download seems failed or file too small: '' @ str (show_path dest)))
                       (sys_exit 1)
       else bnd (stat_size E dest) (\<lambda>sz.
         if sz < 10
         then thn (print (str ''ERROR: Download seems failed or file too small: '' @ str (show_path dest)))
                  (sys_exit 1)
         else ret ())),
     bnd (stat_size E dest) (\<lambda>sz.
       print (str ''OK: Downloaded '' @ str (show_path dest) @ str '' ('' @ str (show_nat sz)
              @ str '' bytes)''))]"

definition aikbt_is_root :: "env \<Rightarrow> bool prog" where
  "aikbt_is_root E = (case geteuid E of None \<Rightarrow> raise AttributeError | Some u \<Rightarrow> ret (u = 0))"

definition apt_install :: "env \<Rightarrow> string list \<Rightarrow> unit prog" where
  "apt_install E packages =
     bnd (aikbt_is_root E) (\<lambda>root.
       if root then steps [
         discard (aikbt_run E [''apt'', ''update''] True),
         discard (aikbt_run E ([''apt'', ''install'', ''-y''] @ packages) True)]
       else steps [
         bnd (have_cmd ''sudo'') (\<lambda>h.
           if \<not> h
           then thn (print (str ''ERROR: sudo not found. Install sudo as root, or run this script as root.''))
                    (sys_exit 1)
           else ret ()),
         discard (aikbt_run E [''sudo'', ''apt'', ''update''] True),
         discard (aikbt_run E ([''sudo'', ''apt'', ''install'', ''-y''] @ packages) True)])"

definition update_alternatives_cmd :: "string list" where
  "update_alternatives_cmd =
     [''update-alternatives'', ''--install'', ''/usr/bin/lldb'', ''lldb'', ''/usr/bin/lldb-15'', ''100'']"

definition setup_update_alternatives :: "env \<Rightarrow> unit prog" where
  "setup_update_alternatives E =
     bnd (have_cmd ''update-alternatives'') (\<lambda>h.
       if \<not> h then print (str ''NOTE: update-alternatives not found; skipping.'')
       else bnd (path_exists [''usr'', ''bin'', ''lldb-15'']) (\<lambda>ex.
         if \<not> ex
         then print (str ''NOTE: /usr/bin/lldb-15 not found; skipping update-alternatives step.'')
         else steps [
           bnd (aikbt_is_root E) (\<lambda>root.
             if root then discard (aikbt_run E update_alternatives_cmd False)
             else discard (aikbt_run E (''sudo'' # update_alternatives_cmd) False)),
           print (str ''OK: update-alternatives attempted (lldb -> lldb-15)'')]))"

definition aikbt_main :: "env \<Rightarrow> unit prog" where
  "aikbt_main E =
    (let lldb_dir = home E @ [''.lldb''];
         aik_bt_path = lldb_dir @ [''aik_bt.py''];
         aik_renderer_path = lldb_dir @ [''aik_renderer.py''];
         lldbinit_path = home E @ [''.lldbinit''];
         bashrc_path = home E @ [''.bashrc'']
     in steps [
       print (str ''=== AIK BT (LLDB) Installer for Ubuntu ===''),
       print ([10] @ str ''[1/5] Installing LLDB + Python LLDB bindings (llvm-15)...''),
       apt_install E [''lldb-15'', ''python3-lldb-15'', ''curl''],
       print ([10] @ str ''[2/5] Downloading aik_bt.py and aik_renderer.py to ~/.lldb/ ...''),
       download_to E AIK_BT_URL aik_bt_path,
       download_to E AIK_RENDERER_URL aik_renderer_path,
       print ([10] @ str ''[3/5] Configuring ~/.lldbinit ...''),
       ensure_line_in_file lldbinit_path (str ''command script import '' @ str (show_path aik_bt_path)),
       print ([10] @ str ''[4/5] Setting lldb-15 as default (optional) ...''),
       setup_update_alternatives E,
       print ([10] @ str ''[5/5] Adding PYTHONPATH to ~/.bashrc ...''),
       ensure_line_in_file bashrc_path
         (str ''export PYTHONPATH=/usr/lib/llvm-15/lib/python3.10/dist-packages:$PYTHONPATH''),
       print ([10] @ str ''=== DONE ===''),
       print (str ''Now run:''),
       print (str ''  source ~/.bashrc''),
       print (str ''  lldb''),
       print ([10] @ str ''Inside LLDB you should see:''),
       print (str ''  Loaded: aik bt''),
       print ([10] @ str ''Then try:''),
       print (str ''  (lldb) aik bt''),
       print (str ''  (lldb) aik bt 5'')])"

text \<open>
  The script as a process: the \<open>__main__\<close> guard around \<open>main\<close>, giving the exit status,
  the machine left behind and the events.
\<close>

definition install_aikbt :: "env \<Rightarrow> machine \<Rightarrow> int \<times> machine \<times> event list" where
  "install_aikbt E m =
     (case except_called_process_error (aikbt_main E)
             (\<lambda>c rc. thn (print ([10] @ str ''ERROR: Command failed with exit code '' @ str (show_int rc)))
                          (sys_exit rc)) m
      of (r, m', t) \<Rightarrow> (exit_status r, m', t))"

section \<open>setup_tools.py\<close>

definition PIP_PACKAGES :: "string list" where
  "PIP_PACKAGES = [''qrcode[pil]'', ''check50'', ''style50'', ''submit50'']"

definition APT_PACKAGES :: "string list" where
  "APT_PACKAGES = [''sudo'', ''python3'', ''python3-venv'', ''python3-pip'', ''clang'', ''lldb'',
     ''micro'', ''asciinema'', ''zip'', ''unzip'', ''curl'']"

definition BREW_PACKAGES :: "string list" where
  "BREW_PACKAGES = [''micro'', ''asciinema'', ''llvm'', ''zip'', ''unzip'', ''curl'']"

definition WINGET_PACKAGES :: "(string \<times> string option) list" where
  "WINGET_PACKAGES = [
     (''Micro Editor'', Some ''zyedidia.micro''),
     (''LLVM (clang/lldb)'', Some ''LLVM.LLVM''),
     (''cURL'', Some ''cURL.cURL''),
     (''zip/unzip'', None)]"

text \<open>\<open>str.lower()\<close> on the ASCII text \<open>platform.system()\<close> returns.\<close>

definition lower :: "string \<Rightarrow> string" where
  "lower s = map (\<lambda>c. let n = (of_char c :: nat) in if 65 \<le> n \<and> n \<le> 90 then char_of (n + 32) else c) s"

definition tools_run :: "env \<Rightarrow> string list \<Rightarrow> bool \<Rightarrow> int prog" where
  "tools_run E cmd check =
     thn (print ([10] @ str ''==> '' @ str (join_spaces cmd))) (subprocess_run E cmd check)"

definition tools_is_root :: "env \<Rightarrow> bool" where
  "tools_is_root E \<longleftrightarrow> geteuid E \<noteq> None \<and> geteuid E = Some 0"

definition is_linux :: "env \<Rightarrow> bool" where
  "is_linux E \<longleftrightarrow> lower (system E) = ''linux''"

definition is_macos :: "env \<Rightarrow> bool" where
  "is_macos E \<longleftrightarrow> lower (system E) = ''darwin''"

definition is_windows :: "env \<Rightarrow> bool" where
  "is_windows E \<longleftrightarrow> lower (system E) = ''windows''"

definition choose_venv_path :: "env \<Rightarrow> path" where
  "choose_venv_path E =
     (if is_linux E \<and> tools_is_root E then [''opt'', ''course-venv'']
      else home E @ [''course-venv''])"

text \<open>\<open>have\<close> of the script; the name is a keyword here.\<close>

definition tools_have :: "string \<Rightarrow> bool prog" where
  "tools_have cmd = ask (\<lambda>m. installed m cmd)"

definition first_line :: "env \<Rightarrow> string list \<Rightarrow> pystr prog" where
  "first_line E cmd =
     (case cmd of
        [] \<Rightarrow> raise IndexError
      | c # args \<Rightarrow>
          bnd (tools_have c) (\<lambda>h.
            if \<not> h then ret (str ''not available'')
            else except_Exception
              (bnd (check_output E cmd) (\<lambda>raw.
                 let out = strip raw in
                 if out \<noteq> [] then (case splitlines out of [] \<Rightarrow> raise IndexError | l # ls \<Rightarrow> ret l)
                 else ret (str ''unknown'')))
              (ret (str ''unknown''))))"

definition ensure_admin_linux :: "env \<Rightarrow> string list prog" where
  "ensure_admin_linux E =
     (if tools_is_root E then ret []
      else bnd (tools_have ''sudo'') (\<lambda>h.
        if h then ret [''sudo'']
        else thn (print ([10060] @ str '' sudo is not installed and you are not root.''))
            (thn (print (str ''   First run must be as root (or via provider console):''))
            (thn (print (str ''     python3 setup_tools.py''))
                 (sys_exit 1)))))"

definition install_on_ubuntu :: "env \<Rightarrow> unit prog" where
  "install_on_ubuntu E =
     bnd (ensure_admin_linux E) (\<lambda>pfx. steps [
       discard (tools_run E (pfx @ [''apt-get'', ''update'', ''-y'']) True),
       discard (tools_run E (pfx @ [''apt-get'', ''install'', ''-y''] @ APT_PACKAGES) True)])"

definition install_on_macos :: "env \<Rightarrow> unit prog" where
  "install_on_macos E =
     bnd (tools_have ''brew'') (\<lambda>h.
       if \<not> h then steps [
         print ([10060] @ str '' Homebrew (brew) not found.''),
         print (str ''   Install Homebrew first, then rerun this script.''),
         print (str ''   Command (copy/paste in Terminal):''),
         print (str ''   /bin/bash -c '' @ [34]
                @ str ''$(curl -fsSL https://raw.githubusercontent.com/Homebrew/install/HEAD/install.sh)''
                @ [34])]
       else steps [
         discard (tools_run E [''brew'', ''update''] True),
         discard (tools_run E ([''brew'', ''install''] @ BREW_PACKAGES) True)])"

definition winget_cmd :: "string \<Rightarrow> string list" where
  "winget_cmd pkg_id = [''winget'', ''install'', ''--id'', pkg_id, ''-e'',
     ''--accept-package-agreements'', ''--accept-source-agreements'']"

fun winget_loop :: "env \<Rightarrow> (string \<times> string option) list \<Rightarrow> unit prog" where
  "winget_loop E [] = ret ()"
| "winget_loop E ((name, pkg_id) # rest) =
     (case pkg_id of
        None \<Rightarrow> winget_loop E rest
      | Some i \<Rightarrow> thn (tools_run E (winget_cmd i) False) (winget_loop E rest))"

definition install_on_windows :: "env \<Rightarrow> unit prog" where
  "install_on_windows E =
     bnd (tools_have ''winget'') (\<lambda>h.
       if \<not> h
       then print ([10060] @ str '' winget not found. Install '' @ [39] @ str ''App Installer'' @ [39]
                   @ str '' from Microsoft Store or use Windows 10/11 with winget enabled.'')
       else steps [
         winget_loop E WINGET_PACKAGES,
         print ([10, 8505, 65039] @ str '' asciinema is not commonly available for native Windows.''),
         print (str ''   Best option: use WSL (Ubuntu) and install asciinema there.'')])"

definition ensure_venv :: "env \<Rightarrow> path \<Rightarrow> (path \<times> path) prog" where
  "ensure_venv E venv_path =
     thn (bnd (isdir venv_path) (\<lambda>d.
            if \<not> d then discard (tools_run E [sys_executable E, ''-m'', ''venv'', show_path venv_path] True)
            else ret ()))
    (let python_bin = (if is_windows E then venv_path @ [''Scripts'', ''python.exe'']
                       else venv_path @ [''bin'', ''python'']);
         pip_bin = (if is_windows E then venv_path @ [''Scripts'', ''pip.exe'']
                    else venv_path @ [''bin'', ''pip''])
     in thn (tools_run E [show_path python_bin, ''-m'', ''pip'', ''install'', ''-U'', ''pip'',
                          ''setuptools'', ''wheel''] True)
            (ret (python_bin, pip_bin)))"

definition pip_install_in_venv :: "env \<Rightarrow> path \<Rightarrow> unit prog" where
  "pip_install_in_venv E pip_bin =
     discard (tools_run E ([show_path pip_bin, ''install'', ''-U''] @ PIP_PACKAGES) True)"

fun link_loop :: "env \<Rightarrow> string list \<Rightarrow> path \<Rightarrow> string list \<Rightarrow> unit prog" where
  "link_loop E pfx venv_path [] = ret ()"
| "link_loop E pfx venv_path (tool # tools) =
     (let src = venv_path @ [''bin'', tool];
          dst = [''usr'', ''local'', ''bin''] @ [tool]
      in thn (bnd (path_exists src) (\<lambda>ex.
                if ex then discard (tools_run E (pfx @ [''ln'', ''-sf'', show_path src, show_path dst]) True)
                else print ([9888, 65039] @ str '' Tool not found in venv (skipping link): ''
                            @ str (show_path src))))
             (link_loop E pfx venv_path tools))"

definition symlink_cli_tools_linux_shared :: "env \<Rightarrow> path \<Rightarrow> unit prog" where
  "symlink_cli_tools_linux_shared E venv_path =
     (if \<not> is_linux E then ret ()
      else if venv_path \<noteq> [''opt'', ''course-venv''] then ret ()
      else bnd (ensure_admin_linux E) (\<lambda>pfx.
             link_loop E pfx venv_path [''check50'', ''style50'', ''submit50'']))"

definition version_checks :: "(string \<times> string list) list" where
  "version_checks = [
     (''python3'', [''python3'', ''--version'']),
     (''pip3'', [''pip3'', ''--version'']),
     (''clang'', [''clang'', ''--version'']),
     (''lldb'', [''lldb'', ''--version'']),
     (''micro'', [''micro'', ''--version'']),
     (''asciinema'', [''asciinema'', ''--version'']),
     (''curl'', [''curl'', ''--version'']),
     (''zip'', [''zip'', ''-v'']),
     (''unzip'', [''unzip'', ''-v'']),
     (''sudo'', [''sudo'', ''--version''])]"

fun checks_loop :: "env \<Rightarrow> (string \<times> string list) list \<Rightarrow> unit prog" where
  "checks_loop E [] = ret ()"
| "checks_loop E ((name, cmd) # rest) =
     thn (bnd (first_line E cmd) (\<lambda>v. print (str name @ str '': '' @ v)))
         (checks_loop E rest)"

definition version_code :: "string \<Rightarrow> string" where
  "version_code dist = ''from importlib.metadata import version'' @ [CHR 10]
     @ ''print('' @ [CHR 39] @ dist @ ''='' @ [CHR 39] @ '' + version('' @ [CHR 39] @ dist
     @ [CHR 39] @ ''))'' @ [CHR 10]"

fun dists_loop :: "env \<Rightarrow> string \<Rightarrow> string list \<Rightarrow> unit prog" where
  "dists_loop E venv_python [] = ret ()"
| "dists_loop E venv_python (dist # dists) =
     thn (except_Exception
            (bnd (check_output E [venv_python, ''-c'', version_code dist]) (\<lambda>raw. print (strip raw)))
            (print (str dist @ str ''=not installed'')))
         (dists_loop E venv_python dists)"

definition print_versions :: "env \<Rightarrow> string \<Rightarrow> unit prog" where
  "print_versions E venv_python = steps [
     print ([10] @ str (replicate 60 CHR ''='')),
     print ([9989] @ str '' Version check''),
     print (str (replicate 60 CHR ''='')),
     checks_loop E version_checks,
     print ([10] @ str ''PIP packages (inside venv):''),
     dists_loop E venv_python [''qrcode'', ''check50'', ''style50'', ''submit50''],
     print ([10] @ str ''Done.'' @ [10])]"

text \<open>Steps 2 to 4 of \<open>main\<close>, which follow the system installation on a supported system.\<close>

definition tools_after_install :: "env \<Rightarrow> unit prog" where
  "tools_after_install E =
     (let venv_path = choose_venv_path E in
      thn (print ([10] @ str ''==> Using venv at: '' @ str (show_path venv_path)))
     (bnd (ensure_venv E venv_path) (\<lambda>(venv_python, venv_pip). steps [
        pip_install_in_venv E venv_pip,
        symlink_cli_tools_linux_shared E venv_path,
        print_versions E (show_path venv_python)])))"

definition tools_main :: "env \<Rightarrow> unit prog" where
  "tools_main E =
     thn (print (str ''==> Detected OS: '' @ str (system E) @ str '' '' @ str (release E)))
        (if is_linux E then thn (install_on_ubuntu E) (tools_after_install E)
         else if is_macos E then thn (install_on_macos E) (tools_after_install E)
         else if is_windows E then thn (install_on_windows E) (tools_after_install E)
         else print ([10060] @ str '' Unsupported OS for automatic system installs.''))"

text \<open>
  \<open>str(e)\<close> of a \<open>CalledProcessError\<close>: a negative return code is the number of the
  signal that ended the command, shown as \<open>repr\<close> of the member of \<open>signal.Signals\<close>
  when the platform has a name for it.
\<close>

definition show_called_process_error :: "env \<Rightarrow> string list \<Rightarrow> int \<Rightarrow> string" where
  "show_called_process_error E cmd rc =
     ''Command '' @ [CHR 39] @ show_list cmd @ [CHR 39] @
     (if rc < 0 then
        (case signal_name E (nat (- rc)) of
           Some name \<Rightarrow> '' died with <Signals.'' @ name @ '': '' @ show_nat (nat (- rc)) @ ''>.''
         | None \<Rightarrow> '' died with unknown signal '' @ show_nat (nat (- rc)) @ ''.'')
      else '' returned non-zero exit status '' @ show_int rc @ ''.'')"

definition setup_tools :: "env \<Rightarrow> machine \<Rightarrow> int \<times> machine \<times> event list" where
  "setup_tools E m =
     (case except_called_process_error (tools_main E)
             (\<lambda>c rc. thn (print ([10, 10060] @ str '' Command failed: ''
                                 @ str (show_called_process_error E c rc)))
                          (sys_exit rc)) m
      of (r, m', t) \<Rightarrow> (exit_status r, m', t))"

section \<open>Vocabulary of the statements\<close>

text \<open>
  The text of the file at a path (empty when there is no file), and the paths
  \<open>ensure_line_in_file\<close> can work on: not the root, not a directory, and with no regular
  file among the ancestors.
\<close>

definition file_text :: "machine \<Rightarrow> path \<Rightarrow> pystr" where
  "file_text m p = (case node_at m p of Some (File c) \<Rightarrow> c | _ \<Rightarrow> [])"

definition usable :: "machine \<Rightarrow> path \<Rightarrow> bool" where
  "usable m p \<longleftrightarrow> p \<noteq> [] \<and> node_at m p \<noteq> Some Dir
     \<and> (\<forall>q\<in>set (prefixes (parent p)). \<forall>c. node_at m q \<noteq> Some (File c))"

text \<open>What \<open>ensure_line_in_file\<close> writes before the line, read off its \<open>with\<close> block.\<close>

definition separator :: "pystr \<Rightarrow> pystr" where
  "separator old = (if old \<noteq> [] \<and> \<not> endswith (universal_newlines old) [10] then [10] else [])"

text \<open>The lines Python reads from the file at a path.\<close>

definition file_lines :: "machine \<Rightarrow> path \<Rightarrow> pystr list" where
  "file_lines m p = splitlines (universal_newlines (file_text m p))"

text \<open>A line proper: not empty and without a line boundary inside.\<close>

definition one_line :: "pystr \<Rightarrow> bool" where
  "one_line line \<longleftrightarrow> line \<noteq> [] \<and> (\<forall>c\<in>set line. \<not> linebreak c)"

text \<open>The machine a program leaves behind.\<close>

definition machine_after :: "'a prog \<Rightarrow> machine \<Rightarrow> machine" where
  "machine_after p m = fst (snd (p m))"

text \<open>
  A command that can be started on a machine and exits with code 0 there, which is when
  \<open>subprocess.run\<close> with \<open>check=True\<close> returns.
\<close>

definition succeeds :: "env \<Rightarrow> string list \<Rightarrow> machine \<Rightarrow> bool" where
  "succeeds E cmd m \<longleftrightarrow> cmd \<noteq> [] \<and> installed m (hd cmd) \<and> returncode (exec E cmd m) = 0"

text \<open>
  The prefix of a privileged command for user \<open>u\<close>; the command that links a tool of
  the virtual environment into \<open>/usr/local/bin\<close>, and the line printed for a tool that
  is not in the virtual environment.
\<close>

definition sudo_prefix :: "nat \<Rightarrow> string list" where
  "sudo_prefix u = (if u = 0 then [] else [''sudo''])"

definition ln_cmd :: "string list \<Rightarrow> path \<Rightarrow> string \<Rightarrow> string list" where
  "ln_cmd pfx venv_path tool =
     pfx @ [''ln'', ''-sf'', show_path (venv_path @ [''bin'', tool]),
            show_path [''usr'', ''local'', ''bin'', tool]]"

definition tool_not_found :: "path \<Rightarrow> string \<Rightarrow> event" where
  "tool_not_found venv_path tool =
     Printed ([9888, 65039] @ str '' Tool not found in venv (skipping link): ''
              @ str (show_path (venv_path @ [''bin'', tool])))"

subsection \<open>Example machines\<close>

definition home_u :: path where
  "home_u = [''home'', ''u'']"

definition fresh_machine :: machine where
  "fresh_machine = \<lparr>fs = map_of [([''home''], Dir), (home_u, Dir)], installed = (\<lambda>c. False)\<rparr>"

definition machine_with_lldbinit :: "pystr \<Rightarrow> machine" where
  "machine_with_lldbinit c =
     \<lparr>fs = map_of [([''home''], Dir), (home_u, Dir), (home_u @ [''.lldbinit''], File c)],
      installed = (\<lambda>c. False)\<rparr>"

definition lldbinit :: path where
  "lldbinit = home_u @ [''.lldbinit'']"

subsection \<open>Runs of programs\<close>

text \<open>
  The commands handed to \<open>subprocess.run\<close> among the events, in order (also those
  whose executable was not found), and the parts of what a program gives.
\<close>

fun runs :: "event list \<Rightarrow> string list list" where
  "runs [] = []"
| "runs (Run c chk out # es) = c # runs es"
| "runs (e # es) = runs es"

definition result_of :: "'a prog \<Rightarrow> machine \<Rightarrow> exn + 'a" where
  "result_of p m = fst (p m)"

definition events_of :: "'a prog \<Rightarrow> machine \<Rightarrow> event list" where
  "events_of p m = snd (snd (p m))"

text \<open>
  A checked command that exited with a non-zero code; a list of events without one; what
  a program that fails fast may give: after a \<open>CalledProcessError\<close> the failed checked
  command is the last event and the only failure, and \<open>sys.exit\<close> is called with 1 only.
\<close>

fun failed_check :: "event \<Rightarrow> bool" where
  "failed_check (Run c True (Exited rc)) = (rc \<noteq> 0)"
| "failed_check e = False"

definition clean :: "event list \<Rightarrow> bool" where
  "clean t \<longleftrightarrow> \<not> (\<exists>e\<in>set t. failed_check e)"

fun good :: "exn + 'a \<Rightarrow> event list \<Rightarrow> bool" where
  "good (Inl (CalledProcessError c rc)) t =
     (rc \<noteq> 0 \<and> t \<noteq> [] \<and> last t = Run c True (Exited rc) \<and> clean (butlast t))"
| "good (Inl (SystemExit n)) t = (n = 1 \<and> clean t)"
| "good r t = clean t"

definition fails_fast :: "'a prog \<Rightarrow> bool" where
  "fails_fast p \<longleftrightarrow> (\<forall>m. good (result_of p m) (events_of p m))"

definition harmless :: "'a prog \<Rightarrow> bool" where
  "harmless p \<longleftrightarrow> (\<forall>m. clean (events_of p m)
      \<and> (\<forall>c rc. result_of p m \<noteq> Inl (CalledProcessError c rc))
      \<and> (\<forall>n. result_of p m \<noteq> Inl (SystemExit n)))"

text \<open>A body of \<open>try\<close> that runs no checked command and never exits.\<close>

definition tame :: "'a prog \<Rightarrow> bool" where
  "tame p \<longleftrightarrow> (\<forall>m. clean (events_of p m) \<and> (\<forall>n. result_of p m \<noteq> Inl (SystemExit n)))"

text \<open>The \<open>__main__\<close> guard of both scripts, with the message it prints.\<close>

definition guarded :: "unit prog \<Rightarrow> (string list \<Rightarrow> int \<Rightarrow> pystr) \<Rightarrow> unit prog" where
  "guarded p msg = except_called_process_error p (\<lambda>c rc. thn (print (msg c rc)) (sys_exit rc))"

text \<open>A program that returns normally from every machine.\<close>

definition always_returns :: "'a prog \<Rightarrow> bool" where
  "always_returns p \<longleftrightarrow> (\<forall>m. \<exists>x. result_of p m = Inr x)"

text \<open>An event that is not a failure: a printed line, or a command that exited with 0.\<close>

fun succeeded :: "event \<Rightarrow> bool" where
  "succeeded (Run c chk out) = (out = Exited 0)"
| "succeeded (Output c out) = (out = Exited 0)"
| "succeeded (Printed s) = True"

text \<open>
  The sanity check of \<open>download_to\<close> fails: there is nothing at the path, or what is
  there has fewer than 10 bytes. And the command \<open>download_to\<close> runs.
\<close>

definition too_small :: "env \<Rightarrow> machine \<Rightarrow> path \<Rightarrow> bool" where
  "too_small E m p \<longleftrightarrow>
     (case node_at m p of None \<Rightarrow> True | Some Dir \<Rightarrow> dir_size E < 10 | Some (File c) \<Rightarrow> utf8_size c < 10)"

definition curl_cmd :: "string \<Rightarrow> path \<Rightarrow> string list" where
  "curl_cmd url dest = [''curl'', ''-fsSL'', url, ''-o'', show_path dest]"

text \<open>
  An event with the exit code of an unchecked command forgotten, and two programs that
  give the same result and machine and the same events up to such exit codes.
\<close>

fun blur :: "event \<Rightarrow> event" where
  "blur (Run c False (Exited rc)) = Run c False (Exited 0)"
| "blur e = e"

definition sim :: "'a prog \<Rightarrow> 'a prog \<Rightarrow> bool" where
  "sim p q \<longleftrightarrow> (\<forall>m. result_of p m = result_of q m \<and> machine_after p m = machine_after q m
      \<and> map blur (events_of p m) = map blur (events_of q m))"

text \<open>
  An environment in which the listed commands exit with other codes and do the same
  otherwise; the commands each script runs with \<open>check=False\<close>.
\<close>

definition override_returncode :: "string list list \<Rightarrow> (string list \<Rightarrow> machine \<Rightarrow> int) \<Rightarrow> env \<Rightarrow> env" where
  "override_returncode cmds g E =
     E\<lparr>exec := (\<lambda>cmd m. if cmd \<in> set cmds then (exec E cmd m)\<lparr>returncode := g cmd m\<rparr>
                          else exec E cmd m)\<rparr>"

definition unchecked_aikbt :: "string list list" where
  "unchecked_aikbt = [update_alternatives_cmd, ''sudo'' # update_alternatives_cmd]"

definition unchecked_tools :: "string list list" where
  "unchecked_tools = map winget_cmd (List.map_filter snd WINGET_PACKAGES)"

subsection \<open>Example environments\<close>

definition aik_bt_py :: path where
  "aik_bt_py = home_u @ [''.lldb'', ''aik_bt.py'']"

definition aik_renderer_py :: path where
  "aik_renderer_py = home_u @ [''.lldb'', ''aik_renderer.py'']"

text \<open>
  External programs of an example: curl stores both scripts, update-alternatives fails
  with exit code 2, every other program succeeds and prints a version line.
\<close>

definition example_exec :: "string list \<Rightarrow> machine \<Rightarrow> proc" where
  "example_exec cmd m =
     (if hd cmd = ''curl''
      then \<lparr>returncode = 0, captured = Some [],
            after = m\<lparr>fs := (fs m)(aik_bt_py \<mapsto> File (str ''import lldb # aik bt''),
                                   aik_renderer_py \<mapsto> File (str ''import lldb # renderer''))\<rparr>\<rparr>
      else if ''update-alternatives'' \<in> set cmd
      then \<lparr>returncode = 2, captured = Some [], after = m\<rparr>
      else \<lparr>returncode = 0, captured = Some (str ''tool 1.0''), after = m\<rparr>)"

text \<open>The signals of Linux and of macOS that \<open>signal.Signals\<close> names.\<close>

definition linux_signals :: "(nat \<times> string) list" where
  "linux_signals = [(1, ''SIGHUP''), (2, ''SIGINT''), (3, ''SIGQUIT''), (4, ''SIGILL''),
     (5, ''SIGTRAP''), (6, ''SIGABRT''), (7, ''SIGBUS''), (8, ''SIGFPE''), (9, ''SIGKILL''),
     (10, ''SIGUSR1''), (11, ''SIGSEGV''), (12, ''SIGUSR2''), (13, ''SIGPIPE''), (14, ''SIGALRM''),
     (15, ''SIGTERM''), (16, ''SIGSTKFLT''), (17, ''SIGCHLD''), (18, ''SIGCONT''), (19, ''SIGSTOP''),
     (20, ''SIGTSTP''), (21, ''SIGTTIN''), (22, ''SIGTTOU''), (23, ''SIGURG''), (24, ''SIGXCPU''),
     (25, ''SIGXFSZ''), (26, ''SIGVTALRM''), (27, ''SIGPROF''), (28, ''SIGWINCH''), (29, ''SIGIO''),
     (30, ''SIGPWR''), (31, ''SIGSYS''), (34, ''SIGRTMIN''), (64, ''SIGRTMAX'')]"

definition macos_signals :: "(nat \<times> string) list" where
  "macos_signals = [(1, ''SIGHUP''), (2, ''SIGINT''), (3, ''SIGQUIT''), (4, ''SIGILL''),
     (5, ''SIGTRAP''), (6, ''SIGABRT''), (7, ''SIGEMT''), (8, ''SIGFPE''), (9, ''SIGKILL''),
     (10, ''SIGBUS''), (11, ''SIGSEGV''), (12, ''SIGSYS''), (13, ''SIGPIPE''), (14, ''SIGALRM''),
     (15, ''SIGTERM''), (16, ''SIGURG''), (17, ''SIGSTOP''), (18, ''SIGTSTP''), (19, ''SIGCONT''),
     (20, ''SIGCHLD''), (21, ''SIGTTIN''), (22, ''SIGTTOU''), (23, ''SIGIO''), (24, ''SIGXCPU''),
     (25, ''SIGXFSZ''), (26, ''SIGVTALRM''), (27, ''SIGPROF''), (28, ''SIGWINCH''), (29, ''SIGINFO''),
     (30, ''SIGUSR1''), (31, ''SIGUSR2'')]"

definition ubuntu_root :: env where
  "ubuntu_root = \<lparr>geteuid = Some 0, system = ''Linux'', release = ''6.8.0'', home = home_u,
     sys_executable = ''/usr/bin/python3'', dir_size = 4096, signal_name = map_of linux_signals,
     exec = example_exec\<rparr>"

definition ubuntu_machine :: machine where
  "ubuntu_machine = \<lparr>fs = map_of [([''home''], Dir), (home_u, Dir), ([''usr''], Dir),
       ([''usr'', ''bin''], Dir), ([''usr'', ''bin'', ''lldb-15''], File (str ''ELF''))],
     installed = (\<lambda>c. True)\<rparr>"

definition ubuntu_user :: env where
  "ubuntu_user = ubuntu_root\<lparr>geteuid := Some 1000\<rparr>"

definition ubuntu_without_sudo :: machine where
  "ubuntu_without_sudo = ubuntu_machine\<lparr>installed := (\<lambda>c. c \<noteq> ''sudo'')\<rparr>"

text \<open>External programs that succeed and change nothing.\<close>

definition no_effect :: "string list \<Rightarrow> machine \<Rightarrow> proc" where
  "no_effect cmd m = \<lparr>returncode = 0, captured = Some [], after = m\<rparr>"

definition mac_user :: env where
  "mac_user = \<lparr>geteuid = Some 501, system = ''Darwin'', release = ''23.1.0'', home = [''Users'', ''u''],
     sys_executable = ''/usr/bin/python3'', dir_size = 64, signal_name = map_of macos_signals,
     exec = no_effect\<rparr>"

definition mac_without_brew :: machine where
  "mac_without_brew = \<lparr>fs = map_of [([''Users''], Dir), ([''Users'', ''u''], Dir)],
     installed = (\<lambda>c. c \<in> set [''/usr/bin/python3'', ''/Users/u/course-venv/bin/python'',
        ''/Users/u/course-venv/bin/pip''])\<rparr>"

definition with_lldb_dir :: "machine \<Rightarrow> machine" where
  "with_lldb_dir m = m\<lparr>fs := (fs m)(home_u @ [''.lldb''] \<mapsto> Dir)\<rparr>"

definition ubuntu_without_curl :: machine where
  "ubuntu_without_curl = ubuntu_machine\<lparr>installed := (\<lambda>c. c \<noteq> ''curl'')\<rparr>"

text \<open>
  External programs that change nothing and succeed, except that \<open>apt update\<close> exits
  with code 100, or is ended by signal 9.
\<close>

definition apt_update_fails :: "string list \<Rightarrow> machine \<Rightarrow> proc" where
  "apt_update_fails cmd m =
     \<lparr>returncode = (if cmd = [''apt'', ''update''] then 100 else 0), captured = Some [], after = m\<rparr>"

definition apt_update_killed :: "string list \<Rightarrow> machine \<Rightarrow> proc" where
  "apt_update_killed cmd m =
     \<lparr>returncode = (if cmd = [''apt'', ''update''] then - 9 else 0), captured = Some [], after = m\<rparr>"

section \<open>Lines of a text\<close>

text \<open>Evaluation decides the common case, an ASCII code point, at once.\<close>

lemma scalar_value_code [code]:
  "scalar_value c = (if c < 128 then True else c < 55296 \<or> (57343 < c \<and> c < 1114112))"
  by (auto simp: scalar_value_def)

lemma splitlines_from_line:
  "\<forall>c\<in>set l. \<not> linebreak c \<Longrightarrow> splitlines_from cur (l @ [10]) = [cur @ l]"
proof (induction l arbitrary: cur)
  case Nil
  then show ?case by (simp add: linebreak_def)
next
  case (Cons a l)
  then show ?case by (cases l) (auto simp: linebreak_def)
qed

lemma splitlines_from_LF_append:
  "splitlines_from cur (t @ 10 # u) = splitlines_from cur (t @ [10]) @ splitlines_from [] u"
proof (induction cur t rule: splitlines_from.induct)
  case (1 cur)
  then show ?case by (cases u) (auto simp: linebreak_def)
next
  case (2 cur c)
  then show ?case by (cases u) (auto simp: linebreak_def)
next
  case (3 cur c d cs)
  then show ?case by auto
qed

lemma splitlines_from_drop_LF:
  "t \<noteq> [] \<Longrightarrow> \<not> linebreak (last t) \<Longrightarrow> splitlines_from cur (t @ [10]) = splitlines_from cur t"
proof (induction cur t rule: splitlines_from.induct)
  case (1 cur)
  then show ?case by simp
next
  case (2 cur c)
  then show ?case by (auto simp: linebreak_def)
next
  case (3 cur c d cs)
  then show ?case by (cases "cs = []") (auto simp: linebreak_def)
qed

lemma splitlines_from_Nil_iff: "splitlines_from cur s = [] \<longleftrightarrow> cur = [] \<and> s = []"
  by (induction cur s rule: splitlines_from.induct) auto

lemma un_Nil_iff: "universal_newlines s = [] \<longleftrightarrow> s = []"
  by (induction s rule: universal_newlines.induct) auto

lemma un_no_CR: "13 \<notin> set (universal_newlines s)"
  by (induction s rule: universal_newlines.induct) auto

lemma un_id: "13 \<notin> set s \<Longrightarrow> universal_newlines s = s"
  by (induction s rule: universal_newlines.induct) auto

lemma un_append:
  "xs = [] \<or> last xs \<noteq> 13 \<or> ys = [] \<or> hd ys \<noteq> 10 \<Longrightarrow>
   universal_newlines (xs @ ys) = universal_newlines xs @ universal_newlines ys"
proof (induction xs rule: universal_newlines.induct)
  case 1
  then show ?case by simp
next
  case (2 c)
  then show ?case by (cases ys) auto
next
  case (3 c d cs)
  then show ?case by (cases "cs = []") auto
qed

lemma un_last_LF:
  "s \<noteq> [] \<Longrightarrow> last (universal_newlines s) = 10 \<longleftrightarrow> last s = 10 \<or> last s = 13"
proof (induction s rule: universal_newlines.induct)
  case 1
  then show ?case by simp
next
  case (2 c)
  then show ?case by simp
next
  case (3 c d cs)
  then show ?case by (cases "cs = []") (auto simp: un_Nil_iff)
qed

lemma endswith_LF: "endswith t [10] \<longleftrightarrow> t \<noteq> [] \<and> last t = 10"
  by (cases t rule: rev_cases) (auto simp: endswith_def)

lemma splitlines_from_snoc_LF:
  "t \<noteq> [] \<Longrightarrow> last t \<noteq> 13 \<Longrightarrow>
   splitlines_from cur (t @ [10]) = splitlines_from cur t @ (if linebreak (last t) then [[]] else [])"
proof (induction cur t rule: splitlines_from.induct)
  case (1 cur)
  then show ?case by simp
next
  case (2 cur c)
  then show ?case by (auto simp: linebreak_def)
next
  case (3 cur c d cs)
  then show ?case by (cases "cs = []") (auto simp: linebreak_def)
qed

lemma un_appended:
  assumes "line \<noteq> []" and nb: "\<forall>c\<in>set line. \<not> linebreak c"
  shows "universal_newlines (old @ separator old @ line @ [10])
         = universal_newlines old @ separator old @ line @ [10]"
proof -
  have no13: "13 \<notin> set (separator old @ line @ [10])"
    using nb by (auto simp: separator_def linebreak_def)
  have hd_line: "hd line \<noteq> 10" using assms by (cases line) (auto simp: linebreak_def)
  have "old = [] \<or> last old \<noteq> 13 \<or> separator old @ line @ [10] = []
        \<or> hd (separator old @ line @ [10]) \<noteq> 10"
  proof (cases "separator old = []")
    case True
    with hd_line \<open>line \<noteq> []\<close> show ?thesis by simp
  next
    case False
    then have "old \<noteq> []" and "last (universal_newlines old) \<noteq> 10"
      by (auto simp: separator_def endswith_LF un_Nil_iff split: if_splits)
    with un_last_LF[of old] show ?thesis by auto
  qed
  from un_append[OF this] un_id[OF no13] show ?thesis by simp
qed

lemma splitlines_appended:
  assumes "line \<noteq> []" and nb: "\<forall>c\<in>set line. \<not> linebreak c"
  shows "splitlines (universal_newlines (old @ separator old @ line @ [10]))
         = splitlines (universal_newlines old)
           @ (if old \<noteq> [] \<and> last (universal_newlines old) \<noteq> 10 \<and> linebreak (last (universal_newlines old))
              then [[]] else [])
           @ [line]"
proof -
  let ?t = "universal_newlines old"
  have l: "splitlines_from [] (line @ [10]) = [line]"
    using splitlines_from_line[OF nb, of "[]"] by simp
  show ?thesis
  proof (cases "old = []")
    case True
    then show ?thesis using l un_appended[OF assms, of old]
      by (simp add: separator_def splitlines_def)
  next
    case False
    then have tne: "?t \<noteq> []" by (simp add: un_Nil_iff)
    have t13: "last ?t \<noteq> 13" using un_no_CR[of old] tne last_in_set[OF tne] by metis
    show ?thesis
    proof (cases "last ?t = 10")
      case True
      with tne have sep: "separator old = []" by (simp add: separator_def endswith_LF)
      from tne True have "?t = butlast ?t @ [10]" by (metis append_butlast_last_id)
      then have "splitlines_from [] (?t @ line @ [10])
                 = splitlines_from [] (butlast ?t @ 10 # (line @ [10]))"
        by (metis append_Cons append_Nil append_assoc)
      also have "\<dots> = splitlines_from [] (butlast ?t @ [10]) @ splitlines_from [] (line @ [10])"
        by (rule splitlines_from_LF_append)
      also have "\<dots> = splitlines_from [] ?t @ [line]"
        using \<open>?t = butlast ?t @ [10]\<close> l by simp
      finally show ?thesis
        using un_appended[OF assms, of old] sep True by (simp add: splitlines_def)
    next
      case F2: False
      with False have sep: "separator old = [10]" by (simp add: separator_def endswith_LF)
      have "splitlines_from [] (?t @ 10 # (line @ [10]))
            = splitlines_from [] (?t @ [10]) @ splitlines_from [] (line @ [10])"
        by (rule splitlines_from_LF_append)
      also have "\<dots> = (splitlines_from [] ?t @ (if linebreak (last ?t) then [[]] else [])) @ [line]"
        using splitlines_from_snoc_LF[OF tne t13, of "[]"] l by simp
      finally show ?thesis
        using un_appended[OF assms, of old] sep F2 False by (simp add: splitlines_def)
    qed
  qed
qed

lemma un_append_gen:
  "xs \<noteq> [] \<Longrightarrow> universal_newlines (xs @ ys)
     = universal_newlines xs @ universal_newlines (if last xs = 13 \<and> ys \<noteq> [] \<and> hd ys = 10 then tl ys else ys)"
proof (induction xs rule: universal_newlines.induct)
  case 1
  then show ?case by simp
next
  case (2 c)
  then show ?case by (cases ys) auto
next
  case (3 c d cs)
  then show ?case by (cases "cs = []") auto
qed

lemma splitlines_kept:
  "prefix (splitlines (universal_newlines old))
          (splitlines (universal_newlines (old @ separator old @ line @ [10])))"
proof (cases "old = []")
  case True
  then show ?thesis by (simp add: splitlines_def)
next
  case False
  let ?t = "universal_newlines old"
  from False have tne: "?t \<noteq> []" by (simp add: un_Nil_iff)
  have t13: "last ?t \<noteq> 13" using un_no_CR[of old] tne last_in_set[OF tne] by metis
  show ?thesis
  proof (cases "last ?t = 10")
    case True
    with tne have sep: "separator old = []" by (simp add: separator_def endswith_LF)
    obtain z where un: "universal_newlines (old @ line @ [10]) = ?t @ z"
      using un_append_gen[OF False, of "line @ [10]"] by blast
    from tne True have bl: "?t = butlast ?t @ [10]" by (metis append_butlast_last_id)
    then have "splitlines_from [] (?t @ z) = splitlines_from [] (butlast ?t @ 10 # z)"
      by (metis append_Cons append_Nil append_assoc)
    also have "\<dots> = splitlines_from [] (butlast ?t @ [10]) @ splitlines_from [] z"
      by (rule splitlines_from_LF_append)
    finally show ?thesis using bl un sep by (simp add: splitlines_def)
  next
    case F2: False
    with False have sep: "separator old = [10]" by (simp add: separator_def endswith_LF)
    from F2 un_last_LF[OF False] have "last old \<noteq> 13" by simp
    with un_append_gen[OF False, of "10 # line @ [10]"]
    have "universal_newlines (old @ 10 # line @ [10]) = ?t @ universal_newlines (10 # line @ [10])"
      by simp
    moreover have "universal_newlines (10 # line @ [10]) = 10 # universal_newlines (line @ [10])"
      by (cases "line @ [10]") auto
    ultimately have un: "universal_newlines (old @ separator old @ line @ [10])
        = ?t @ 10 # universal_newlines (line @ [10])" using sep by simp
    have "splitlines_from [] (?t @ 10 # universal_newlines (line @ [10]))
       = splitlines_from [] (?t @ [10]) @ splitlines_from [] (universal_newlines (line @ [10]))"
      by (rule splitlines_from_LF_append)
    with splitlines_from_snoc_LF[OF tne t13, of "[]"] un show ?thesis
      by (simp add: splitlines_def)
  qed
qed

section \<open>Directories and the result of ensure_line_in_file\<close>

lemma mkdirs_keeps:
  "mkdirs qs m = Inr m' \<Longrightarrow> node_at m q = Some n \<Longrightarrow> node_at m' q = Some n"
proof (induction qs arbitrary: m)
  case Nil
  then show ?case by simp
next
  case (Cons a qs)
  show ?case
  proof (cases "node_at m a")
    case None
    with Cons.prems have "mkdirs qs (m\<lparr>fs := (fs m)(a \<mapsto> Dir)\<rparr>) = Inr m'" by simp
    moreover from None Cons.prems(2) have "node_at (m\<lparr>fs := (fs m)(a \<mapsto> Dir)\<rparr>) q = Some n"
      by (auto simp: node_at_def)
    ultimately show ?thesis by (rule Cons.IH)
  next
    case (Some x)
    with Cons show ?thesis by (cases x) (auto split: if_splits)
  qed
qed

lemma mkdirs_installed: "mkdirs qs m = Inr m' \<Longrightarrow> installed m' = installed m"
proof (induction qs arbitrary: m)
  case Nil
  then show ?case by simp
next
  case (Cons a qs)
  show ?case
  proof (cases "node_at m a")
    case None
    with Cons.prems have "mkdirs qs (m\<lparr>fs := (fs m)(a \<mapsto> Dir)\<rparr>) = Inr m'" by simp
    from Cons.IH[OF this] show ?thesis by simp
  next
    case (Some x)
    with Cons show ?thesis by (cases x) (auto split: if_splits)
  qed
qed

lemma mkdirs_other:
  "mkdirs qs m = Inr m' \<Longrightarrow> p \<notin> set qs \<Longrightarrow> node_at m' p = node_at m p"
proof (induction qs arbitrary: m)
  case Nil
  then show ?case by simp
next
  case (Cons a qs)
  show ?case
  proof (cases "node_at m a")
    case None
    with Cons.prems have "mkdirs qs (m\<lparr>fs := (fs m)(a \<mapsto> Dir)\<rparr>) = Inr m'" by simp
    from Cons.IH[OF this] Cons.prems(2) show ?thesis by (auto simp: node_at_def)
  next
    case (Some x)
    with Cons show ?thesis by (cases x) (auto split: if_splits)
  qed
qed

lemma mkdirs_dirs:
  "mkdirs qs m = Inr m' \<Longrightarrow> q \<in> set qs \<Longrightarrow> node_at m' q = Some Dir"
proof (induction qs arbitrary: m)
  case Nil
  then show ?case by simp
next
  case (Cons a qs)
  show ?case
  proof (cases "node_at m a")
    case None
    with Cons.prems have step: "mkdirs qs (m\<lparr>fs := (fs m)(a \<mapsto> Dir)\<rparr>) = Inr m'" by simp
    show ?thesis
    proof (cases "q \<in> set qs")
      case True
      with step show ?thesis by (rule Cons.IH)
    next
      case False
      with Cons.prems(2) have "q = a" by simp
      moreover from None have "a \<noteq> []" by (auto simp: node_at_def split: if_splits)
      ultimately have "node_at (m\<lparr>fs := (fs m)(a \<mapsto> Dir)\<rparr>) q = Some Dir" by (simp add: node_at_def)
      with step show ?thesis by (rule mkdirs_keeps)
    qed
  next
    case (Some x)
    show ?thesis
    proof (cases x)
      case Dir
      with Some Cons.prems have step: "mkdirs qs m = Inr m'" by simp
      show ?thesis
      proof (cases "q \<in> set qs")
        case True
        with step show ?thesis by (rule Cons.IH)
      next
        case False
        with Cons.prems(2) have "q = a" by simp
        with Some Dir have "node_at m q = Some Dir" by simp
        with step show ?thesis by (rule mkdirs_keeps)
      qed
    next
      case (File c)
      with Some Cons.prems show ?thesis by simp
    qed
  qed
qed

lemma mkdirs_ok:
  "\<forall>q\<in>set qs. \<forall>c. node_at m q \<noteq> Some (File c) \<Longrightarrow> \<exists>m'. mkdirs qs m = Inr m'"
proof (induction qs arbitrary: m)
  case Nil
  then show ?case by simp
next
  case (Cons a qs)
  show ?case
  proof (cases "node_at m a")
    case None
    have "\<forall>q\<in>set qs. \<forall>c. node_at (m\<lparr>fs := (fs m)(a \<mapsto> Dir)\<rparr>) q \<noteq> Some (File c)"
      using Cons.prems by (auto simp: node_at_def)
    from Cons.IH[OF this] None show ?thesis by simp
  next
    case (Some x)
    with Cons show ?thesis by (cases x) auto
  qed
qed

lemma mkdirs_noop:
  "\<forall>q\<in>set qs. node_at m q = Some Dir \<Longrightarrow> mkdirs qs m = Inr m"
  by (induction qs) auto

lemmas prog_defs = ret_def raise_def bnd_def thn_def discard_def ask_def print_def sys_exit_def

lemma not_prefix_parent: "p \<noteq> [] \<Longrightarrow> p \<notin> set (prefixes (parent p))"
proof
  assume "p \<noteq> []" and "p \<in> set (prefixes (parent p))"
  then have "prefix p (butlast p)" by (simp add: parent_def)
  then have "length p \<le> length (butlast p)" by (rule prefix_length_le)
  with \<open>p \<noteq> []\<close> show False by (cases p rule: rev_cases) auto
qed

lemma parent_in_prefixes: "parent p \<in> set (prefixes (parent p))"
  by simp

lemma splitlines_Nil_iff: "splitlines s = [] \<longleftrightarrow> s = []"
  by (simp add: splitlines_def splitlines_from_Nil_iff)

lemma encodable_append: "encodable (a @ b) \<longleftrightarrow> encodable a \<and> encodable b"
  by (simp add: encodable_def)

lemma encodable_LF: "encodable [10]"
  by (simp add: encodable_def scalar_value_def)

lemma ensure_line_in_file_result:
  assumes u: "usable m p"
  shows "\<exists>m1. mkdirs (prefixes (parent p)) m = Inr m1 \<and> ensure_line_in_file p line m =
     (if line \<in> set (splitlines (universal_newlines (file_text m p)))
      then (Inr (), m1, [Printed (str ''OK: Line already present in '' @ str (show_path p))])
      else if encodable line
      then (Inr (), m1\<lparr>fs := (fs m1)(p \<mapsto> File (file_text m p @ separator (file_text m p) @ line @ [10]))\<rparr>,
            [Printed (str ''OK: Added line to '' @ str (show_path p))])
      else (Inl UnicodeEncodeError,
            m1\<lparr>fs := (fs m1)(p \<mapsto> File (file_text m p @ separator (file_text m p)))\<rparr>, []))"
proof -
  from u have pne: "p \<noteq> []" and nodir: "node_at m p \<noteq> Some Dir"
    and anc: "\<forall>q\<in>set (prefixes (parent p)). \<forall>c. node_at m q \<noteq> Some (File c)"
    by (auto simp: usable_def)
  from mkdirs_ok[OF anc] obtain m1 where mk: "mkdirs (prefixes (parent p)) m = Inr m1" by blast
  from mkdirs_other[OF mk not_prefix_parent[OF pne]] have same: "node_at m1 p = node_at m p" .
  from mkdirs_dirs[OF mk parent_in_prefixes] have pd: "node_at m1 (parent p) = Some Dir" .
  from same pne have fsame: "fs m1 p = node_at m p" by (simp add: node_at_def)
  show ?thesis
  proof (cases "node_at m p")
    case None
    with same have n1: "node_at m1 p = None" by simp
    have ft: "file_text m p = []" using None by (simp add: file_text_def)
    have "ensure_line_in_file p line m =
        (if encodable line
         then (Inr (), m1\<lparr>fs := (fs m1)(p \<mapsto> File (line @ [10]))\<rparr>,
            [Printed (str ''OK: Added line to '' @ str (show_path p))])
         else (Inl UnicodeEncodeError, m1\<lparr>fs := (fs m1)(p \<mapsto> File [])\<rparr>, []))"
      using mk n1 pd pne
      by (simp add: ensure_line_in_file_def path_mkdir_def path_exists_def open_append_def
          write_append_def prog_defs node_at_def encodable_append encodable_LF)
    with mk ft show ?thesis by (simp add: separator_def splitlines_def)
  next
    case (Some x)
    with nodir obtain c where x: "x = File c" by (cases x) auto
    with Some same have n1: "node_at m1 p = Some (File c)" by simp
    have ft: "file_text m p = c" using Some x by (simp add: file_text_def)
    from fsame Some x have "(fs m1)(p \<mapsto> File c) = fs m1" by (simp add: fun_upd_idem)
    then have idem: "m1\<lparr>fs := (fs m1)(p \<mapsto> File c)\<rparr> = m1" by simp
    show ?thesis
    proof (cases "line \<in> set (splitlines (universal_newlines c))")
      case True
      have "ensure_line_in_file p line m =
         (Inr (), m1, [Printed (str ''OK: Line already present in '' @ str (show_path p))])"
        using mk n1 True
        by (simp add: ensure_line_in_file_def path_mkdir_def path_exists_def read_text_def prog_defs)
      with mk ft True show ?thesis by simp
    next
      case False
      show ?thesis
      proof (cases "encodable line")
        case True
        have "ensure_line_in_file p line m =
          (Inr (), m1\<lparr>fs := (fs m1)(p \<mapsto> File (c @ separator c @ line @ [10]))\<rparr>,
              [Printed (str ''OK: Added line to '' @ str (show_path p))])"
          using mk n1 False True pne
          by (simp add: ensure_line_in_file_def path_mkdir_def path_exists_def read_text_def
              open_append_def write_append_def prog_defs node_at_def separator_def
              splitlines_Nil_iff un_Nil_iff encodable_append encodable_LF)
        with mk ft False True show ?thesis by simp
      next
        case ne: False
        have "ensure_line_in_file p line m =
          (Inl UnicodeEncodeError,
           (if separator c = [] then m1 else m1\<lparr>fs := (fs m1)(p \<mapsto> File (c @ [10]))\<rparr>), [])"
          using mk n1 False ne pne
          by (simp add: ensure_line_in_file_def path_mkdir_def path_exists_def read_text_def
              open_append_def write_append_def prog_defs node_at_def separator_def
              splitlines_Nil_iff un_Nil_iff encodable_append encodable_LF)
        moreover have "(if separator c = [] then m1 else m1\<lparr>fs := (fs m1)(p \<mapsto> File (c @ [10]))\<rparr>)
            = m1\<lparr>fs := (fs m1)(p \<mapsto> File (c @ separator c))\<rparr>"
          using idem by (simp add: separator_def)
        ultimately show ?thesis using mk ft False ne by simp
      qed
    qed
  qed
qed

lemma ensure_line_in_file_present:
  assumes u: "usable m p" and d: "\<forall>q\<in>set (prefixes (parent p)). node_at m q = Some Dir"
    and l: "line \<in> set (splitlines (universal_newlines (file_text m p)))"
  shows "ensure_line_in_file p line m
         = (Inr (), m, [Printed (str ''OK: Line already present in '' @ str (show_path p))])"
proof -
  from mkdirs_noop[OF d] have "mkdirs (prefixes (parent p)) m = Inr m" .
  with ensure_line_in_file_result[OF u, of line] l show ?thesis by auto
qed

lemma file_text_update:
  "p \<noteq> [] \<Longrightarrow> file_text (m\<lparr>fs := (fs m)(p \<mapsto> File c)\<rparr>) p = c"
  by (simp add: file_text_def node_at_def)

lemma node_at_update_other:
  "q \<noteq> p \<Longrightarrow> node_at (m\<lparr>fs := (fs m)(p \<mapsto> n)\<rparr>) q = node_at m q"
  by (simp add: node_at_def)

lemma node_at_update_same:
  "p \<noteq> [] \<Longrightarrow> node_at (m\<lparr>fs := (fs m)(p \<mapsto> n)\<rparr>) p = Some n"
  by (simp add: node_at_def)

lemma frame_of_append:
  assumes pne: "p \<noteq> []" and mk: "mkdirs (prefixes (parent p)) m = Inr m1"
    and m': "m' = m1\<lparr>fs := (fs m1)(p \<mapsto> File (file_text m p @ x))\<rparr>"
  shows "(\<exists>c'. node_at m' p = Some (File c') \<and> prefix (file_text m p) c')
     \<and> (\<forall>q\<in>set (prefixes (parent p)). node_at m' q = Some Dir)
     \<and> (\<forall>q. q \<noteq> p \<and> q \<notin> set (prefixes (parent p)) \<longrightarrow> node_at m' q = node_at m q)
     \<and> installed m' = installed m"
proof -
  have dirs: "\<forall>q\<in>set (prefixes (parent p)). node_at m1 q = Some Dir"
    using mkdirs_dirs[OF mk] by blast
  have others: "\<forall>q. q \<notin> set (prefixes (parent p)) \<longrightarrow> node_at m1 q = node_at m q"
    using mkdirs_other[OF mk] by blast
  have inst: "installed m1 = installed m" by (rule mkdirs_installed[OF mk])
  have n: "\<And>q. q \<noteq> p \<Longrightarrow> node_at m' q = node_at m1 q"
    unfolding m' by (rule node_at_update_other)
  have np: "node_at m' p = Some (File (file_text m p @ x))"
    unfolding m' by (rule node_at_update_same[OF pne])
  from not_prefix_parent[OF pne] have "\<forall>q\<in>set (prefixes (parent p)). q \<noteq> p" by blast
  with n np dirs others inst show ?thesis by (auto simp: m')
qed

lemmas eval_defs = ensure_line_in_file_def path_mkdir_def path_exists_def read_text_def
  open_append_def write_append_def prog_defs node_at_def parent_def machine_after_def
  file_text_def file_lines_def splitlines_def endswith_LF str_def linebreak_def
  fresh_machine_def machine_with_lldbinit_def home_u_def lldbinit_def
  encodable_def scalar_value_def

section \<open>Claims about ensure_line_in_file\<close>

text \<open>
  C8. On every path it can work on, for every text of the file and every line,
  \<open>ensure_line_in_file\<close> only appends: the text the file had is a prefix of the text it
  has afterwards. A missing file is created (its text before counts as empty), every
  missing ancestor directory is created, and no other path and no installed command
  changes. The call returns normally when the line has a UTF-8 encoding; the only other
  outcome is \<open>UnicodeEncodeError\<close>, and all of the above holds then too.
\<close>

theorem ensure_line_in_file_only_appends:
  assumes "usable m p"
  shows "\<exists>r m' t. ensure_line_in_file p line m = (r, m', t)
     \<and> (if encodable line then r = Inr () else r = Inr () \<or> r = Inl UnicodeEncodeError)
     \<and> (\<exists>c'. node_at m' p = Some (File c') \<and> prefix (file_text m p) c')
     \<and> (\<forall>q\<in>set (prefixes (parent p)). node_at m' q = Some Dir)
     \<and> (\<forall>q. q \<noteq> p \<and> q \<notin> set (prefixes (parent p)) \<longrightarrow> node_at m' q = node_at m q)
     \<and> installed m' = installed m"
proof -
  from assms have pne: "p \<noteq> []" and nodir: "node_at m p \<noteq> Some Dir" by (auto simp: usable_def)
  let ?old = "file_text m p"
  from ensure_line_in_file_result[OF assms, of line] obtain m1 where
    mk: "mkdirs (prefixes (parent p)) m = Inr m1" and
    res: "ensure_line_in_file p line m =
     (if line \<in> set (splitlines (universal_newlines ?old))
      then (Inr (), m1, [Printed (str ''OK: Line already present in '' @ str (show_path p))])
      else if encodable line
      then (Inr (), m1\<lparr>fs := (fs m1)(p \<mapsto> File (?old @ separator ?old @ line @ [10]))\<rparr>,
            [Printed (str ''OK: Added line to '' @ str (show_path p))])
      else (Inl UnicodeEncodeError, m1\<lparr>fs := (fs m1)(p \<mapsto> File (?old @ separator ?old))\<rparr>, []))"
    by blast
  show ?thesis
  proof (cases "line \<in> set (splitlines (universal_newlines ?old))")
    case True
    then have "?old \<noteq> []" by (auto simp: splitlines_def)
    then obtain c where c: "node_at m p = Some (File c)" "?old = c"
      by (auto simp: file_text_def split: option.splits node.splits)
    have same: "node_at m1 p = node_at m p" by (rule mkdirs_other[OF mk not_prefix_parent[OF pne]])
    have dirs: "\<forall>q\<in>set (prefixes (parent p)). node_at m1 q = Some Dir"
      using mkdirs_dirs[OF mk] by blast
    have others: "\<forall>q. q \<notin> set (prefixes (parent p)) \<longrightarrow> node_at m1 q = node_at m q"
      using mkdirs_other[OF mk] by blast
    have inst: "installed m1 = installed m" by (rule mkdirs_installed[OF mk])
    from True res have "ensure_line_in_file p line m
       = (Inr (), m1, [Printed (str ''OK: Line already present in '' @ str (show_path p))])" by simp
    with c same dirs others inst show ?thesis by auto
  next
    case False
    show ?thesis
    proof (cases "encodable line")
      case True
      from frame_of_append[OF pne mk refl, of "separator ?old @ line @ [10]"] res False True
      show ?thesis by simp
    next
      case ne: False
      from frame_of_append[OF pne mk refl, of "separator ?old"] res False ne
      show ?thesis by simp
    qed
  qed
qed

theorem ensure_line_in_file_only_appends_witness:
  "usable fresh_machine (home_u @ [''.lldbinit'']) \<and>
   (\<exists>m' t. ensure_line_in_file (home_u @ [''.lldbinit'']) (str ''settings set x'') fresh_machine = (Inr (), m', t)
     \<and> (\<exists>c'. node_at m' (home_u @ [''.lldbinit'']) = Some (File c')
           \<and> prefix (file_text fresh_machine (home_u @ [''.lldbinit''])) c'))"
proof -
  have h: "usable fresh_machine (home_u @ [''.lldbinit''])"
    by (simp add: usable_def fresh_machine_def home_u_def node_at_def parent_def)
  have e: "encodable (str ''settings set x'')"
    by (simp add: encodable_def scalar_value_def str_def)
  from ensure_line_in_file_only_appends[OF h, of "str ''settings set x''"] h e
  show ?thesis by (simp only: if_True) blast
qed

text \<open>
  C1, as amended. For a line proper (not empty, no line boundary inside) that has a
  UTF-8 encoding, and a path \<open>ensure_line_in_file\<close> can work on, the first run returns
  normally and a second run with the same line leaves the whole machine as the first run
  left it. The text the file had is a prefix of the new text and its lines are the first
  lines of the new text. Afterwards the line occurs among the lines of the file exactly
  once when it did not occur before, and as often as before otherwise. An empty or
  missing file ends up holding exactly the line and a newline.
\<close>

theorem ensure_line_in_file_twice:
  assumes u: "usable m p" and ol: "one_line line" and en: "encodable line"
  shows "\<exists>m1 t1 t2. ensure_line_in_file p line m = (Inr (), m1, t1)
      \<and> ensure_line_in_file p line m1 = (Inr (), m1, t2)
      \<and> prefix (file_text m p) (file_text m1 p)
      \<and> prefix (file_lines m p) (file_lines m1 p)
      \<and> count_list (file_lines m1 p) line = max 1 (count_list (file_lines m p) line)
      \<and> (file_text m p = [] \<longrightarrow> file_text m1 p = line @ [10])"
proof -
  from ol have ne: "line \<noteq> []" and nb: "\<forall>c\<in>set line. \<not> linebreak c"
    by (auto simp: one_line_def)
  from u have pne: "p \<noteq> []" and nodir: "node_at m p \<noteq> Some Dir" by (auto simp: usable_def)
  let ?old = "file_text m p"
  let ?new = "?old @ separator ?old @ line @ [10]"
  from ensure_line_in_file_result[OF u, of line] en obtain m1 where
    mk: "mkdirs (prefixes (parent p)) m = Inr m1" and
    res: "ensure_line_in_file p line m =
     (if line \<in> set (splitlines (universal_newlines ?old))
      then (Inr (), m1, [Printed (str ''OK: Line already present in '' @ str (show_path p))])
      else (Inr (), m1\<lparr>fs := (fs m1)(p \<mapsto> File ?new)\<rparr>,
            [Printed (str ''OK: Added line to '' @ str (show_path p))]))" by auto
  have same: "node_at m1 p = node_at m p" by (rule mkdirs_other[OF mk not_prefix_parent[OF pne]])
  have dirs: "\<forall>q\<in>set (prefixes (parent p)). node_at m1 q = Some Dir"
    using mkdirs_dirs[OF mk] by blast
  from same have ft1: "file_text m1 p = ?old" by (simp add: file_text_def)
  from same nodir dirs pne have u1: "usable m1 p" by (auto simp: usable_def)
  show ?thesis
  proof (cases "line \<in> set (splitlines (universal_newlines ?old))")
    case True
    with res have r1: "ensure_line_in_file p line m
        = (Inr (), m1, [Printed (str ''OK: Line already present in '' @ str (show_path p))])" by simp
    from True ft1 have "line \<in> set (splitlines (universal_newlines (file_text m1 p)))" by simp
    from ensure_line_in_file_present[OF u1 dirs this]
    have r2: "ensure_line_in_file p line m1
        = (Inr (), m1, [Printed (str ''OK: Line already present in '' @ str (show_path p))])" .
    from True have "count_list (file_lines m p) line \<noteq> 0"
      by (simp add: file_lines_def count_list_0_iff)
    then have c: "max 1 (count_list (file_lines m p) line) = count_list (file_lines m p) line" by simp
    from True have "?old \<noteq> []" by (auto simp: splitlines_def)
    with r1 r2 ft1 c show ?thesis by (auto simp: file_lines_def)
  next
    case False
    let ?m2 = "m1\<lparr>fs := (fs m1)(p \<mapsto> File ?new)\<rparr>"
    from False res have r1: "ensure_line_in_file p line m
        = (Inr (), ?m2, [Printed (str ''OK: Added line to '' @ str (show_path p))])" by simp
    have ft2: "file_text ?m2 p = ?new" by (rule file_text_update[OF pne])
    have dirs2: "\<forall>q\<in>set (prefixes (parent p)). node_at ?m2 q = Some Dir"
      using dirs not_prefix_parent[OF pne] by (auto simp: node_at_update_other)
    have u2: "usable ?m2 p" using pne dirs2 by (auto simp: usable_def node_at_update_same)
    have lines2: "splitlines (universal_newlines ?new)
        = splitlines (universal_newlines ?old)
           @ (if ?old \<noteq> [] \<and> last (universal_newlines ?old) \<noteq> 10 \<and> linebreak (last (universal_newlines ?old))
              then [[]] else [])
           @ [line]" by (rule splitlines_appended[OF ne nb])
    then have "line \<in> set (splitlines (universal_newlines (file_text ?m2 p)))"
      using ft2 by simp
    from ensure_line_in_file_present[OF u2 dirs2 this]
    have r2: "ensure_line_in_file p line ?m2
        = (Inr (), ?m2, [Printed (str ''OK: Line already present in '' @ str (show_path p))])" .
    from False have c0: "count_list (splitlines (universal_newlines ?old)) line = 0"
      by (simp add: count_list_0_iff)
    have c: "count_list (file_lines ?m2 p) line = max 1 (count_list (file_lines m p) line)"
      using lines2 ft2 c0 ne by (simp add: file_lines_def)
    have pl: "prefix (file_lines m p) (file_lines ?m2 p)"
      using lines2 ft2 by (simp add: file_lines_def)
    have e: "?old = [] \<longrightarrow> file_text ?m2 p = line @ [10]"
    proof
      assume "?old = []"
      then have "?new = line @ [10]" by (simp add: separator_def)
      with ft2 show "file_text ?m2 p = line @ [10]" by (rule ssubst)
    qed
    have pt: "prefix ?old (file_text ?m2 p)" using ft2 by simp
    from r1 r2 pt pl c e show ?thesis by blast
  qed
qed

theorem ensure_line_in_file_twice_witness:
  "usable (machine_with_lldbinit []) lldbinit
   \<and> one_line (str ''command script import /home/u/.lldb/aik_bt.py'')
   \<and> encodable (str ''command script import /home/u/.lldb/aik_bt.py'')
   \<and> (\<exists>m1 t1 t2.
        ensure_line_in_file lldbinit (str ''command script import /home/u/.lldb/aik_bt.py'')
          (machine_with_lldbinit []) = (Inr (), m1, t1)
      \<and> ensure_line_in_file lldbinit (str ''command script import /home/u/.lldb/aik_bt.py'') m1
          = (Inr (), m1, t2)
      \<and> file_text m1 lldbinit = str ''command script import /home/u/.lldb/aik_bt.py'' @ [10])"
proof -
  have u: "usable (machine_with_lldbinit []) lldbinit"
    by (simp add: usable_def machine_with_lldbinit_def lldbinit_def home_u_def node_at_def parent_def)
  have ol: "one_line (str ''command script import /home/u/.lldb/aik_bt.py'')"
    by (simp add: one_line_def str_def linebreak_def)
  have en: "encodable (str ''command script import /home/u/.lldb/aik_bt.py'')"
    by (simp add: encodable_def scalar_value_def str_def)
  have e: "file_text (machine_with_lldbinit []) lldbinit = []"
    by (simp add: file_text_def machine_with_lldbinit_def lldbinit_def home_u_def node_at_def)
  from ensure_line_in_file_twice[OF u ol en] e u ol en show ?thesis by blast
qed

text \<open>
  C1 as stated fails in three ways. A file that already holds the line twice keeps both
  occurrences. A text with a line boundary inside is never found among the lines of the
  file, so every run appends it again. A line with a lone surrogate cannot be written:
  the call raises and leaves a new file empty.
\<close>

theorem ensure_line_in_file_twice_counterexample:
  "count_list (file_lines (machine_after (ensure_line_in_file lldbinit (str ''x''))
       (machine_after (ensure_line_in_file lldbinit (str ''x''))
          (machine_with_lldbinit (str ''x'' @ [10] @ str ''x'' @ [10])))) lldbinit) (str ''x'') = 2
   \<and> file_text (machine_after (ensure_line_in_file lldbinit (str ''a'' @ [10] @ str ''b'')) fresh_machine) lldbinit
        = str ''a'' @ [10] @ str ''b'' @ [10]
   \<and> file_text (machine_after (ensure_line_in_file lldbinit (str ''a'' @ [10] @ str ''b''))
        (machine_after (ensure_line_in_file lldbinit (str ''a'' @ [10] @ str ''b'')) fresh_machine)) lldbinit
        = str ''a'' @ [10] @ str ''b'' @ [10] @ str ''a'' @ [10] @ str ''b'' @ [10]
   \<and> fst (ensure_line_in_file lldbinit [55296] fresh_machine) = Inl UnicodeEncodeError
   \<and> node_at (machine_after (ensure_line_in_file lldbinit [55296]) fresh_machine) lldbinit
        = Some (File [])"
  by (simp add: eval_defs)

text \<open>
  C2, as amended. On a path it can work on, \<open>ensure_line_in_file\<close> does one of three
  things. When the line is already among the lines of the file, it returns and the file
  is left as it is, with or without a final newline. When the line is not there and has
  a UTF-8 encoding, it returns and the file then holds the old text, a separating
  newline when the old text is not empty and does not read as ending in a newline, the
  line, and a final newline; so the file ends in a newline, and every line the file had,
  the last one too, is still a line of it. When the line is not there and has no
  encoding, the call raises \<open>UnicodeEncodeError\<close>; the file then holds the old text and
  the separating newline, and not the line.
\<close>

theorem ensure_line_in_file_newline_when_appending:
  assumes u: "usable m p"
  shows "\<exists>r m' t. ensure_line_in_file p line m = (r, m', t)
      \<and> (line \<in> set (file_lines m p) \<longrightarrow> r = Inr () \<and> node_at m' p = node_at m p)
      \<and> (line \<notin> set (file_lines m p) \<and> encodable line \<longrightarrow>
           r = Inr ()
         \<and> node_at m' p = Some (File (file_text m p
             @ (if file_text m p \<noteq> [] \<and> \<not> endswith (universal_newlines (file_text m p)) [10]
                then [10] else [])
             @ line @ [10]))
         \<and> endswith (file_text m' p) [10]
         \<and> prefix (file_lines m p) (file_lines m' p))
      \<and> (line \<notin> set (file_lines m p) \<and> \<not> encodable line \<longrightarrow>
           r = Inl UnicodeEncodeError
         \<and> node_at m' p = Some (File (file_text m p
             @ (if file_text m p \<noteq> [] \<and> \<not> endswith (universal_newlines (file_text m p)) [10]
                then [10] else []))))"
proof -
  from u have pne: "p \<noteq> []" by (simp add: usable_def)
  let ?old = "file_text m p"
  let ?new = "?old @ separator ?old @ line @ [10]"
  from ensure_line_in_file_result[OF u, of line] obtain m1 where
    mk: "mkdirs (prefixes (parent p)) m = Inr m1" and
    res: "ensure_line_in_file p line m =
     (if line \<in> set (splitlines (universal_newlines ?old))
      then (Inr (), m1, [Printed (str ''OK: Line already present in '' @ str (show_path p))])
      else if encodable line
      then (Inr (), m1\<lparr>fs := (fs m1)(p \<mapsto> File ?new)\<rparr>,
            [Printed (str ''OK: Added line to '' @ str (show_path p))])
      else (Inl UnicodeEncodeError, m1\<lparr>fs := (fs m1)(p \<mapsto> File (?old @ separator ?old))\<rparr>, []))"
    by blast
  have s: "separator ?old
     = (if ?old \<noteq> [] \<and> \<not> endswith (universal_newlines ?old) [10] then [10] else [])"
    by (simp add: separator_def)
  show ?thesis
  proof (cases "line \<in> set (file_lines m p)")
    case True
    have same: "node_at m1 p = node_at m p" by (rule mkdirs_other[OF mk not_prefix_parent[OF pne]])
    from True res have "ensure_line_in_file p line m
       = (Inr (), m1, [Printed (str ''OK: Line already present in '' @ str (show_path p))])"
      by (simp add: file_lines_def)
    with True same show ?thesis by simp
  next
    case False
    then have nl: "line \<notin> set (splitlines (universal_newlines ?old))" by (simp add: file_lines_def)
    show ?thesis
    proof (cases "encodable line")
      case True
      let ?m' = "m1\<lparr>fs := (fs m1)(p \<mapsto> File ?new)\<rparr>"
      from res nl True have r: "ensure_line_in_file p line m
          = (Inr (), ?m', [Printed (str ''OK: Added line to '' @ str (show_path p))])" by simp
      have ft: "file_text ?m' p = ?new" by (rule file_text_update[OF pne])
      have nd: "node_at ?m' p = Some (File ?new)" by (rule node_at_update_same[OF pne])
      have e: "endswith ?new [10]" by (simp add: endswith_def suffix_def)
      have k: "prefix (splitlines (universal_newlines ?old)) (splitlines (universal_newlines ?new))"
        by (rule splitlines_kept)
      from r False True ft nd e k s show ?thesis by (simp add: file_lines_def)
    next
      case ne: False
      let ?m' = "m1\<lparr>fs := (fs m1)(p \<mapsto> File (?old @ separator ?old))\<rparr>"
      from res nl ne have r: "ensure_line_in_file p line m = (Inl UnicodeEncodeError, ?m', [])"
        by simp
      have nd: "node_at ?m' p = Some (File (?old @ separator ?old))"
        by (rule node_at_update_same[OF pne])
      from r False ne nd s show ?thesis by simp
    qed
  qed
qed

theorem ensure_line_in_file_newline_when_appending_witness:
  "usable (machine_with_lldbinit (str ''a'')) lldbinit
   \<and> str ''b'' \<notin> set (file_lines (machine_with_lldbinit (str ''a'')) lldbinit)
   \<and> encodable (str ''b'')
   \<and> (\<exists>m' t. ensure_line_in_file lldbinit (str ''b'') (machine_with_lldbinit (str ''a'')) = (Inr (), m', t)
        \<and> node_at m' lldbinit = Some (File (str ''a'' @ [10] @ str ''b'' @ [10])))
   \<and> str ''a'' \<in> set (file_lines (machine_with_lldbinit (str ''a'')) lldbinit)
   \<and> (\<exists>m' t. ensure_line_in_file lldbinit (str ''a'') (machine_with_lldbinit (str ''a'')) = (Inr (), m', t)
        \<and> node_at m' lldbinit = Some (File (str ''a'')))
   \<and> [55296] \<notin> set (file_lines (machine_with_lldbinit (str ''a'')) lldbinit)
   \<and> \<not> encodable [55296]
   \<and> (\<exists>m' t. ensure_line_in_file lldbinit [55296] (machine_with_lldbinit (str ''a''))
          = (Inl UnicodeEncodeError, m', t)
        \<and> node_at m' lldbinit = Some (File (str ''a'' @ [10])))"
proof -
  have u: "usable (machine_with_lldbinit (str ''a'')) lldbinit"
    by (simp add: usable_def machine_with_lldbinit_def lldbinit_def home_u_def node_at_def parent_def)
  have t: "file_text (machine_with_lldbinit (str ''a'')) lldbinit = str ''a''"
    by (simp add: file_text_def machine_with_lldbinit_def lldbinit_def home_u_def node_at_def)
  have n: "node_at (machine_with_lldbinit (str ''a'')) lldbinit = Some (File (str ''a''))"
    by (simp add: machine_with_lldbinit_def lldbinit_def home_u_def node_at_def)
  have fl: "file_lines (machine_with_lldbinit (str ''a'')) lldbinit = [str ''a'']"
    by (simp add: file_lines_def t) (simp add: str_def splitlines_def linebreak_def)
  have lb: "str ''b'' \<notin> set (file_lines (machine_with_lldbinit (str ''a'')) lldbinit)"
    by (simp add: fl) (simp add: str_def)
  have la: "str ''a'' \<in> set (file_lines (machine_with_lldbinit (str ''a'')) lldbinit)"
    by (simp add: fl)
  have ls: "[55296] \<notin> set (file_lines (machine_with_lldbinit (str ''a'')) lldbinit)"
    by (simp add: fl) (simp add: str_def)
  have eb: "encodable (str ''b'')" by (simp add: encodable_def scalar_value_def str_def)
  have es: "\<not> encodable [55296]" by (simp add: encodable_def scalar_value_def)
  have s: "\<not> endswith (universal_newlines (str ''a'')) [10]" "str ''a'' \<noteq> []"
    by (simp_all add: str_def endswith_LF)
  from ensure_line_in_file_newline_when_appending[OF u, of "str ''b''"] lb eb t s
  have b: "\<exists>m' t. ensure_line_in_file lldbinit (str ''b'') (machine_with_lldbinit (str ''a'')) = (Inr (), m', t)
        \<and> node_at m' lldbinit = Some (File (str ''a'' @ [10] @ str ''b'' @ [10]))"
    by auto
  from ensure_line_in_file_newline_when_appending[OF u, of "str ''a''"] la n
  have a: "\<exists>m' t. ensure_line_in_file lldbinit (str ''a'') (machine_with_lldbinit (str ''a'')) = (Inr (), m', t)
        \<and> node_at m' lldbinit = Some (File (str ''a''))"
    by auto
  from ensure_line_in_file_newline_when_appending[OF u, of "[55296]"] ls es t s
  have c: "\<exists>m' t. ensure_line_in_file lldbinit [55296] (machine_with_lldbinit (str ''a''))
          = (Inl UnicodeEncodeError, m', t)
        \<and> node_at m' lldbinit = Some (File (str ''a'' @ [10]))"
    by auto
  from u lb eb b la a ls es c show ?thesis by blast
qed

text \<open>
  C2 as stated fails when the line is already there: the file \<open>x\<close> without a final
  newline is left as it is by a call with the line \<open>x\<close>. It also fails for a line with a
  lone surrogate on a missing file: the call raises and the file it created is empty.
\<close>

theorem ensure_line_in_file_newline_counterexample:
  "fst (ensure_line_in_file lldbinit (str ''x'') (machine_with_lldbinit (str ''x''))) = Inr ()
   \<and> file_text (machine_after (ensure_line_in_file lldbinit (str ''x'')) (machine_with_lldbinit (str ''x''))) lldbinit = str ''x''
   \<and> \<not> endswith (str ''x'') [10]
   \<and> fst (ensure_line_in_file lldbinit [55296] fresh_machine) = Inl UnicodeEncodeError
   \<and> node_at (machine_after (ensure_line_in_file lldbinit [55296]) fresh_machine) lldbinit
        = Some (File [])
   \<and> \<not> endswith [] [10]"
  by (simp add: eval_defs)

section \<open>Sequencing and the events of a run\<close>


lemma prog_eq: "p m = (result_of p m, machine_after p m, events_of p m)"
  by (simp add: result_of_def machine_after_def events_of_def)

lemma bnd_Inl: "p m = (Inl e, m1, t1) \<Longrightarrow> bnd p f m = (Inl e, m1, t1)"
  by (simp add: bnd_def)

lemma bnd_Inr: "p m = (Inr x, m1, t1) \<Longrightarrow>
  bnd p f m = (result_of (f x) m1, machine_after (f x) m1, t1 @ events_of (f x) m1)"
  by (simp add: bnd_def result_of_def machine_after_def events_of_def split: prod.splits)

lemma thn_Inl: "p m = (Inl e, m1, t1) \<Longrightarrow> thn p q m = (Inl e, m1, t1)"
  by (simp add: thn_def bnd_Inl)

lemma thn_Inr: "p m = (Inr x, m1, t1) \<Longrightarrow>
  thn p q m = (result_of q m1, machine_after q m1, t1 @ events_of q m1)"
  by (simp add: thn_def bnd_Inr)




lemma result_discard: "result_of (discard p) m = (case result_of p m of Inl e \<Rightarrow> Inl e | Inr x \<Rightarrow> Inr ())"
  by (simp add: discard_def bnd_def ret_def result_of_def machine_after_def events_of_def split: prod.splits sum.splits)

lemma machine_discard: "machine_after (discard p) m = machine_after p m"
  by (simp add: discard_def bnd_def ret_def result_of_def machine_after_def events_of_def split: prod.splits sum.splits)












lemma apt_install_no_sudo:
  assumes "geteuid E = Some u" "u \<noteq> 0" "\<not> installed m ''sudo''"
  shows "apt_install E pk m = (Inl (SystemExit 1), m,
     [Printed (str ''ERROR: sudo not found. Install sudo as root, or run this script as root.'')])"
  using assms
  by (simp add: apt_install_def aikbt_is_root_def have_cmd_def prog_defs)

lemma ensure_admin_linux_cases:
  "ensure_admin_linux E m =
     (if tools_is_root E then (Inr [], m, [])
      else if installed m ''sudo'' then (Inr [''sudo''], m, [])
      else (Inl (SystemExit 1), m,
        [Printed ([10060] @ str '' sudo is not installed and you are not root.''),
         Printed (str ''   First run must be as root (or via provider console):''),
         Printed (str ''     python3 setup_tools.py'')]))"
  by (simp add: ensure_admin_linux_def tools_have_def prog_defs)


section \<open>Failing fast\<close>

lemma failed_check_Run:
  "failed_check (Run c chk out) \<longleftrightarrow> chk \<and> (\<exists>rc. out = Exited rc \<and> rc \<noteq> 0)"
  by (cases chk; cases out) auto

lemma clean_Nil: "clean []" by (simp add: clean_def)

lemma clean_append: "clean (a @ b) \<longleftrightarrow> clean a \<and> clean b"
  by (auto simp: clean_def)

lemma good_clean_prefix:
  "clean t1 \<Longrightarrow> good r t2 \<Longrightarrow> good r (t1 @ t2)"
proof (cases r)
  case (Inl e)
  assume "clean t1" "good r t2"
  with Inl show ?thesis
    by (cases e) (auto simp: clean_append butlast_append)
next
  case (Inr x)
  assume "clean t1" "good r t2"
  with Inr show ?thesis by (simp add: clean_append)
qed

lemma good_Inl_any: "good (Inl e :: exn + 'a) t \<Longrightarrow> good (Inl e :: exn + 'b) t"
  by (cases e) auto

lemma good_Inr_clean: "good (Inr x) t = clean t" by simp

lemma fails_fast_bnd:
  assumes p: "fails_fast p" and f: "\<And>x. fails_fast (f x)"
  shows "fails_fast (bnd p f)"
  unfolding fails_fast_def
proof
  fix m
  obtain r1 m1 t1 where pm: "p m = (r1, m1, t1)" by (cases "p m")
  have g1: "good r1 t1"
    using pm p[unfolded fails_fast_def, rule_format, of m] by (simp add: result_of_def events_of_def)
  show "good (result_of (bnd p f) m) (events_of (bnd p f) m)"
  proof (cases r1)
    case (Inl e)
    with pm g1 good_Inl_any[of e t1] show ?thesis by (simp add: bnd_def result_of_def events_of_def)
  next
    case (Inr x)
    obtain r2 m2 t2 where fm: "f x m1 = (r2, m2, t2)" by (cases "f x m1")
    have g2: "good r2 t2"
      using fm f[of x, unfolded fails_fast_def, rule_format, of m1] by (simp add: result_of_def events_of_def)
    from g1 Inr have "clean t1" by simp
    from good_clean_prefix[OF this g2] pm Inr fm show ?thesis
      by (simp add: bnd_def result_of_def events_of_def)
  qed
qed

lemma fails_fast_thn: "fails_fast p \<Longrightarrow> fails_fast q \<Longrightarrow> fails_fast (thn p q)"
  by (simp add: thn_def fails_fast_bnd)

lemma harmless_fails_fast: "harmless p \<Longrightarrow> fails_fast p"
  unfolding harmless_def fails_fast_def
proof
  fix m
  assume h: "\<forall>m. clean (events_of p m) \<and> (\<forall>c rc. result_of p m \<noteq> Inl (CalledProcessError c rc))
      \<and> (\<forall>n. result_of p m \<noteq> Inl (SystemExit n))"
  show "good (result_of p m) (events_of p m)"
  proof (cases "result_of p m")
    case (Inl e)
    with h[rule_format, of m] show ?thesis by (cases e) auto
  next
    case (Inr x)
    with h[rule_format, of m] show ?thesis by simp
  qed
qed

lemma fails_fast_ret: "fails_fast (ret x)"
  by (simp add: fails_fast_def ret_def result_of_def events_of_def clean_def)

lemma fails_fast_print: "fails_fast (print s)"
  by (simp add: fails_fast_def print_def result_of_def events_of_def clean_def)

lemma fails_fast_ask: "fails_fast (ask f)"
  by (simp add: fails_fast_def ask_def result_of_def events_of_def clean_def)

lemma fails_fast_sys_exit: "fails_fast (sys_exit 1)"
  by (simp add: fails_fast_def sys_exit_def raise_def result_of_def events_of_def clean_def)

lemma fails_fast_discard: "fails_fast p \<Longrightarrow> fails_fast (discard p)"
  by (simp add: discard_def fails_fast_bnd fails_fast_ret)

lemma fails_fast_steps: "list_all fails_fast ps \<Longrightarrow> fails_fast (steps ps)"
  by (induction ps) (auto simp: fails_fast_ret fails_fast_thn)

lemma fails_fast_if:
  "(c \<Longrightarrow> fails_fast p) \<Longrightarrow> (\<not> c \<Longrightarrow> fails_fast q) \<Longrightarrow> fails_fast (if c then p else q)"
  by simp

lemma fails_fast_subprocess_run: "fails_fast (subprocess_run E cmd chk)"
  by (cases cmd) (auto simp: fails_fast_def subprocess_run_def result_of_def events_of_def clean_def Let_def failed_check_Run)

lemma harmless_no_events:
  assumes "\<And>m. events_of p m = []"
    and "\<And>m. result_of p m \<in> {Inl FileNotFoundError, Inl FileExistsError, Inl NotADirectoryError,
            Inl IsADirectoryError, Inl IndexError, Inl AttributeError, Inl UnicodeDecodeError,
            Inl UnicodeEncodeError} \<union> range Inr"
  shows "harmless p"
  unfolding harmless_def
proof (intro allI conjI)
  fix m show "clean (events_of p m)" using assms(1) by (simp add: clean_def)
next
  fix m c rc show "result_of p m \<noteq> Inl (CalledProcessError c rc)" using assms(2)[of m] by auto
next
  fix m n show "result_of p m \<noteq> Inl (SystemExit n)" using assms(2)[of m] by auto
qed

lemma harmless_path_mkdir: "harmless (path_mkdir p)"
proof (rule harmless_no_events)
  fix m show "events_of (path_mkdir p) m = []"
    by (simp add: path_mkdir_def events_of_def split: sum.splits)
next
  fix m
  have "\<And>qs e. mkdirs qs m = Inl e \<Longrightarrow> e = FileExistsError \<or> e = NotADirectoryError"
  proof -
    fix qs e show "mkdirs qs m = Inl e \<Longrightarrow> e = FileExistsError \<or> e = NotADirectoryError"
      by (induction qs arbitrary: m) (auto split: option.splits node.splits if_splits)
  qed
  then show "result_of (path_mkdir p) m \<in> {Inl FileNotFoundError, Inl FileExistsError, Inl NotADirectoryError,
            Inl IsADirectoryError, Inl IndexError, Inl AttributeError, Inl UnicodeDecodeError,
            Inl UnicodeEncodeError} \<union> range Inr"
    by (auto simp: path_mkdir_def result_of_def split: sum.splits)
qed

lemma harmless_read_text: "harmless (read_text p)"
  by (rule harmless_no_events)
     (auto simp: read_text_def events_of_def result_of_def split: option.splits node.splits)

lemma harmless_open_append: "harmless (open_append p)"
  by (rule harmless_no_events)
     (auto simp: open_append_def events_of_def result_of_def split: option.splits node.splits)

lemma harmless_write_append: "harmless (write_append p s)"
  by (rule harmless_no_events)
     (auto simp: write_append_def events_of_def result_of_def split: option.splits node.splits)

lemma harmless_stat_size: "harmless (stat_size E p)"
  by (rule harmless_no_events)
     (auto simp: stat_size_def events_of_def result_of_def split: option.splits node.splits)

lemmas fails_fast_intros = fails_fast_bnd fails_fast_thn fails_fast_ret fails_fast_print
  fails_fast_ask fails_fast_sys_exit fails_fast_discard fails_fast_subprocess_run
  harmless_path_mkdir[THEN harmless_fails_fast] harmless_read_text[THEN harmless_fails_fast]
  harmless_open_append[THEN harmless_fails_fast] harmless_write_append[THEN harmless_fails_fast]
  harmless_stat_size[THEN harmless_fails_fast]

lemma fails_fast_ensure_line_in_file: "fails_fast (ensure_line_in_file p line)"
  unfolding ensure_line_in_file_def path_exists_def
  by (intro fails_fast_intros fails_fast_if fails_fast_steps allI) (simp_all add: fails_fast_intros)

lemma fails_fast_aikbt_run: "fails_fast (aikbt_run E cmd chk)"
  unfolding aikbt_run_def by (intro fails_fast_intros)

lemma fails_fast_download_to: "fails_fast (download_to E url dest)"
  unfolding download_to_def path_exists_def have_cmd_def
  by (intro fails_fast_steps) (simp add: fails_fast_intros fails_fast_aikbt_run)

lemma fails_fast_aikbt_is_root: "fails_fast (aikbt_is_root E)"
  by (cases "geteuid E")
     (simp_all add: aikbt_is_root_def fails_fast_ret fails_fast_def raise_def ret_def result_of_def events_of_def clean_def)

lemma fails_fast_apt_install: "fails_fast (apt_install E pk)"
  unfolding apt_install_def have_cmd_def
  by (intro fails_fast_bnd fails_fast_aikbt_is_root fails_fast_if fails_fast_steps)
     (simp_all add: fails_fast_intros fails_fast_aikbt_run)

lemma fails_fast_setup_update_alternatives: "fails_fast (setup_update_alternatives E)"
  unfolding setup_update_alternatives_def have_cmd_def path_exists_def
  by (intro fails_fast_bnd fails_fast_ask fails_fast_if fails_fast_print fails_fast_steps)
     (simp add: fails_fast_intros fails_fast_aikbt_run fails_fast_aikbt_is_root)

lemma fails_fast_aikbt_main: "fails_fast (aikbt_main E)"
  unfolding aikbt_main_def Let_def
  by (intro fails_fast_steps)
     (simp add: fails_fast_print fails_fast_apt_install fails_fast_download_to
        fails_fast_ensure_line_in_file fails_fast_setup_update_alternatives)

lemma tame_bnd:
  assumes p: "tame p" and f: "\<And>x. tame (f x)"
  shows "tame (bnd p f)"
  unfolding tame_def
proof
  fix m
  obtain r1 m1 t1 where pm: "p m = (r1, m1, t1)" by (cases "p m")
  have g1: "clean t1 \<and> (\<forall>n. r1 \<noteq> Inl (SystemExit n))"
    using pm p[unfolded tame_def, rule_format, of m] by (simp add: result_of_def events_of_def)
  show "clean (events_of (bnd p f) m) \<and> (\<forall>n. result_of (bnd p f) m \<noteq> Inl (SystemExit n))"
  proof (cases r1)
    case (Inl e)
    with pm g1 show ?thesis by (simp add: bnd_def result_of_def events_of_def)
  next
    case (Inr x)
    obtain r2 m2 t2 where fm: "f x m1 = (r2, m2, t2)" by (cases "f x m1")
    have g2: "clean t2 \<and> (\<forall>n. r2 \<noteq> Inl (SystemExit n))"
      using fm f[of x, unfolded tame_def, rule_format, of m1] by (simp add: result_of_def events_of_def)
    with g1 pm Inr fm show ?thesis
      by (simp add: bnd_def result_of_def events_of_def clean_append)
  qed
qed

lemma tame_ret: "tame (ret x)"
  by (simp add: tame_def ret_def result_of_def events_of_def clean_def)

lemma tame_print: "tame (print s)"
  by (simp add: tame_def print_def result_of_def events_of_def clean_def)

lemma tame_raise_IndexError: "tame (raise IndexError)"
  by (simp add: tame_def raise_def result_of_def events_of_def clean_def)

lemma tame_check_output: "tame (check_output E cmd)"
  by (cases cmd)
     (auto simp: tame_def check_output_def result_of_def events_of_def clean_def Let_def
        split: option.splits)

lemma fails_fast_except_Exception:
  assumes p: "tame p" and h: "fails_fast h"
  shows "fails_fast (except_Exception p h)"
  unfolding fails_fast_def
proof
  fix m
  obtain r1 m1 t1 where pm: "p m = (r1, m1, t1)" by (cases "p m")
  have g1: "clean t1 \<and> (\<forall>n. r1 \<noteq> Inl (SystemExit n))"
    using pm p[unfolded tame_def, rule_format, of m] by (simp add: result_of_def events_of_def)
  show "good (result_of (except_Exception p h) m) (events_of (except_Exception p h) m)"
  proof (cases r1)
    case (Inr x)
    with pm g1 show ?thesis by (simp add: except_Exception_def result_of_def events_of_def)
  next
    case (Inl e)
    with g1 have ex: "is_Exception e" by (cases e) auto
    obtain r2 m2 t2 where hm: "h m1 = (r2, m2, t2)" by (cases "h m1")
    have g2: "good r2 t2"
      using hm h[unfolded fails_fast_def, rule_format, of m1] by (simp add: result_of_def events_of_def)
    from g1 have "clean t1" by simp
    from good_clean_prefix[OF this g2] pm Inl ex hm show ?thesis
      by (simp add: except_Exception_def result_of_def events_of_def)
  qed
qed

lemma fails_fast_raise_IndexError: "fails_fast (raise IndexError :: 'a prog)"
  by (simp add: fails_fast_def raise_def result_of_def events_of_def clean_def)

lemma fails_fast_first_line: "fails_fast (first_line E cmd)"
proof (cases cmd)
  case Nil
  then show ?thesis by (simp add: first_line_def fails_fast_raise_IndexError)
next
  case (Cons c args)
  have "tame (bnd (check_output E cmd) (\<lambda>raw.
                 let out = strip raw in
                 if out \<noteq> [] then (case splitlines out of [] \<Rightarrow> raise IndexError | l # ls \<Rightarrow> ret l)
                 else ret (str ''unknown'')))"
    by (intro tame_bnd tame_check_output)
       (simp add: Let_def tame_ret tame_raise_IndexError split: list.splits)
  then show ?thesis
    unfolding first_line_def Cons list.case tools_have_def
    by (intro fails_fast_bnd fails_fast_ask fails_fast_if fails_fast_ret fails_fast_except_Exception)
       (simp add: Cons)
qed

lemma fails_fast_checks_loop: "fails_fast (checks_loop E cs)"
  by (induction cs rule: checks_loop.induct)
     (auto intro!: fails_fast_thn fails_fast_bnd fails_fast_first_line fails_fast_print fails_fast_ret)

lemma fails_fast_dists_loop: "fails_fast (dists_loop E vp ds)"
proof (induction ds)
  case Nil
  then show ?case by (simp add: fails_fast_ret)
next
  case (Cons d ds)
  have "tame (bnd (check_output E [vp, ''-c'', version_code d]) (\<lambda>raw. print (strip raw)))"
    by (intro tame_bnd tame_check_output tame_print)
  with Cons show ?case
    by (auto intro!: fails_fast_thn fails_fast_except_Exception fails_fast_print)
qed

lemma fails_fast_print_versions: "fails_fast (print_versions E vp)"
  unfolding print_versions_def
  by (intro fails_fast_steps)
     (simp add: fails_fast_print fails_fast_checks_loop fails_fast_dists_loop
        del: dists_loop.simps checks_loop.simps)

lemma fails_fast_tools_run: "fails_fast (tools_run E cmd chk)"
  unfolding tools_run_def by (intro fails_fast_intros)

lemma fails_fast_ensure_admin_linux: "fails_fast (ensure_admin_linux E)"
  unfolding ensure_admin_linux_def tools_have_def
  by (intro fails_fast_if fails_fast_intros allI)

lemma fails_fast_install_on_ubuntu: "fails_fast (install_on_ubuntu E)"
  unfolding install_on_ubuntu_def
  by (intro fails_fast_bnd fails_fast_ensure_admin_linux fails_fast_steps)
     (simp add: fails_fast_discard fails_fast_tools_run)

lemma fails_fast_install_on_macos: "fails_fast (install_on_macos E)"
  unfolding install_on_macos_def tools_have_def
  by (intro fails_fast_bnd fails_fast_ask fails_fast_if fails_fast_steps)
     (simp_all add: fails_fast_discard fails_fast_tools_run fails_fast_print)

lemma fails_fast_winget_loop: "fails_fast (winget_loop E ps)"
  by (induction E ps rule: winget_loop.induct)
     (auto intro!: fails_fast_thn fails_fast_tools_run fails_fast_ret split: option.splits)

lemma fails_fast_install_on_windows: "fails_fast (install_on_windows E)"
  unfolding install_on_windows_def tools_have_def
  by (intro fails_fast_bnd fails_fast_ask fails_fast_if fails_fast_steps fails_fast_print)
     (simp_all add: fails_fast_winget_loop fails_fast_print)

lemma fails_fast_ensure_venv: "fails_fast (ensure_venv E vp)"
  unfolding ensure_venv_def isdir_def Let_def
  by (intro fails_fast_thn fails_fast_bnd fails_fast_ask fails_fast_if fails_fast_discard
        fails_fast_tools_run fails_fast_ret)

lemma fails_fast_pip_install_in_venv: "fails_fast (pip_install_in_venv E pb)"
  unfolding pip_install_in_venv_def by (intro fails_fast_discard fails_fast_tools_run)

lemma fails_fast_link_loop: "fails_fast (link_loop E pfx vp ts)"
  by (induction ts)
     (auto simp: Let_def path_exists_def
        intro!: fails_fast_thn fails_fast_bnd fails_fast_ask fails_fast_if fails_fast_discard
          fails_fast_tools_run fails_fast_print fails_fast_ret)

lemma fails_fast_symlink: "fails_fast (symlink_cli_tools_linux_shared E vp)"
  unfolding symlink_cli_tools_linux_shared_def
  by (intro fails_fast_if fails_fast_ret fails_fast_bnd fails_fast_ensure_admin_linux fails_fast_link_loop)

lemma fails_fast_tools_after_install: "fails_fast (tools_after_install E)"
  unfolding tools_after_install_def Let_def case_prod_beta
  by (intro fails_fast_thn fails_fast_print fails_fast_bnd fails_fast_ensure_venv fails_fast_steps)
     (simp add: fails_fast_pip_install_in_venv fails_fast_symlink fails_fast_print_versions)

lemma fails_fast_tools_main: "fails_fast (tools_main E)"
  unfolding tools_main_def
  by (intro fails_fast_thn fails_fast_print fails_fast_if fails_fast_install_on_ubuntu
        fails_fast_install_on_macos fails_fast_install_on_windows fails_fast_tools_after_install)

lemma guarded_cases:
  "guarded p msg m =
     (case p m of
        (Inl (CalledProcessError c rc), m1, t1) \<Rightarrow> (Inl (SystemExit rc), m1, t1 @ [Printed (msg c rc)])
      | other \<Rightarrow> other)"
  by (simp add: guarded_def except_called_process_error_def thn_def bnd_def print_def sys_exit_def raise_def
      split: prod.splits sum.splits exn.splits)

lemma failed_not_clean: "rc \<noteq> 0 \<Longrightarrow> Run c True (Exited rc) \<in> set t \<Longrightarrow> \<not> clean t"
  unfolding clean_def by (rule notI, erule notE, rule bexI[of _ "Run c True (Exited rc)"]) simp_all

lemma guarded_returns:
  "fst (p m) = Inr () \<Longrightarrow> exit_status (fst (guarded p msg m)) = 0"
  by (cases "p m") (simp add: guarded_cases)

lemma guarded_clean:
  assumes ff: "fails_fast p" and cl: "clean (snd (snd (guarded p msg m)))"
  shows "(exit_status (fst (guarded p msg m)) = 0 \<or> exit_status (fst (guarded p msg m)) = 1)
       \<and> (exit_status (fst (guarded p msg m)) = 0 \<longleftrightarrow> fst (p m) = Inr ())"
proof -
  obtain r m1 t where pm: "p m = (r, m1, t)" by (cases "p m")
  have g: "good r t"
    using pm ff[unfolded fails_fast_def, rule_format, of m] by (simp add: result_of_def events_of_def)
  show ?thesis
  proof (cases r)
    case (Inr u)
    with pm show ?thesis by (simp add: guarded_cases)
  next
    case (Inl e)
    show ?thesis
    proof (cases e)
      case (CalledProcessError c rc)
      with Inl g have "t \<noteq> []" and "last t = Run c True (Exited rc)" and "rc \<noteq> 0" by auto
      then have "Run c True (Exited rc) \<in> set t" by (metis last_in_set)
      with \<open>rc \<noteq> 0\<close> have "\<not> clean t" by (rule failed_not_clean)
      with cl pm Inl CalledProcessError show ?thesis by (simp add: guarded_cases clean_append)
    next
      case (SystemExit n)
      with Inl g pm show ?thesis by (simp add: guarded_cases)
    qed (use Inl pm in \<open>simp_all add: guarded_cases\<close>)
  qed
qed

lemma guarded_failed:
  assumes ff: "fails_fast p" and rc: "rc \<noteq> 0"
    and ev: "Run c True (Exited rc) \<in> set (snd (snd (guarded p msg m)))"
  shows "exit_status (fst (guarded p msg m)) = rc mod 256
       \<and> (\<exists>t0 s. snd (snd (guarded p msg m)) = t0 @ [Run c True (Exited rc), Printed s] \<and> clean t0)"
proof -
  obtain r m1 t where pm: "p m = (r, m1, t)" by (cases "p m")
  have g: "good r t"
    using pm ff[unfolded fails_fast_def, rule_format, of m] by (simp add: result_of_def events_of_def)
  have inmain: "Run c True (Exited rc) \<in> set t"
    using ev pm by (auto simp: guarded_cases split: sum.splits exn.splits)
  with rc have nc: "\<not> clean t" by (rule failed_not_clean)
  show ?thesis
  proof (cases r)
    case (Inr u)
    with g nc show ?thesis by simp
  next
    case (Inl e)
    show ?thesis
    proof (cases e)
      case (CalledProcessError c' rc')
      with Inl g have tne: "t \<noteq> []" and lt: "last t = Run c' True (Exited rc')"
        and cb: "clean (butlast t)" by auto
      from tne have t: "t = butlast t @ [last t]" by simp
      from cb rc have "Run c True (Exited rc) \<notin> set (butlast t)" using failed_not_clean by blast
      with inmain t have "Run c True (Exited rc) = last t" by (metis Un_iff empty_iff empty_set set_ConsD set_append)
      with lt have same: "c' = c" "rc' = rc" by auto
      from t lt same have "t = butlast t @ [Run c True (Exited rc)]" by simp
      then have "snd (snd (guarded p msg m)) = butlast t @ [Run c True (Exited rc), Printed (msg c rc)]"
        using pm Inl CalledProcessError same by (simp add: guarded_cases)
      moreover have "exit_status (fst (guarded p msg m)) = rc mod 256"
        using pm Inl CalledProcessError same by (simp add: guarded_cases)
      ultimately show ?thesis using cb by blast
    next
      case (SystemExit n)
      with Inl g nc show ?thesis by simp
    qed (use Inl g nc in simp_all)
  qed
qed

lemma install_aikbt_guarded:
  "install_aikbt E m = (exit_status (fst (guarded (aikbt_main E) (\<lambda>c rc. [10] @ str ''ERROR: Command failed with exit code '' @ str (show_int rc)) m)),
       snd (guarded (aikbt_main E) (\<lambda>c rc. [10] @ str ''ERROR: Command failed with exit code '' @ str (show_int rc)) m))"
  by (simp add: install_aikbt_def guarded_def split: prod.splits)

lemma setup_tools_guarded:
  "setup_tools E m = (exit_status (fst (guarded (tools_main E) (\<lambda>c rc. [10, 10060] @ str '' Command failed: ''
                                 @ str (show_called_process_error E c rc)) m)),
       snd (guarded (tools_main E) (\<lambda>c rc. [10, 10060] @ str '' Command failed: ''
                                 @ str (show_called_process_error E c rc)) m))"
  by (simp add: setup_tools_def guarded_def split: prod.splits)

section \<open>Claims about exit codes\<close>

text \<open>
  C5, as amended. For each script, with the exit status as a POSIX system reports it:
  when \<open>main\<close> runs to its end the exit code is 0. When no command run with
  \<open>check=True\<close> failed, the exit code is 0 or 1, and it is 0 exactly when \<open>main\<close> ran
  to its end. When a command run with \<open>check=True\<close> exits with a non-zero code, that
  command is the last one the script runs, no checked command failed before it, and the
  script exits with that code modulo 256: the code itself when it lies between 1 and
  255, and 256 minus the number of the signal when the command was ended by a signal
  (return code -9 gives 247). For \<open>setup_tools.py\<close> on Windows only the codes from 1 to
  255 are covered. The exit code of a command run with \<open>check=False\<close> or through
  \<open>check_output\<close> inside \<open>try\<close> is not propagated.
\<close>

theorem exit_code_of_the_scripts:
  "(result_of (aikbt_main E) m = Inr () \<longrightarrow> fst (install_aikbt E m) = 0)
 \<and> (clean (snd (snd (install_aikbt E m))) \<longrightarrow>
       (fst (install_aikbt E m) = 0 \<or> fst (install_aikbt E m) = 1)
     \<and> (fst (install_aikbt E m) = 0 \<longleftrightarrow> result_of (aikbt_main E) m = Inr ()))
 \<and> (\<forall>c rc. rc \<noteq> 0 \<and> Run c True (Exited rc) \<in> set (snd (snd (install_aikbt E m))) \<longrightarrow>
       fst (install_aikbt E m) = rc mod 256
       \<and> (0 < rc \<and> rc < 256 \<longrightarrow> fst (install_aikbt E m) = rc)
       \<and> (\<exists>t0 s. snd (snd (install_aikbt E m)) = t0 @ [Run c True (Exited rc), Printed s] \<and> clean t0))
 \<and> (result_of (tools_main E) m = Inr () \<longrightarrow> fst (setup_tools E m) = 0)
 \<and> (clean (snd (snd (setup_tools E m))) \<longrightarrow>
       (fst (setup_tools E m) = 0 \<or> fst (setup_tools E m) = 1)
     \<and> (fst (setup_tools E m) = 0 \<longleftrightarrow> result_of (tools_main E) m = Inr ()))
 \<and> (\<forall>c rc. rc \<noteq> 0 \<and> Run c True (Exited rc) \<in> set (snd (snd (setup_tools E m))) \<longrightarrow>
       (\<not> is_windows E \<longrightarrow> fst (setup_tools E m) = rc mod 256)
       \<and> (0 < rc \<and> rc < 256 \<longrightarrow> fst (setup_tools E m) = rc)
       \<and> (\<exists>t0 s. snd (snd (setup_tools E m)) = t0 @ [Run c True (Exited rc), Printed s] \<and> clean t0))"
proof -
  let ?a = "\<lambda>c rc. [10] @ str ''ERROR: Command failed with exit code '' @ str (show_int rc)"
  let ?t = "\<lambda>c rc. [10, 10060] @ str '' Command failed: '' @ str (show_called_process_error E c rc)"
  have a: "fst (install_aikbt E m) = exit_status (fst (guarded (aikbt_main E) ?a m))"
    "snd (snd (install_aikbt E m)) = snd (snd (guarded (aikbt_main E) ?a m))"
    by (simp_all add: install_aikbt_guarded)
  have t: "fst (setup_tools E m) = exit_status (fst (guarded (tools_main E) ?t m))"
    "snd (snd (setup_tools E m)) = snd (snd (guarded (tools_main E) ?t m))"
    by (simp_all add: setup_tools_guarded)
  have small: "\<And>rc x :: int. x = rc mod 256 \<Longrightarrow> 0 < rc \<and> rc < 256 \<longrightarrow> x = rc" by simp
  have a1: "result_of (aikbt_main E) m = Inr () \<longrightarrow> fst (install_aikbt E m) = 0"
    unfolding a result_of_def using guarded_returns by blast
  have a2: "clean (snd (snd (install_aikbt E m))) \<longrightarrow>
       (fst (install_aikbt E m) = 0 \<or> fst (install_aikbt E m) = 1)
     \<and> (fst (install_aikbt E m) = 0 \<longleftrightarrow> result_of (aikbt_main E) m = Inr ())"
    unfolding a result_of_def using guarded_clean[OF fails_fast_aikbt_main] by blast
  have a3: "\<forall>c rc. rc \<noteq> 0 \<and> Run c True (Exited rc) \<in> set (snd (snd (install_aikbt E m))) \<longrightarrow>
       fst (install_aikbt E m) = rc mod 256
       \<and> (0 < rc \<and> rc < 256 \<longrightarrow> fst (install_aikbt E m) = rc)
       \<and> (\<exists>t0 s. snd (snd (install_aikbt E m)) = t0 @ [Run c True (Exited rc), Printed s] \<and> clean t0)"
  proof (intro allI impI)
    fix c rc
    assume h: "rc \<noteq> 0 \<and> Run c True (Exited rc) \<in> set (snd (snd (install_aikbt E m)))"
    then have rc: "rc \<noteq> 0"
      and ev: "Run c True (Exited rc) \<in> set (snd (snd (guarded (aikbt_main E) ?a m)))"
      by (simp_all add: a)
    from guarded_failed[OF fails_fast_aikbt_main rc ev]
    have e: "fst (install_aikbt E m) = rc mod 256"
      and l: "\<exists>t0 s. snd (snd (install_aikbt E m)) = t0 @ [Run c True (Exited rc), Printed s] \<and> clean t0"
      by (simp_all add: a)
    from e l small[OF e]
    show "fst (install_aikbt E m) = rc mod 256
       \<and> (0 < rc \<and> rc < 256 \<longrightarrow> fst (install_aikbt E m) = rc)
       \<and> (\<exists>t0 s. snd (snd (install_aikbt E m)) = t0 @ [Run c True (Exited rc), Printed s] \<and> clean t0)"
      by (intro conjI)
  qed
  have t1: "result_of (tools_main E) m = Inr () \<longrightarrow> fst (setup_tools E m) = 0"
    unfolding t result_of_def using guarded_returns by blast
  have t2: "clean (snd (snd (setup_tools E m))) \<longrightarrow>
       (fst (setup_tools E m) = 0 \<or> fst (setup_tools E m) = 1)
     \<and> (fst (setup_tools E m) = 0 \<longleftrightarrow> result_of (tools_main E) m = Inr ())"
    unfolding t result_of_def using guarded_clean[OF fails_fast_tools_main] by blast
  have t3: "\<forall>c rc. rc \<noteq> 0 \<and> Run c True (Exited rc) \<in> set (snd (snd (setup_tools E m))) \<longrightarrow>
       (\<not> is_windows E \<longrightarrow> fst (setup_tools E m) = rc mod 256)
       \<and> (0 < rc \<and> rc < 256 \<longrightarrow> fst (setup_tools E m) = rc)
       \<and> (\<exists>t0 s. snd (snd (setup_tools E m)) = t0 @ [Run c True (Exited rc), Printed s] \<and> clean t0)"
  proof (intro allI impI)
    fix c rc
    assume h: "rc \<noteq> 0 \<and> Run c True (Exited rc) \<in> set (snd (snd (setup_tools E m)))"
    then have rc: "rc \<noteq> 0"
      and ev: "Run c True (Exited rc) \<in> set (snd (snd (guarded (tools_main E) ?t m)))"
      by (simp_all add: t)
    from guarded_failed[OF fails_fast_tools_main rc ev]
    have e: "fst (setup_tools E m) = rc mod 256"
      and l: "\<exists>t0 s. snd (snd (setup_tools E m)) = t0 @ [Run c True (Exited rc), Printed s] \<and> clean t0"
      by (simp_all add: t)
    from e have e': "\<not> is_windows E \<longrightarrow> fst (setup_tools E m) = rc mod 256" by simp
    from e' l small[OF e]
    show "(\<not> is_windows E \<longrightarrow> fst (setup_tools E m) = rc mod 256)
       \<and> (0 < rc \<and> rc < 256 \<longrightarrow> fst (setup_tools E m) = rc)
       \<and> (\<exists>t0 s. snd (snd (setup_tools E m)) = t0 @ [Run c True (Exited rc), Printed s] \<and> clean t0)"
      by (intro conjI)
  qed
  from a1 a2 a3 t1 t2 t3 show ?thesis by (intro conjI)
qed

theorem exit_code_of_the_scripts_witness:
  "Run [''apt'', ''update''] True (Exited 100)
     \<in> set (snd (snd (install_aikbt (ubuntu_root\<lparr>exec := apt_update_fails\<rparr>) ubuntu_machine)))
   \<and> fst (install_aikbt (ubuntu_root\<lparr>exec := apt_update_fails\<rparr>) ubuntu_machine) = 100
   \<and> Run [''apt'', ''update''] True (Exited (- 9))
     \<in> set (snd (snd (install_aikbt (ubuntu_root\<lparr>exec := apt_update_killed\<rparr>) ubuntu_machine)))
   \<and> fst (install_aikbt (ubuntu_root\<lparr>exec := apt_update_killed\<rparr>) ubuntu_machine) = 247"
proof -
  have r: "Run [''apt'', ''update''] True (Exited 100)
     \<in> set (snd (snd (install_aikbt (ubuntu_root\<lparr>exec := apt_update_fails\<rparr>) ubuntu_machine)))"
    by code_simp
  have k: "Run [''apt'', ''update''] True (Exited (- 9))
     \<in> set (snd (snd (install_aikbt (ubuntu_root\<lparr>exec := apt_update_killed\<rparr>) ubuntu_machine)))"
    by code_simp
  have "(100::int) \<noteq> 0 \<and> 0 < (100::int) \<and> (100::int) < 256" by simp
  with r exit_code_of_the_scripts[of "ubuntu_root\<lparr>exec := apt_update_fails\<rparr>" ubuntu_machine]
  have e1: "fst (install_aikbt (ubuntu_root\<lparr>exec := apt_update_fails\<rparr>) ubuntu_machine) = 100"
    by blast
  have "(- 9::int) \<noteq> 0" by simp
  with k exit_code_of_the_scripts[of "ubuntu_root\<lparr>exec := apt_update_killed\<rparr>" ubuntu_machine]
  have "fst (install_aikbt (ubuntu_root\<lparr>exec := apt_update_killed\<rparr>) ubuntu_machine) = - 9 mod 256"
    by blast
  then have e2: "fst (install_aikbt (ubuntu_root\<lparr>exec := apt_update_killed\<rparr>) ubuntu_machine) = 247"
    by simp
  from r k e1 e2 show ?thesis by (intro conjI)
qed

text \<open>
  C5 as stated fails: in the example update-alternatives exits with 2, the script goes
  on and exits with 0. And a command ended by signal 9 does not pass its return code -9
  on unchanged: the script exits with 247.
\<close>

theorem exit_code_of_the_scripts_counterexample:
  "fst (install_aikbt ubuntu_root ubuntu_machine) = 0
   \<and> Run update_alternatives_cmd False (Exited 2)
       \<in> set (snd (snd (install_aikbt ubuntu_root ubuntu_machine)))
   \<and> Run [''apt'', ''update''] True (Exited (- 9))
     \<in> set (snd (snd (install_aikbt (ubuntu_root\<lparr>exec := apt_update_killed\<rparr>) ubuntu_machine)))
   \<and> fst (install_aikbt (ubuntu_root\<lparr>exec := apt_update_killed\<rparr>) ubuntu_machine) = 247"
  by code_simp

section \<open>Claims about privileged commands\<close>








lemma bnd_ret: "bnd (ret x) f = f x"
  by (simp add: bnd_def ret_def fun_eq_iff split: prod.splits)

lemma bnd_ask: "bnd (ask g) f m = f (g m) m"
  by (simp add: bnd_def ask_def split: prod.splits)

lemma thn_print: "thn (print s) q m = (result_of q m, machine_after q m, Printed s # events_of q m)"
  by (simp add: thn_def bnd_def print_def result_of_def machine_after_def events_of_def split: prod.splits)




lemma aikbt_main_no_sudo:
  assumes "geteuid E = Some u" "u \<noteq> 0" "\<not> installed m ''sudo''"
  shows "aikbt_main E m = (Inl (SystemExit 1), m,
     [Printed (str ''=== AIK BT (LLDB) Installer for Ubuntu ===''),
      Printed ([10] @ str ''[1/5] Installing LLDB + Python LLDB bindings (llvm-15)...''),
      Printed (str ''ERROR: sudo not found. Install sudo as root, or run this script as root.'')])"
  unfolding aikbt_main_def Let_def steps.simps
  by (simp add: thn_def bnd_def print_def apt_install_no_sudo[OF assms])

lemma install_aikbt_no_sudo:
  assumes "geteuid E = Some u" "u \<noteq> 0" "\<not> installed m ''sudo''"
  shows "install_aikbt E m = (1, m,
     [Printed (str ''=== AIK BT (LLDB) Installer for Ubuntu ===''),
      Printed ([10] @ str ''[1/5] Installing LLDB + Python LLDB bindings (llvm-15)...''),
      Printed (str ''ERROR: sudo not found. Install sudo as root, or run this script as root.'')])"
  by (simp add: install_aikbt_guarded guarded_cases aikbt_main_no_sudo[OF assms])

lemma install_on_ubuntu_no_sudo:
  assumes "\<not> tools_is_root E" "\<not> installed m ''sudo''"
  shows "install_on_ubuntu E m = (Inl (SystemExit 1), m,
        [Printed ([10060] @ str '' sudo is not installed and you are not root.''),
         Printed (str ''   First run must be as root (or via provider console):''),
         Printed (str ''     python3 setup_tools.py'')])"
  using assms by (simp add: install_on_ubuntu_def bnd_def ensure_admin_linux_cases)

lemma setup_tools_no_sudo:
  assumes "is_linux E" "\<not> tools_is_root E" "\<not> installed m ''sudo''"
  shows "setup_tools E m = (1, m,
        [Printed (str ''==> Detected OS: '' @ str (system E) @ str '' '' @ str (release E)),
         Printed ([10060] @ str '' sudo is not installed and you are not root.''),
         Printed (str ''   First run must be as root (or via provider console):''),
         Printed (str ''     python3 setup_tools.py'')])"
proof -
  have "tools_main E m = (Inl (SystemExit 1), m,
        [Printed (str ''==> Detected OS: '' @ str (system E) @ str '' '' @ str (release E)),
         Printed ([10060] @ str '' sudo is not installed and you are not root.''),
         Printed (str ''   First run must be as root (or via provider console):''),
         Printed (str ''     python3 setup_tools.py'')])"
    using assms(1)
    by (simp add: tools_main_def thn_def bnd_def print_def install_on_ubuntu_no_sudo[OF assms(2,3)])
  then show ?thesis by (simp add: setup_tools_guarded guarded_cases)
qed



section \<open>Claims about version reporting\<close>

lemma splitlines_empty: "splitlines [] = []"
  by (simp add: splitlines_def)

lemma first_line_Cons:
  "first_line E (c # args) m =
     (if \<not> installed m c then (Inr (str ''not available''), m, [])
      else (Inr (case captured (exec E (c # args) m) of
                   None \<Rightarrow> str ''unknown''
                 | Some out \<Rightarrow>
                     if returncode (exec E (c # args) m) \<noteq> 0 then str ''unknown''
                     else (case splitlines (strip (universal_newlines out)) of
                             [] \<Rightarrow> str ''unknown'' | l # ls \<Rightarrow> l)),
            after (exec E (c # args) m),
            [Output (c # args) (Exited (returncode (exec E (c # args) m)))]))"
proof -
  let ?body = "bnd (check_output E (c # args)) (\<lambda>raw.
                 let out = strip raw in
                 if out \<noteq> [] then (case splitlines out of [] \<Rightarrow> raise IndexError | l # ls \<Rightarrow> ret l)
                 else ret (str ''unknown''))"
  have step: "first_line E (c # args) m =
      (if \<not> installed m c then ret (str ''not available'') m
       else except_Exception ?body (ret (str ''unknown'')) m)"
    by (simp add: first_line_def tools_have_def bnd_ask)
  have inner: "installed m c \<Longrightarrow> except_Exception ?body (ret (str ''unknown'')) m =
      (Inr (case captured (exec E (c # args) m) of
                   None \<Rightarrow> str ''unknown''
                 | Some out \<Rightarrow>
                     if returncode (exec E (c # args) m) \<noteq> 0 then str ''unknown''
                     else (case splitlines (strip (universal_newlines out)) of
                             [] \<Rightarrow> str ''unknown'' | l # ls \<Rightarrow> l)),
            after (exec E (c # args) m),
            [Output (c # args) (Exited (returncode (exec E (c # args) m)))])"
    by (simp add: except_Exception_def check_output_def bnd_def ret_def raise_def Let_def
        splitlines_Nil_iff splitlines_empty split: option.splits list.splits)
  show ?thesis using step inner by (simp add: ret_def)
qed

lemma always_returns_bnd:
  assumes p: "always_returns p" and f: "\<And>x. always_returns (f x)"
  shows "always_returns (bnd p f)"
  unfolding always_returns_def
proof
  fix m
  obtain r1 m1 t1 where pm: "p m = (r1, m1, t1)" by (cases "p m")
  with p[unfolded always_returns_def, rule_format, of m] obtain x where r1: "r1 = Inr x"
    by (auto simp: result_of_def)
  obtain r2 m2 t2 where fm: "f x m1 = (r2, m2, t2)" by (cases "f x m1")
  with f[of x, unfolded always_returns_def, rule_format, of m1] obtain y where "r2 = Inr y"
    by (auto simp: result_of_def)
  with pm r1 fm show "\<exists>z. result_of (bnd p f) m = Inr z"
    by (simp add: bnd_def result_of_def)
qed

lemma always_returns_thn: "always_returns p \<Longrightarrow> always_returns q \<Longrightarrow> always_returns (thn p q)"
  by (simp add: thn_def always_returns_bnd)

lemma always_returns_ret: "always_returns (ret x)"
  by (simp add: always_returns_def ret_def result_of_def)

lemma always_returns_print: "always_returns (print s)"
  by (simp add: always_returns_def print_def result_of_def)

lemma always_returns_steps: "list_all always_returns ps \<Longrightarrow> always_returns (steps ps)"
  by (induction ps) (auto simp: always_returns_ret always_returns_thn)

lemma always_returns_except_Exception:
  assumes p: "tame p" and h: "always_returns h"
  shows "always_returns (except_Exception p h)"
  unfolding always_returns_def
proof
  fix m
  obtain r1 m1 t1 where pm: "p m = (r1, m1, t1)" by (cases "p m")
  have g1: "\<forall>n. r1 \<noteq> Inl (SystemExit n)"
    using pm p[unfolded tame_def, rule_format, of m] by (simp add: result_of_def)
  show "\<exists>x. result_of (except_Exception p h) m = Inr x"
  proof (cases r1)
    case (Inr x)
    with pm show ?thesis by (simp add: except_Exception_def result_of_def)
  next
    case (Inl e)
    with g1 have ex: "is_Exception e" by (cases e) auto
    obtain r2 m2 t2 where hm: "h m1 = (r2, m2, t2)" by (cases "h m1")
    with h[unfolded always_returns_def, rule_format, of m1] obtain y where "r2 = Inr y"
      by (auto simp: result_of_def)
    with pm Inl ex hm show ?thesis by (simp add: except_Exception_def result_of_def)
  qed
qed

lemma always_returns_first_line: "cmd \<noteq> [] \<Longrightarrow> always_returns (first_line E cmd)"
  by (cases cmd) (simp_all add: always_returns_def result_of_def first_line_Cons)

lemma always_returns_checks_loop:
  "list_all (\<lambda>(name, cmd). cmd \<noteq> []) cs \<Longrightarrow> always_returns (checks_loop E cs)"
  by (induction E cs rule: checks_loop.induct)
     (auto intro!: always_returns_thn always_returns_bnd always_returns_first_line
        always_returns_print always_returns_ret)

lemma always_returns_dists_loop: "always_returns (dists_loop E vp ds)"
proof (induction ds)
  case Nil
  then show ?case by (simp add: always_returns_ret)
next
  case (Cons d ds)
  have "tame (bnd (check_output E [vp, ''-c'', version_code d]) (\<lambda>raw. print (strip raw)))"
    by (intro tame_bnd tame_check_output tame_print)
  with Cons show ?case
    by (auto intro!: always_returns_thn always_returns_except_Exception always_returns_print)
qed

lemma always_returns_print_versions: "always_returns (print_versions E vp)"
  unfolding print_versions_def
  by (intro always_returns_steps)
     (simp add: always_returns_print always_returns_checks_loop always_returns_dists_loop
        version_checks_def del: dists_loop.simps checks_loop.simps)

text \<open>
  C10, as amended. For every non-empty command list \<open>first_line\<close> returns a text and
  never raises: \<open>not available\<close> when the executable is not on the PATH, and then nothing
  is run; otherwise the command is queried once, and the text is \<open>unknown\<close> when the
  output cannot be decoded, the exit code is not zero or the output is empty after
  stripping, and the first line of the stripped output in every other case. The
  version report \<open>print_versions\<close> returns normally from every machine.
\<close>

theorem first_line_total:
  assumes "cmd \<noteq> []"
  shows "(\<exists>v m' t. first_line E cmd m = (Inr v, m', t)
      \<and> (\<not> installed m (hd cmd) \<longrightarrow> v = str ''not available'' \<and> m' = m \<and> t = [])
      \<and> (installed m (hd cmd) \<longrightarrow>
            m' = after (exec E cmd m)
          \<and> t = [Output cmd (Exited (returncode (exec E cmd m)))]
          \<and> (case captured (exec E cmd m) of
                None \<Rightarrow> v = str ''unknown''
              | Some out \<Rightarrow>
                  if returncode (exec E cmd m) \<noteq> 0 \<or> strip (universal_newlines out) = []
                  then v = str ''unknown''
                  else \<exists>ls. splitlines (strip (universal_newlines out)) = v # ls)))
    \<and> (\<exists>m' t. print_versions E venv_python m = (Inr (), m', t))"
proof -
  from assms obtain c args where cmd: "cmd = c # args" by (cases cmd) auto
  have 1: "\<exists>v m' t. first_line E cmd m = (Inr v, m', t)
      \<and> (\<not> installed m (hd cmd) \<longrightarrow> v = str ''not available'' \<and> m' = m \<and> t = [])
      \<and> (installed m (hd cmd) \<longrightarrow>
            m' = after (exec E cmd m)
          \<and> t = [Output cmd (Exited (returncode (exec E cmd m)))]
          \<and> (case captured (exec E cmd m) of
                None \<Rightarrow> v = str ''unknown''
              | Some out \<Rightarrow>
                  if returncode (exec E cmd m) \<noteq> 0 \<or> strip (universal_newlines out) = []
                  then v = str ''unknown''
                  else \<exists>ls. splitlines (strip (universal_newlines out)) = v # ls))"
    unfolding cmd
    by (auto simp: first_line_Cons splitlines_Nil_iff splitlines_empty split: option.splits list.splits)
  from always_returns_print_versions[of E venv_python]
  obtain x where "result_of (print_versions E venv_python) m = Inr x"
    by (auto simp: always_returns_def)
  then have 2: "\<exists>m' t. print_versions E venv_python m = (Inr (), m', t)"
    by (cases "print_versions E venv_python m") (auto simp: result_of_def)
  from 1 2 show ?thesis by blast
qed

theorem first_line_total_witness:
  "[''python3'', ''--version''] \<noteq> []
   \<and> installed ubuntu_machine ''python3''
   \<and> (\<exists>v m' t. first_line ubuntu_root [''python3'', ''--version''] ubuntu_machine = (Inr v, m', t)
         \<and> t = [Output [''python3'', ''--version''] (Exited 0)])"
proof -
  have n: "[''python3'', ''--version''] \<noteq> ([] :: string list)" by simp
  have i: "installed ubuntu_machine (hd [''python3'', ''--version''])" by (simp add: ubuntu_machine_def)
  have r: "returncode (exec ubuntu_root [''python3'', ''--version''] ubuntu_machine) = 0"
    by (simp add: ubuntu_root_def example_exec_def)
  from first_line_total[OF n, of ubuntu_root ubuntu_machine] obtain v m' t where
    f: "first_line ubuntu_root [''python3'', ''--version''] ubuntu_machine = (Inr v, m', t)"
    and g: "installed ubuntu_machine (hd [''python3'', ''--version'']) \<longrightarrow>
            m' = after (exec ubuntu_root [''python3'', ''--version''] ubuntu_machine)
          \<and> t = [Output [''python3'', ''--version'']
                  (Exited (returncode (exec ubuntu_root [''python3'', ''--version''] ubuntu_machine)))]
          \<and> (case captured (exec ubuntu_root [''python3'', ''--version''] ubuntu_machine) of
                None \<Rightarrow> v = str ''unknown''
              | Some out \<Rightarrow>
                  if returncode (exec ubuntu_root [''python3'', ''--version''] ubuntu_machine) \<noteq> 0
                     \<or> strip (universal_newlines out) = []
                  then v = str ''unknown''
                  else \<exists>ls. splitlines (strip (universal_newlines out)) = v # ls)"
    by blast
  from g i r have "t = [Output [''python3'', ''--version''] (Exited 0)]" by simp
  with f n i show ?thesis by auto
qed

text \<open>
  C10 as stated fails on the empty command list: \<open>cmd[0]\<close> is read outside the
  \<open>try\<close> and raises \<open>IndexError\<close>.
\<close>

theorem first_line_total_counterexample:
  "fst (first_line ubuntu_root [] ubuntu_machine) = Inl IndexError"
  by (simp add: first_line_def raise_def)

section \<open>Claims about the virtual environment\<close>

lemma tools_run_Cons:
  "tools_run E (c # args) chk m =
     (if \<not> installed m c
      then (Inl FileNotFoundError, m,
            [Printed ([10] @ str ''==> '' @ str (join_spaces (c # args))), Run (c # args) chk NotFound])
      else if chk \<and> returncode (exec E (c # args) m) \<noteq> 0
      then (Inl (CalledProcessError (c # args) (returncode (exec E (c # args) m))),
            after (exec E (c # args) m),
            [Printed ([10] @ str ''==> '' @ str (join_spaces (c # args))),
             Run (c # args) chk (Exited (returncode (exec E (c # args) m)))])
      else (Inr (returncode (exec E (c # args) m)), after (exec E (c # args) m),
            [Printed ([10] @ str ''==> '' @ str (join_spaces (c # args))),
             Run (c # args) chk (Exited (returncode (exec E (c # args) m)))]))"
  by (simp add: tools_run_def thn_def bnd_def print_def subprocess_run_def Let_def)

lemma aikbt_run_Cons:
  "aikbt_run E (c # args) chk m =
     (if \<not> installed m c
      then (Inl FileNotFoundError, m,
            [Printed ([10] @ str ''>>> '' @ str (join_spaces (c # args))), Run (c # args) chk NotFound])
      else if chk \<and> returncode (exec E (c # args) m) \<noteq> 0
      then (Inl (CalledProcessError (c # args) (returncode (exec E (c # args) m))),
            after (exec E (c # args) m),
            [Printed ([10] @ str ''>>> '' @ str (join_spaces (c # args))),
             Run (c # args) chk (Exited (returncode (exec E (c # args) m)))])
      else (Inr (returncode (exec E (c # args) m)), after (exec E (c # args) m),
            [Printed ([10] @ str ''>>> '' @ str (join_spaces (c # args))),
             Run (c # args) chk (Exited (returncode (exec E (c # args) m)))]))"
  by (simp add: aikbt_run_def thn_def bnd_def print_def subprocess_run_def Let_def)

lemma ensure_venv_unfold:
  "ensure_venv E vp m =
     thn (if node_at m vp = Some Dir then ret ()
          else discard (tools_run E [sys_executable E, ''-m'', ''venv'', show_path vp] True))
       (thn (tools_run E [show_path (vp @ (if is_windows E then [''Scripts'', ''python.exe'']
                                          else [''bin'', ''python''])),
                          ''-m'', ''pip'', ''install'', ''-U'', ''pip'', ''setuptools'', ''wheel''] True)
            (ret (vp @ (if is_windows E then [''Scripts'', ''python.exe''] else [''bin'', ''python'']),
                  vp @ (if is_windows E then [''Scripts'', ''pip.exe''] else [''bin'', ''pip''])))) m"
  by (simp add: ensure_venv_def isdir_def Let_def thn_def[of "bnd (ask _) _"] bnd_def[of "bnd (ask _) _"] bnd_ask
      thn_def[of "if _ then _ else _"] bnd_def[of "if _ then _ else _"])

text \<open>
  C7. \<open>ensure_venv\<close> runs the command that creates the virtual environment exactly
  when there is no directory at the path, and then it is the first command run. Whenever
  \<open>ensure_venv\<close> returns, it returns the paths of the interpreter and of pip inside that
  directory (\<open>Scripts\<close> on Windows, \<open>bin\<close> elsewhere), and it does return whenever every
  command it runs is found and exits with 0.
\<close>

theorem ensure_venv_creates_iff_missing:
  "([sys_executable E, ''-m'', ''venv'', show_path vp] \<in> set (runs (events_of (ensure_venv E vp) m))
      \<longleftrightarrow> node_at m vp \<noteq> Some Dir)
 \<and> (node_at m vp \<noteq> Some Dir \<longrightarrow>
      (\<exists>rest. runs (events_of (ensure_venv E vp) m)
          = [sys_executable E, ''-m'', ''venv'', show_path vp] # rest))
 \<and> (\<forall>v. result_of (ensure_venv E vp) m = Inr v \<longrightarrow>
        v = (vp @ (if is_windows E then [''Scripts'', ''python.exe''] else [''bin'', ''python'']),
             vp @ (if is_windows E then [''Scripts'', ''pip.exe''] else [''bin'', ''pip''])))
 \<and> (list_all succeeded (events_of (ensure_venv E vp) m) \<longrightarrow>
        result_of (ensure_venv E vp) m
          = Inr (vp @ (if is_windows E then [''Scripts'', ''python.exe''] else [''bin'', ''python'']),
                 vp @ (if is_windows E then [''Scripts'', ''pip.exe''] else [''bin'', ''pip''])))"
proof (cases "node_at m vp = Some Dir")
  case True
  then show ?thesis
    unfolding events_of_def result_of_def ensure_venv_unfold
    by (simp add: thn_def bnd_def ret_def tools_run_Cons)
next
  case False
  then show ?thesis
    unfolding events_of_def result_of_def ensure_venv_unfold
    by (simp add: thn_def bnd_def ret_def discard_def tools_run_Cons)
qed

lemma mac_not_windows: "\<not> is_windows mac_user" by code_simp

lemma ensure_venv_mac_events: "events_of (ensure_venv mac_user [''Users'', ''u'', ''course-venv'']) mac_without_brew
  = [Printed ([10] @ str ''==> '' @ str (join_spaces [''/usr/bin/python3'', ''-m'', ''venv'', ''/Users/u/course-venv''])),
     Run [''/usr/bin/python3'', ''-m'', ''venv'', ''/Users/u/course-venv''] True (Exited 0),
     Printed ([10] @ str ''==> '' @ str (join_spaces [''/Users/u/course-venv/bin/python'', ''-m'', ''pip'', ''install'', ''-U'', ''pip'', ''setuptools'', ''wheel''])),
     Run [''/Users/u/course-venv/bin/python'', ''-m'', ''pip'', ''install'', ''-U'', ''pip'', ''setuptools'', ''wheel''] True (Exited 0)]"
  unfolding events_of_def ensure_venv_unfold
proof -
  have x: "sys_executable mac_user = ''/usr/bin/python3''" "exec mac_user = no_effect"
    by (simp_all add: mac_user_def)
  show "snd (snd (thn (if node_at mac_without_brew [''Users'', ''u'', ''course-venv''] = Some Dir then ret ()
          else discard (tools_run mac_user [sys_executable mac_user, ''-m'', ''venv'', show_path [''Users'', ''u'', ''course-venv'']] True))
       (thn (tools_run mac_user [show_path ([''Users'', ''u'', ''course-venv''] @ (if is_windows mac_user then [''Scripts'', ''python.exe'']
                                          else [''bin'', ''python''])),
                          ''-m'', ''pip'', ''install'', ''-U'', ''pip'', ''setuptools'', ''wheel''] True)
            (ret ([''Users'', ''u'', ''course-venv''] @ (if is_windows mac_user then [''Scripts'', ''python.exe''] else [''bin'', ''python'']),
                  [''Users'', ''u'', ''course-venv''] @ (if is_windows mac_user then [''Scripts'', ''pip.exe''] else [''bin'', ''pip''])))) mac_without_brew))
  = [Printed ([10] @ str ''==> '' @ str (join_spaces [''/usr/bin/python3'', ''-m'', ''venv'', ''/Users/u/course-venv''])),
     Run [''/usr/bin/python3'', ''-m'', ''venv'', ''/Users/u/course-venv''] True (Exited 0),
     Printed ([10] @ str ''==> '' @ str (join_spaces [''/Users/u/course-venv/bin/python'', ''-m'', ''pip'', ''install'', ''-U'', ''pip'', ''setuptools'', ''wheel''])),
     Run [''/Users/u/course-venv/bin/python'', ''-m'', ''pip'', ''install'', ''-U'', ''pip'', ''setuptools'', ''wheel''] True (Exited 0)]"
    by (simp add: mac_not_windows x thn_def bnd_def ret_def discard_def tools_run_Cons mac_without_brew_def
      no_effect_def node_at_def show_path_def)
qed

theorem ensure_venv_creates_iff_missing_witness:
  "node_at mac_without_brew [''Users'', ''u'', ''course-venv''] \<noteq> Some Dir
   \<and> [sys_executable mac_user, ''-m'', ''venv'', show_path [''Users'', ''u'', ''course-venv'']]
       \<in> set (runs (events_of (ensure_venv mac_user [''Users'', ''u'', ''course-venv'']) mac_without_brew))
   \<and> list_all succeeded (events_of (ensure_venv mac_user [''Users'', ''u'', ''course-venv'']) mac_without_brew)
   \<and> result_of (ensure_venv mac_user [''Users'', ''u'', ''course-venv'']) mac_without_brew
        = Inr ([''Users'', ''u'', ''course-venv'', ''bin'', ''python''],
               [''Users'', ''u'', ''course-venv'', ''bin'', ''pip''])"
proof -
  have d: "node_at mac_without_brew [''Users'', ''u'', ''course-venv''] \<noteq> Some Dir"
    by (simp add: mac_without_brew_def node_at_def)
  have s: "list_all succeeded (events_of (ensure_venv mac_user [''Users'', ''u'', ''course-venv'']) mac_without_brew)"
    by (simp add: ensure_venv_mac_events)
  note t = ensure_venv_creates_iff_missing[of mac_user "[''Users'', ''u'', ''course-venv'']" mac_without_brew]
  from t[THEN conjunct1] d
  have c: "[sys_executable mac_user, ''-m'', ''venv'', show_path [''Users'', ''u'', ''course-venv'']]
       \<in> set (runs (events_of (ensure_venv mac_user [''Users'', ''u'', ''course-venv'']) mac_without_brew))"
    by (rule iffD2)
  from t[THEN conjunct2, THEN conjunct2, THEN conjunct2, rule_format, OF s]
  have r: "result_of (ensure_venv mac_user [''Users'', ''u'', ''course-venv'']) mac_without_brew
        = Inr ([''Users'', ''u'', ''course-venv'', ''bin'', ''python''],
               [''Users'', ''u'', ''course-venv'', ''bin'', ''pip''])"
    by (simp add: mac_not_windows)
  from d c s r show ?thesis by (intro conjI)
qed

section \<open>Claims about downloads and missing preconditions\<close>

lemma path_mkdir_ok: "mkdirs (prefixes p) m = Inr m1 \<Longrightarrow> path_mkdir p m = (Inr (), m1, [])"
  by (simp add: path_mkdir_def)

lemma download_to_no_curl:
  assumes mk: "mkdirs (prefixes (parent dest)) m = Inr m1" and nc: "\<not> installed m1 ''curl''"
  shows "download_to E url dest m = (Inl (SystemExit 1), m1,
     [Printed (str ''ERROR: curl not found. Install it with: sudo apt install -y curl'')])"
  unfolding download_to_def steps.simps
  using nc by (simp add: thn_def bnd_def path_mkdir_ok[OF mk] have_cmd_def ask_def print_def
      sys_exit_def raise_def)

lemma download_to_too_small:
  assumes mk: "mkdirs (prefixes (parent dest)) m = Inr m1" and c: "installed m1 ''curl''"
    and rc: "returncode (exec E (curl_cmd url dest) m1) = 0"
    and sm: "too_small E (after (exec E (curl_cmd url dest) m1)) dest"
  shows "download_to E url dest m = (Inl (SystemExit 1), after (exec E (curl_cmd url dest) m1),
     [Printed ([10] @ str ''>>> '' @ str (join_spaces (curl_cmd url dest))),
      Run (curl_cmd url dest) True (Exited 0),
      Printed (str ''ERROR: Download seems failed or file too small: '' @ str (show_path dest))])"
proof -
  have run: "aikbt_run E [''curl'', ''-fsSL'', url, ''-o'', show_path dest] True m1
      = (Inr 0, after (exec E (curl_cmd url dest) m1),
         [Printed ([10] @ str ''>>> '' @ str (join_spaces (curl_cmd url dest))),
          Run (curl_cmd url dest) True (Exited 0)])"
    using c rc by (simp add: aikbt_run_Cons curl_cmd_def)
  let ?m2 = "after (exec E (curl_cmd url dest) m1)"
  let ?check = "bnd (path_exists dest) (\<lambda>ex.
       if \<not> ex then thn (print (str ''ERROR: Download seems failed or file too small: '' @ str (show_path dest)))
                       (sys_exit 1)
       else bnd (stat_size E dest) (\<lambda>sz.
         if sz < 10
         then thn (print (str ''ERROR: Download seems failed or file too small: '' @ str (show_path dest)))
                  (sys_exit 1)
         else ret ()))"
  have chk: "?check ?m2 = (Inl (SystemExit 1), ?m2,
      [Printed (str ''ERROR: Download seems failed or file too small: '' @ str (show_path dest))])"
  proof (cases "node_at ?m2 dest")
    case None
    then show ?thesis
      by (simp add: path_exists_def ask_def thn_def bnd_def print_def sys_exit_def raise_def)
  next
    case (Some n)
    with sm show ?thesis
      by (cases n)
         (simp_all add: path_exists_def ask_def thn_def bnd_def print_def sys_exit_def raise_def
            stat_size_def too_small_def)
  qed
  let ?hc = "bnd (have_cmd ''curl'') (\<lambda>h.
       if \<not> h
       then thn (print (str ''ERROR: curl not found. Install it with: sudo apt install -y curl''))
                (sys_exit 1)
       else ret ())"
  have hc: "?hc m1 = (Inr (), m1, [])"
    using c by (simp add: have_cmd_def bnd_ask ret_def)
  let ?dr = "discard (aikbt_run E [''curl'', ''-fsSL'', url, ''-o'', show_path dest] True)"
  have dr: "?dr m1
      = (Inr (), ?m2,
         [Printed ([10] @ str ''>>> '' @ str (join_spaces (curl_cmd url dest))),
          Run (curl_cmd url dest) True (Exited 0)])"
    by (simp add: discard_def bnd_def run ret_def)
  show ?thesis
    unfolding download_to_def steps.simps
    by (simp add: thn_Inr[of "path_mkdir (parent dest)" m, OF path_mkdir_ok[OF mk]]
        thn_Inr[of ?hc m1, OF hc] thn_Inr[of ?dr m1, OF dr] thn_Inl[of ?check ?m2, OF chk]
        result_of_def machine_after_def events_of_def)
qed

lemma thn_raises: "fst (p m) = Inl e \<Longrightarrow> thn p k m = (Inl e, snd (p m))"
  by (cases "p m") (simp add: thn_def bnd_def)

lemma guarded_SystemExit: "fst (p m) = Inl (SystemExit n) \<Longrightarrow> guarded p msg m = p m"
  by (cases "p m") (simp add: guarded_cases)

lemma install_on_macos_no_brew:
  "\<not> installed m ''brew'' \<Longrightarrow> install_on_macos E m = (Inr (), m,
     [Printed ([10060] @ str '' Homebrew (brew) not found.''),
      Printed (str ''   Install Homebrew first, then rerun this script.''),
      Printed (str ''   Command (copy/paste in Terminal):''),
      Printed (str ''   /bin/bash -c '' @ [34]
                @ str ''$(curl -fsSL https://raw.githubusercontent.com/Homebrew/install/HEAD/install.sh)''
                @ [34])])"
  by (simp add: install_on_macos_def tools_have_def ask_def thn_def bnd_def print_def ret_def)

lemma install_on_windows_no_winget:
  "\<not> installed m ''winget'' \<Longrightarrow> install_on_windows E m = (Inr (), m,
     [Printed ([10060] @ str '' winget not found. Install '' @ [39] @ str ''App Installer'' @ [39]
                   @ str '' from Microsoft Store or use Windows 10/11 with winget enabled.'')])"
  by (simp add: install_on_windows_def tools_have_def ask_def bnd_def print_def)

lemma download_to_exits:
  assumes "download_to E url dest m = (Inl (SystemExit 1), m2, t)"
  shows "guarded (thn (download_to E url dest) k) msg m = download_to E url dest m"
proof -
  have "thn (download_to E url dest) k m = download_to E url dest m"
    using thn_raises[of "download_to E url dest" m "SystemExit 1" k] assms by simp
  moreover have "guarded (thn (download_to E url dest) k) msg m = thn (download_to E url dest) k m"
    using guarded_SystemExit[of "thn (download_to E url dest) k" m 1 msg] calculation assms by simp
  ultimately show ?thesis by simp
qed

lemma mkdirs_lldb_dir:
  "mkdirs (prefixes (parent aik_bt_py)) ubuntu_machine = Inr (with_lldb_dir ubuntu_machine)"
  by (simp add: aik_bt_py_def parent_def home_u_def ubuntu_machine_def node_at_def with_lldb_dir_def)

lemma mkdirs_lldb_dir_without_curl:
  "mkdirs (prefixes (parent aik_bt_py)) ubuntu_without_curl = Inr (with_lldb_dir ubuntu_without_curl)"
  by (simp add: aik_bt_py_def parent_def home_u_def ubuntu_machine_def ubuntu_without_curl_def
      node_at_def with_lldb_dir_def)

text \<open>
  C6. When the directory of the destination can be made, curl is on the PATH and the
  download command exits with 0, but afterwards nothing is at the destination or it has
  fewer than 10 bytes, \<open>download_to\<close> prints the diagnostic and exits with code 1 right
  after the download command. Whatever follows \<open>download_to\<close> in a script is not run, and
  the guard of the script passes the exit on.
\<close>

theorem download_to_sanity_check:
  assumes mk: "mkdirs (prefixes (parent dest)) m = Inr m1" and c: "installed m1 ''curl''"
    and rc: "returncode (exec E (curl_cmd url dest) m1) = 0"
    and sm: "too_small E (after (exec E (curl_cmd url dest) m1)) dest"
  shows "download_to E url dest m = (Inl (SystemExit 1), after (exec E (curl_cmd url dest) m1),
     [Printed ([10] @ str ''>>> '' @ str (join_spaces (curl_cmd url dest))),
      Run (curl_cmd url dest) True (Exited 0),
      Printed (str ''ERROR: Download seems failed or file too small: '' @ str (show_path dest))])
   \<and> (\<forall>k msg. guarded (thn (download_to E url dest) k) msg m = download_to E url dest m)
   \<and> exit_status (fst (download_to E url dest m)) = 1"
proof -
  note d = download_to_too_small[OF mk c rc sm]
  have "\<And>k. thn (download_to E url dest) k m = download_to E url dest m"
    using thn_raises[of "download_to E url dest" m "SystemExit 1"] d by simp
  moreover have "\<And>k msg. guarded (thn (download_to E url dest) k) msg m = thn (download_to E url dest) k m"
    using guarded_SystemExit[of "thn (download_to E url dest) _" m 1] calculation d by simp
  ultimately show ?thesis using d by simp
qed

theorem download_to_sanity_check_witness:
  "mkdirs (prefixes (parent aik_bt_py)) ubuntu_machine = Inr (with_lldb_dir ubuntu_machine)
   \<and> installed (with_lldb_dir ubuntu_machine) ''curl''
   \<and> returncode (exec (ubuntu_root\<lparr>exec := no_effect\<rparr>) (curl_cmd AIK_BT_URL aik_bt_py)
         (with_lldb_dir ubuntu_machine)) = 0
   \<and> too_small (ubuntu_root\<lparr>exec := no_effect\<rparr>)
        (after (exec (ubuntu_root\<lparr>exec := no_effect\<rparr>) (curl_cmd AIK_BT_URL aik_bt_py)
           (with_lldb_dir ubuntu_machine))) aik_bt_py
   \<and> exit_status (fst (download_to (ubuntu_root\<lparr>exec := no_effect\<rparr>) AIK_BT_URL aik_bt_py ubuntu_machine)) = 1"
proof -
  have c: "installed (with_lldb_dir ubuntu_machine) ''curl''"
    by (simp add: with_lldb_dir_def ubuntu_machine_def)
  have rc: "returncode (exec (ubuntu_root\<lparr>exec := no_effect\<rparr>) (curl_cmd AIK_BT_URL aik_bt_py)
         (with_lldb_dir ubuntu_machine)) = 0"
    by (simp add: no_effect_def)
  have sm: "too_small (ubuntu_root\<lparr>exec := no_effect\<rparr>)
        (after (exec (ubuntu_root\<lparr>exec := no_effect\<rparr>) (curl_cmd AIK_BT_URL aik_bt_py)
           (with_lldb_dir ubuntu_machine))) aik_bt_py"
    by (simp add: no_effect_def too_small_def with_lldb_dir_def ubuntu_machine_def node_at_def
        aik_bt_py_def home_u_def)
  from download_to_sanity_check[OF mkdirs_lldb_dir c rc sm] mkdirs_lldb_dir c rc sm
  show ?thesis by simp
qed

text \<open>
  C4, as amended. A user who is not the superuser without sudo, a missing curl, and a
  download that is missing or too small each end the process at once with exit code 1
  and a diagnostic as the last event; no later step runs. A missing package manager
  (brew, winget) is different: the installation step prints its diagnostic, runs nothing
  and returns, and the script goes on.
\<close>

theorem missing_preconditions:
  "(\<forall>u. geteuid E = Some u \<and> u \<noteq> 0 \<and> \<not> installed m ''sudo'' \<longrightarrow>
      install_aikbt E m = (1, m,
        [Printed (str ''=== AIK BT (LLDB) Installer for Ubuntu ===''),
         Printed ([10] @ str ''[1/5] Installing LLDB + Python LLDB bindings (llvm-15)...''),
         Printed (str ''ERROR: sudo not found. Install sudo as root, or run this script as root.'')]))
 \<and> (is_linux E \<and> \<not> tools_is_root E \<and> \<not> installed m ''sudo'' \<longrightarrow>
      setup_tools E m = (1, m,
        [Printed (str ''==> Detected OS: '' @ str (system E) @ str '' '' @ str (release E)),
         Printed ([10060] @ str '' sudo is not installed and you are not root.''),
         Printed (str ''   First run must be as root (or via provider console):''),
         Printed (str ''     python3 setup_tools.py'')]))
 \<and> (\<forall>m1. mkdirs (prefixes (parent dest)) m = Inr m1 \<and> \<not> installed m1 ''curl'' \<longrightarrow>
      download_to E url dest m = (Inl (SystemExit 1), m1,
        [Printed (str ''ERROR: curl not found. Install it with: sudo apt install -y curl'')])
    \<and> (\<forall>k msg. guarded (thn (download_to E url dest) k) msg m = download_to E url dest m))
 \<and> (\<forall>m1. mkdirs (prefixes (parent dest)) m = Inr m1 \<and> installed m1 ''curl''
        \<and> returncode (exec E (curl_cmd url dest) m1) = 0
        \<and> too_small E (after (exec E (curl_cmd url dest) m1)) dest \<longrightarrow>
      download_to E url dest m = (Inl (SystemExit 1), after (exec E (curl_cmd url dest) m1),
        [Printed ([10] @ str ''>>> '' @ str (join_spaces (curl_cmd url dest))),
         Run (curl_cmd url dest) True (Exited 0),
         Printed (str ''ERROR: Download seems failed or file too small: '' @ str (show_path dest))])
    \<and> (\<forall>k msg. guarded (thn (download_to E url dest) k) msg m = download_to E url dest m))
 \<and> (\<not> installed m ''brew'' \<longrightarrow> result_of (install_on_macos E) m = Inr ()
        \<and> runs (events_of (install_on_macos E) m) = [])
 \<and> (\<not> installed m ''winget'' \<longrightarrow> result_of (install_on_windows E) m = Inr ()
        \<and> runs (events_of (install_on_windows E) m) = [])"
proof -
  have A: "\<forall>u. geteuid E = Some u \<and> u \<noteq> 0 \<and> \<not> installed m ''sudo'' \<longrightarrow>
      install_aikbt E m = (1, m,
        [Printed (str ''=== AIK BT (LLDB) Installer for Ubuntu ===''),
         Printed ([10] @ str ''[1/5] Installing LLDB + Python LLDB bindings (llvm-15)...''),
         Printed (str ''ERROR: sudo not found. Install sudo as root, or run this script as root.'')])"
    using install_aikbt_no_sudo by blast
  have B: "is_linux E \<and> \<not> tools_is_root E \<and> \<not> installed m ''sudo'' \<longrightarrow>
      setup_tools E m = (1, m,
        [Printed (str ''==> Detected OS: '' @ str (system E) @ str '' '' @ str (release E)),
         Printed ([10060] @ str '' sudo is not installed and you are not root.''),
         Printed (str ''   First run must be as root (or via provider console):''),
         Printed (str ''     python3 setup_tools.py'')])"
    using setup_tools_no_sudo by blast
  have C: "\<forall>m1. mkdirs (prefixes (parent dest)) m = Inr m1 \<and> \<not> installed m1 ''curl'' \<longrightarrow>
      download_to E url dest m = (Inl (SystemExit 1), m1,
        [Printed (str ''ERROR: curl not found. Install it with: sudo apt install -y curl'')])
    \<and> (\<forall>k msg. guarded (thn (download_to E url dest) k) msg m = download_to E url dest m)"
    using download_to_no_curl download_to_exits by blast
  have D: "\<forall>m1. mkdirs (prefixes (parent dest)) m = Inr m1 \<and> installed m1 ''curl''
        \<and> returncode (exec E (curl_cmd url dest) m1) = 0
        \<and> too_small E (after (exec E (curl_cmd url dest) m1)) dest \<longrightarrow>
      download_to E url dest m = (Inl (SystemExit 1), after (exec E (curl_cmd url dest) m1),
        [Printed ([10] @ str ''>>> '' @ str (join_spaces (curl_cmd url dest))),
         Run (curl_cmd url dest) True (Exited 0),
         Printed (str ''ERROR: Download seems failed or file too small: '' @ str (show_path dest))])
    \<and> (\<forall>k msg. guarded (thn (download_to E url dest) k) msg m = download_to E url dest m)"
    using download_to_too_small download_to_exits by blast
  have F: "\<not> installed m ''brew'' \<longrightarrow> result_of (install_on_macos E) m = Inr ()
        \<and> runs (events_of (install_on_macos E) m) = []"
    by (simp add: install_on_macos_no_brew result_of_def events_of_def)
  have G: "\<not> installed m ''winget'' \<longrightarrow> result_of (install_on_windows E) m = Inr ()
        \<and> runs (events_of (install_on_windows E) m) = []"
    by (simp add: install_on_windows_no_winget result_of_def events_of_def)
  from A B C D F G show ?thesis by blast
qed

theorem missing_preconditions_witness:
  "geteuid ubuntu_user = Some 1000
   \<and> \<not> installed ubuntu_without_sudo ''sudo''
   \<and> fst (install_aikbt ubuntu_user ubuntu_without_sudo) = 1
   \<and> mkdirs (prefixes (parent aik_bt_py)) ubuntu_without_curl = Inr (with_lldb_dir ubuntu_without_curl)
   \<and> \<not> installed (with_lldb_dir ubuntu_without_curl) ''curl''
   \<and> fst (download_to ubuntu_root AIK_BT_URL aik_bt_py ubuntu_without_curl) = Inl (SystemExit 1)
   \<and> \<not> installed mac_without_brew ''brew''
   \<and> result_of (install_on_macos mac_user) mac_without_brew = Inr ()"
proof -
  have u: "geteuid ubuntu_user = Some 1000" by (simp add: ubuntu_user_def ubuntu_root_def)
  have n: "\<not> installed ubuntu_without_sudo ''sudo''" by (simp add: ubuntu_without_sudo_def)
  have c: "\<not> installed (with_lldb_dir ubuntu_without_curl) ''curl''"
    by (simp add: with_lldb_dir_def ubuntu_without_curl_def)
  have b: "\<not> installed mac_without_brew ''brew''" by (simp add: mac_without_brew_def)
  from missing_preconditions[of ubuntu_user ubuntu_without_sudo] u n
  have 1: "fst (install_aikbt ubuntu_user ubuntu_without_sudo) = 1" by simp
  from missing_preconditions[of ubuntu_root ubuntu_without_curl aik_bt_py AIK_BT_URL]
    mkdirs_lldb_dir_without_curl c
  have 2: "fst (download_to ubuntu_root AIK_BT_URL aik_bt_py ubuntu_without_curl) = Inl (SystemExit 1)"
    by simp
  from missing_preconditions[of mac_user mac_without_brew] b
  have 3: "result_of (install_on_macos mac_user) mac_without_brew = Inr ()" by simp
  from u n 1 mkdirs_lldb_dir_without_curl c 2 b 3 show ?thesis by simp
qed

text \<open>
  C4 as stated fails for the package manager: on a Mac without brew the script goes on
  to create the virtual environment and ends with exit code 0.
\<close>

theorem missing_preconditions_counterexample:
  "\<not> installed mac_without_brew ''brew''
   \<and> fst (setup_tools mac_user mac_without_brew) = 0
   \<and> Run [''/usr/bin/python3'', ''-m'', ''venv'', ''/Users/u/course-venv''] True (Exited 0)
       \<in> set (snd (snd (setup_tools mac_user mac_without_brew)))"
  by code_simp

section \<open>Claims about unchecked commands\<close>

lemma sim_refl: "sim p p"
  by (simp add: sim_def)

lemma sim_bnd:
  assumes p: "sim p q" and f: "\<And>x. sim (f x) (g x)"
  shows "sim (bnd p f) (bnd q g)"
  unfolding sim_def
proof
  fix m
  obtain r1 m1 t1 where pm: "p m = (r1, m1, t1)" by (cases "p m")
  obtain r1' m1' t1' where qm: "q m = (r1', m1', t1')" by (cases "q m")
  from p[unfolded sim_def, rule_format, of m] pm qm
  have e: "r1 = r1'" "m1 = m1'" "map blur t1 = map blur t1'"
    by (simp_all add: result_of_def machine_after_def events_of_def)
  show "result_of (bnd p f) m = result_of (bnd q g) m \<and> machine_after (bnd p f) m = machine_after (bnd q g) m
      \<and> map blur (events_of (bnd p f) m) = map blur (events_of (bnd q g) m)"
  proof (cases r1)
    case (Inl ex)
    with pm qm e have "p m = (Inl ex, m1, t1)" "q m = (Inl ex, m1, t1')" by simp_all
    with e(3) show ?thesis
      by (simp add: bnd_def result_of_def machine_after_def events_of_def)
  next
    case (Inr x)
    with pm qm e have pq: "p m = (Inr x, m1, t1)" "q m = (Inr x, m1, t1')" by simp_all
    obtain r2 m2 t2 where fm: "f x m1 = (r2, m2, t2)" by (cases "f x m1")
    obtain r2' m2' t2' where gm: "g x m1 = (r2', m2', t2')" by (cases "g x m1")
    from f[of x, unfolded sim_def, rule_format, of m1] fm gm
    have "r2 = r2'" "m2 = m2'" "map blur t2 = map blur t2'"
      by (simp_all add: result_of_def machine_after_def events_of_def)
    with pq e(3) fm gm show ?thesis
      by (simp add: bnd_def result_of_def machine_after_def events_of_def)
  qed
qed

lemma thn_discard: "thn (discard p) k = thn p k"
  by (auto simp: thn_def discard_def bnd_def ret_def fun_eq_iff split: prod.splits sum.splits)

lemma sim_thn:
  assumes "sim (discard p) (discard q)" and "sim k k'"
  shows "sim (thn p k) (thn q k')"
proof -
  have "sim (thn (discard p) k) (thn (discard q) k')"
    unfolding thn_def using assms by (intro sim_bnd) simp_all
  then show ?thesis by (simp add: thn_discard)
qed

lemma sim_discard: "sim p q \<Longrightarrow> sim (discard p) (discard q)"
  unfolding discard_def by (intro sim_bnd sim_refl) simp

lemma sim_steps: "list_all2 sim ps qs \<Longrightarrow> sim (steps ps) (steps qs)"
proof (induction ps qs rule: list_all2_induct)
  case Nil
  then show ?case by (simp add: sim_refl)
next
  case (Cons p ps q qs)
  then show ?case by (simp add: sim_thn sim_discard)
qed

lemma sim_if: "(c \<Longrightarrow> sim p q) \<Longrightarrow> (\<not> c \<Longrightarrow> sim p' q') \<Longrightarrow> sim (if c then p else p') (if c then q else q')"
  by simp

lemma override_fields:
  "geteuid (override_returncode cmds g E) = geteuid E"
  "system (override_returncode cmds g E) = system E"
  "release (override_returncode cmds g E) = release E"
  "home (override_returncode cmds g E) = home E"
  "sys_executable (override_returncode cmds g E) = sys_executable E"
  "dir_size (override_returncode cmds g E) = dir_size E"
  by (simp_all add: override_returncode_def)

lemma subprocess_run_override:
  "cmd \<notin> set cmds \<Longrightarrow> subprocess_run (override_returncode cmds g E) cmd chk = subprocess_run E cmd chk"
  by (simp add: subprocess_run_def override_returncode_def fun_eq_iff split: list.splits)

lemma check_output_override:
  "cmd \<notin> set cmds \<Longrightarrow> check_output (override_returncode cmds g E) cmd = check_output E cmd"
  by (simp add: check_output_def override_returncode_def fun_eq_iff split: list.splits)

lemma sim_subprocess_run_unchecked:
  "sim (discard (subprocess_run (override_returncode cmds g E) cmd False))
       (discard (subprocess_run E cmd False))"
  by (cases cmd)
     (auto simp: sim_def discard_def bnd_def ret_def subprocess_run_def override_returncode_def
        result_of_def machine_after_def events_of_def Let_def)

lemma discard_thn: "discard (thn p q) = thn p (discard q)"
  by (auto simp: thn_def discard_def bnd_def ret_def fun_eq_iff split: prod.splits sum.splits)

lemma sim_aikbt_run_unchecked:
  "sim (discard (aikbt_run (override_returncode cmds g E) cmd False))
       (discard (aikbt_run E cmd False))"
  unfolding aikbt_run_def discard_thn
  by (intro sim_thn sim_refl sim_subprocess_run_unchecked)

lemma sim_tools_run_unchecked:
  "sim (discard (tools_run (override_returncode cmds g E) cmd False))
       (discard (tools_run E cmd False))"
  unfolding tools_run_def discard_thn
  by (intro sim_thn sim_refl sim_subprocess_run_unchecked)

lemma aikbt_run_override:
  "cmd \<notin> set cmds \<Longrightarrow> aikbt_run (override_returncode cmds g E) cmd chk = aikbt_run E cmd chk"
  by (simp add: aikbt_run_def subprocess_run_override)

lemma tools_run_override:
  "cmd \<notin> set cmds \<Longrightarrow> tools_run (override_returncode cmds g E) cmd chk = tools_run E cmd chk"
  by (simp add: tools_run_def subprocess_run_override)

lemma aikbt_is_root_override:
  "aikbt_is_root (override_returncode cmds g E) = aikbt_is_root E"
  by (simp add: aikbt_is_root_def override_fields)

lemma not_unchecked_aikbt:
  "[''apt'', ''update''] \<notin> set unchecked_aikbt"
  "[''apt'', ''install'', ''-y''] @ pk \<notin> set unchecked_aikbt"
  "[''sudo'', ''apt'', ''update''] \<notin> set unchecked_aikbt"
  "[''sudo'', ''apt'', ''install'', ''-y''] @ pk \<notin> set unchecked_aikbt"
  "[''curl'', ''-fsSL'', url, ''-o'', d] \<notin> set unchecked_aikbt"
  by (simp_all add: unchecked_aikbt_def update_alternatives_cmd_def)

lemma apt_install_override:
  "apt_install (override_returncode unchecked_aikbt g E) pk = apt_install E pk"
  unfolding apt_install_def aikbt_is_root_override
    aikbt_run_override[OF not_unchecked_aikbt(1)] aikbt_run_override[OF not_unchecked_aikbt(2)]
    aikbt_run_override[OF not_unchecked_aikbt(3)] aikbt_run_override[OF not_unchecked_aikbt(4)]
  by (rule refl)

lemma stat_size_override:
  "stat_size (override_returncode cmds g E) p = stat_size E p"
  unfolding stat_size_def override_fields by (rule refl)

lemma download_to_override:
  "download_to (override_returncode unchecked_aikbt g E) url dest = download_to E url dest"
  unfolding download_to_def stat_size_override aikbt_run_override[OF not_unchecked_aikbt(5)]
  by (rule refl)

lemma sim_setup_update_alternatives:
  "sim (setup_update_alternatives (override_returncode cmds g E)) (setup_update_alternatives E)"
  unfolding setup_update_alternatives_def aikbt_is_root_override
  by (intro sim_bnd sim_refl sim_if sim_steps) (simp add: sim_refl sim_bnd sim_aikbt_run_unchecked)

lemma sim_aikbt_main:
  "sim (aikbt_main (override_returncode unchecked_aikbt g E)) (aikbt_main E)"
  unfolding aikbt_main_def Let_def apt_install_override download_to_override override_fields
  by (intro sim_steps) (simp add: sim_refl sim_setup_update_alternatives)

lemma unchecked_tools_eq:
  "unchecked_tools = [winget_cmd ''zyedidia.micro'', winget_cmd ''LLVM.LLVM'', winget_cmd ''cURL.cURL'']"
  by (simp add: unchecked_tools_def WINGET_PACKAGES_def List.map_filter_def)

lemma unchecked_tools_shape:
  "c \<in> set unchecked_tools \<Longrightarrow>
     length c = 7 \<and> c ! 2 = ''--id'' \<and> last c = ''--accept-source-agreements''"
  by (auto simp: unchecked_tools_eq winget_cmd_def)

lemma show_path_not_flag: "show_path p \<noteq> ''--accept-source-agreements''"
  by (cases p) (simp_all add: show_path_def)

lemma not_unchecked_tools:
  "pfx @ [''apt-get'', ''update'', ''-y''] \<notin> set unchecked_tools"
  "pfx @ [''apt-get'', ''install'', ''-y''] @ APT_PACKAGES \<notin> set unchecked_tools"
  "[''brew'', ''update''] \<notin> set unchecked_tools"
  "[''brew'', ''install''] @ BREW_PACKAGES \<notin> set unchecked_tools"
  "[x, ''-m'', ''venv'', y] \<notin> set unchecked_tools"
  "[x, ''-m'', ''pip'', ''install'', ''-U'', ''pip'', ''setuptools'', ''wheel''] \<notin> set unchecked_tools"
  "[x, ''install'', ''-U''] @ PIP_PACKAGES \<notin> set unchecked_tools"
  "pfx @ [''ln'', ''-sf'', y, show_path p] \<notin> set unchecked_tools"
  "[x, ''-c'', y] \<notin> set unchecked_tools"
  using unchecked_tools_shape[of "pfx @ [''apt-get'', ''update'', ''-y'']"]
    unchecked_tools_shape[of "pfx @ [''apt-get'', ''install'', ''-y''] @ APT_PACKAGES"]
    unchecked_tools_shape[of "[''brew'', ''update'']"]
    unchecked_tools_shape[of "[''brew'', ''install''] @ BREW_PACKAGES"]
    unchecked_tools_shape[of "[x, ''-m'', ''venv'', y]"]
    unchecked_tools_shape[of "[x, ''-m'', ''pip'', ''install'', ''-U'', ''pip'', ''setuptools'', ''wheel'']"]
    unchecked_tools_shape[of "[x, ''install'', ''-U''] @ PIP_PACKAGES"]
    unchecked_tools_shape[of "pfx @ [''ln'', ''-sf'', y, show_path p]"]
    unchecked_tools_shape[of "[x, ''-c'', y]"]
    show_path_not_flag[of p]
  by (auto simp: APT_PACKAGES_def BREW_PACKAGES_def PIP_PACKAGES_def)

lemma is_os_override:
  "is_linux (override_returncode cmds g E) = is_linux E"
  "is_macos (override_returncode cmds g E) = is_macos E"
  "is_windows (override_returncode cmds g E) = is_windows E"
  "tools_is_root (override_returncode cmds g E) = tools_is_root E"
  by (simp_all add: is_linux_def is_macos_def is_windows_def tools_is_root_def override_fields)

lemma choose_venv_path_override:
  "choose_venv_path (override_returncode cmds g E) = choose_venv_path E"
  by (simp add: choose_venv_path_def is_os_override override_fields)

lemma ensure_admin_linux_override:
  "ensure_admin_linux (override_returncode cmds g E) = ensure_admin_linux E"
  by (simp add: ensure_admin_linux_def is_os_override)

lemma install_on_ubuntu_override:
  "install_on_ubuntu (override_returncode unchecked_tools g E) = install_on_ubuntu E"
  unfolding install_on_ubuntu_def ensure_admin_linux_override
    tools_run_override[OF not_unchecked_tools(1)] tools_run_override[OF not_unchecked_tools(2)]
  by (rule refl)

lemma install_on_macos_override:
  "install_on_macos (override_returncode unchecked_tools g E) = install_on_macos E"
  unfolding install_on_macos_def
    tools_run_override[OF not_unchecked_tools(3)] tools_run_override[OF not_unchecked_tools(4)]
  by (rule refl)

lemma ensure_venv_override:
  "ensure_venv (override_returncode unchecked_tools g E) vp = ensure_venv E vp"
  unfolding ensure_venv_def Let_def is_os_override override_fields
    tools_run_override[OF not_unchecked_tools(5)] tools_run_override[OF not_unchecked_tools(6)]
  by (rule refl)

lemma pip_install_in_venv_override:
  "pip_install_in_venv (override_returncode unchecked_tools g E) pb = pip_install_in_venv E pb"
  unfolding pip_install_in_venv_def tools_run_override[OF not_unchecked_tools(7)]
  by (rule refl)

lemma link_loop_override:
  "link_loop (override_returncode unchecked_tools g E) pfx vp ts = link_loop E pfx vp ts"
proof (induction ts)
  case Nil
  show ?case by simp
next
  case (Cons tool ts)
  show ?case
    unfolding link_loop.simps Let_def Cons.IH tools_run_override[OF not_unchecked_tools(8)]
    by (rule refl)
qed

lemma symlink_override:
  "symlink_cli_tools_linux_shared (override_returncode unchecked_tools g E) vp
     = symlink_cli_tools_linux_shared E vp"
  unfolding symlink_cli_tools_linux_shared_def is_os_override ensure_admin_linux_override
    link_loop_override
  by (rule refl)

lemma first_line_override:
  assumes "cmd \<notin> set cmds"
  shows "first_line (override_returncode cmds g E) cmd = first_line E cmd"
  unfolding first_line_def check_output_override[OF assms] by (rule refl)

lemma checks_loop_override:
  "list_all (\<lambda>(name, cmd). cmd \<notin> set cmds) cs \<Longrightarrow>
   checks_loop (override_returncode cmds g E) cs = checks_loop E cs"
  by (induction cs) (auto simp: first_line_override)

lemma version_checks_not_unchecked:
  "list_all (\<lambda>(name, cmd). cmd \<notin> set unchecked_tools) version_checks"
  by (simp add: version_checks_def unchecked_tools_eq winget_cmd_def)

lemma dists_loop_override:
  "dists_loop (override_returncode unchecked_tools g E) vp ds = dists_loop E vp ds"
  by (induction ds) (simp_all add: check_output_override[OF not_unchecked_tools(9)])

lemma print_versions_override:
  "print_versions (override_returncode unchecked_tools g E) vp = print_versions E vp"
  unfolding print_versions_def checks_loop_override[OF version_checks_not_unchecked] dists_loop_override
  by (rule refl)

lemma tools_after_install_override:
  "tools_after_install (override_returncode unchecked_tools g E) = tools_after_install E"
  unfolding tools_after_install_def choose_venv_path_override ensure_venv_override
    pip_install_in_venv_override symlink_override print_versions_override
  by (rule refl)

lemma sim_winget_loop:
  "sim (winget_loop (override_returncode cmds g E) ps) (winget_loop E ps)"
proof (induction ps)
  case Nil
  show ?case by (simp add: sim_refl)
next
  case (Cons a ps)
  obtain name pkg where a: "a = (name, pkg)" by (cases a)
  show ?case
  proof (cases pkg)
    case None
    with a Cons show ?thesis by simp
  next
    case (Some i)
    with a Cons show ?thesis
      by (simp add: sim_thn sim_tools_run_unchecked)
  qed
qed

lemma sim_install_on_windows:
  "sim (install_on_windows (override_returncode cmds g E)) (install_on_windows E)"
  unfolding install_on_windows_def
  by (intro sim_bnd sim_refl sim_if sim_steps) (simp add: sim_refl sim_winget_loop)

lemma sim_tools_main:
  "sim (tools_main (override_returncode unchecked_tools g E)) (tools_main E)"
  unfolding tools_main_def is_os_override override_fields install_on_ubuntu_override
    install_on_macos_override tools_after_install_override
  by (intro sim_thn sim_refl sim_if sim_discard sim_install_on_windows)

lemma sim_guarded: "sim p q \<Longrightarrow> sim (guarded p msg) (guarded q msg)"
  unfolding sim_def
proof
  fix m
  assume s: "\<forall>m. result_of p m = result_of q m \<and> machine_after p m = machine_after q m
      \<and> map blur (events_of p m) = map blur (events_of q m)"
  obtain r1 m1 t1 where pm: "p m = (r1, m1, t1)" by (cases "p m")
  obtain r1' m1' t1' where qm: "q m = (r1', m1', t1')" by (cases "q m")
  from s[rule_format, of m] pm qm
  have e: "r1' = r1" "m1' = m1" "map blur t1 = map blur t1'"
    by (simp_all add: result_of_def machine_after_def events_of_def)
  from qm e have qm': "q m = (r1, m1, t1')" by simp
  show "result_of (guarded p msg) m = result_of (guarded q msg) m
      \<and> machine_after (guarded p msg) m = machine_after (guarded q msg) m
      \<and> map blur (events_of (guarded p msg) m) = map blur (events_of (guarded q msg) m)"
    using pm qm' e(3)
    by (simp add: guarded_cases result_of_def machine_after_def events_of_def
        split: sum.splits exn.splits)
qed

lemma harmless_bnd:
  assumes p: "harmless p" and f: "\<And>x. harmless (f x)"
  shows "harmless (bnd p f)"
  unfolding harmless_def
proof
  fix m
  obtain r1 m1 t1 where pm: "p m = (r1, m1, t1)" by (cases "p m")
  have g1: "clean t1 \<and> (\<forall>c rc. r1 \<noteq> Inl (CalledProcessError c rc)) \<and> (\<forall>n. r1 \<noteq> Inl (SystemExit n))"
    using pm p[unfolded harmless_def, rule_format, of m] by (simp add: result_of_def events_of_def)
  show "clean (events_of (bnd p f) m)
      \<and> (\<forall>c rc. result_of (bnd p f) m \<noteq> Inl (CalledProcessError c rc))
      \<and> (\<forall>n. result_of (bnd p f) m \<noteq> Inl (SystemExit n))"
  proof (cases r1)
    case (Inl e)
    with pm g1 show ?thesis by (simp add: bnd_def result_of_def events_of_def)
  next
    case (Inr x)
    obtain r2 m2 t2 where fm: "f x m1 = (r2, m2, t2)" by (cases "f x m1")
    have g2: "clean t2 \<and> (\<forall>c rc. r2 \<noteq> Inl (CalledProcessError c rc)) \<and> (\<forall>n. r2 \<noteq> Inl (SystemExit n))"
      using fm f[of x, unfolded harmless_def, rule_format, of m1] by (simp add: result_of_def events_of_def)
    with g1 pm Inr fm show ?thesis
      by (simp add: bnd_def result_of_def events_of_def clean_append)
  qed
qed

lemma harmless_thn: "harmless p \<Longrightarrow> harmless q \<Longrightarrow> harmless (thn p q)"
  by (simp add: thn_def harmless_bnd)

lemma harmless_ret: "harmless (ret x)"
  by (simp add: harmless_def ret_def result_of_def events_of_def clean_def)

lemma harmless_print: "harmless (print s)"
  by (simp add: harmless_def print_def result_of_def events_of_def clean_def)

lemma harmless_ask: "harmless (ask f)"
  by (simp add: harmless_def ask_def result_of_def events_of_def clean_def)

lemma harmless_discard: "harmless p \<Longrightarrow> harmless (discard p)"
  by (simp add: discard_def harmless_bnd harmless_ret)

lemma harmless_steps: "list_all harmless ps \<Longrightarrow> harmless (steps ps)"
  by (induction ps) (auto simp: harmless_ret harmless_thn)

lemma harmless_if: "(c \<Longrightarrow> harmless p) \<Longrightarrow> (\<not> c \<Longrightarrow> harmless q) \<Longrightarrow> harmless (if c then p else q)"
  by simp

lemma harmless_subprocess_run_unchecked: "harmless (subprocess_run E cmd False)"
  by (cases cmd)
     (auto simp: harmless_def subprocess_run_def result_of_def events_of_def clean_def Let_def)

lemma harmless_aikbt_run_unchecked: "harmless (aikbt_run E cmd False)"
  unfolding aikbt_run_def by (intro harmless_thn harmless_print harmless_subprocess_run_unchecked)

lemma harmless_tools_run_unchecked: "harmless (tools_run E cmd False)"
  unfolding tools_run_def by (intro harmless_thn harmless_print harmless_subprocess_run_unchecked)

lemma harmless_aikbt_is_root: "harmless (aikbt_is_root E)"
  by (cases "geteuid E")
     (simp_all add: aikbt_is_root_def harmless_def raise_def ret_def result_of_def events_of_def clean_def)

lemma harmless_setup_update_alternatives: "harmless (setup_update_alternatives E)"
  unfolding setup_update_alternatives_def have_cmd_def path_exists_def
  by (intro harmless_bnd harmless_ask harmless_if harmless_print harmless_steps)
     (simp add: harmless_bnd harmless_aikbt_is_root harmless_discard harmless_aikbt_run_unchecked
        harmless_print)

lemma harmless_winget_loop: "harmless (winget_loop E ps)"
  by (induction E ps rule: winget_loop.induct)
     (auto intro!: harmless_thn harmless_tools_run_unchecked harmless_ret split: option.splits)

lemma harmless_install_on_windows: "harmless (install_on_windows E)"
  unfolding install_on_windows_def tools_have_def
  by (intro harmless_bnd harmless_ask harmless_if harmless_print harmless_steps)
     (simp add: harmless_winget_loop harmless_print)

lemma unchecked_then_print:
  "steps [discard (aikbt_run E (c # args) False), print s] m =
      (if \<not> installed m c
       then (Inl FileNotFoundError, m,
            [Printed ([10] @ str ''>>> '' @ str (join_spaces (c # args))), Run (c # args) False NotFound])
       else (Inr (), after (exec E (c # args) m),
            [Printed ([10] @ str ''>>> '' @ str (join_spaces (c # args))),
             Run (c # args) False (Exited (returncode (exec E (c # args) m))),
             Printed s]))"
  by (simp add: aikbt_run_Cons thn_def bnd_def discard_def ret_def print_def)

lemma setup_update_alternatives_goes_on:
  assumes "Run cmd False (Exited rc) \<in> set (events_of (setup_update_alternatives E) m)"
  shows "result_of (setup_update_alternatives E) m = Inr ()
       \<and> last (events_of (setup_update_alternatives E) m)
           = Printed (str ''OK: update-alternatives attempted (lldb -> lldb-15)'')"
proof (cases "geteuid E")
  case None
  then have "events_of (setup_update_alternatives E) m = []
      \<or> (\<exists>s. events_of (setup_update_alternatives E) m = [Printed s])"
    by (simp add: setup_update_alternatives_def have_cmd_def path_exists_def aikbt_is_root_def
        events_of_def bnd_def ask_def raise_def print_def thn_def)
  with assms show ?thesis by auto
next
  case (Some u)
  obtain c args where c: "(if u = 0 then [] else [''sudo'']) @ update_alternatives_cmd = c # args"
    by (cases "u = 0") (simp_all add: update_alternatives_cmd_def)
  have eq: "setup_update_alternatives E m =
     (if \<not> installed m ''update-alternatives''
      then print (str ''NOTE: update-alternatives not found; skipping.'') m
      else if node_at m [''usr'', ''bin'', ''lldb-15''] = None
      then print (str ''NOTE: /usr/bin/lldb-15 not found; skipping update-alternatives step.'') m
      else steps [discard (aikbt_run E (c # args) False),
                  print (str ''OK: update-alternatives attempted (lldb -> lldb-15)'')] m)"
    using Some c[symmetric]
    by (simp add: setup_update_alternatives_def have_cmd_def path_exists_def aikbt_is_root_def
        bnd_ask bnd_ret del: steps.simps)
  from assms show ?thesis
    unfolding events_of_def result_of_def eq unchecked_then_print
    by (auto simp: print_def split: if_splits)
qed

lemma tools_run_unchecked_returns:
  "installed m c \<Longrightarrow>
   result_of (tools_run E (c # args) False) m = Inr (returncode (exec E (c # args) m))"
  by (simp add: tools_run_Cons result_of_def)

lemma show_called_process_error_override:
  "show_called_process_error (override_returncode cmds g E) = show_called_process_error E"
  by (simp add: show_called_process_error_def override_returncode_def fun_eq_iff)

text \<open>
  C9. The exit codes of the update-alternatives command of \<open>install_aikbt.py\<close> and of
  the winget install commands of \<open>setup_tools.py\<close> have no influence: with any other
  exit codes for these commands each script ends with the same exit code, leaves the same
  machine and produces the same events up to the exit codes recorded for them. The steps
  that run them never raise \<open>CalledProcessError\<close> and never exit; after an
  update-alternatives command that exited, with whatever code, the step returns and its
  last event is the line that reports the attempt; a winget install command that is found
  returns its exit code to the loop, which goes on.
\<close>

theorem unchecked_commands_are_ignored:
  "fst (install_aikbt (override_returncode unchecked_aikbt g E) m) = fst (install_aikbt E m)
 \<and> fst (snd (install_aikbt (override_returncode unchecked_aikbt g E) m)) = fst (snd (install_aikbt E m))
 \<and> map blur (snd (snd (install_aikbt (override_returncode unchecked_aikbt g E) m)))
     = map blur (snd (snd (install_aikbt E m)))
 \<and> fst (setup_tools (override_returncode unchecked_tools g E) m) = fst (setup_tools E m)
 \<and> fst (snd (setup_tools (override_returncode unchecked_tools g E) m)) = fst (snd (setup_tools E m))
 \<and> map blur (snd (snd (setup_tools (override_returncode unchecked_tools g E) m)))
     = map blur (snd (snd (setup_tools E m)))
 \<and> harmless (setup_update_alternatives E)
 \<and> harmless (install_on_windows E)
 \<and> (\<forall>cmd rc. Run cmd False (Exited rc) \<in> set (events_of (setup_update_alternatives E) m) \<longrightarrow>
       result_of (setup_update_alternatives E) m = Inr ()
     \<and> last (events_of (setup_update_alternatives E) m)
          = Printed (str ''OK: update-alternatives attempted (lldb -> lldb-15)''))
 \<and> (installed m ''winget'' \<longrightarrow>
       result_of (tools_run E (winget_cmd i) False) m = Inr (returncode (exec E (winget_cmd i) m)))"
proof -
  let ?a = "\<lambda>c rc. [10] @ str ''ERROR: Command failed with exit code '' @ str (show_int rc)"
  let ?t = "\<lambda>c rc. [10, 10060] @ str '' Command failed: '' @ str (show_called_process_error E c rc)"
  note sa = sim_guarded[OF sim_aikbt_main, of g E ?a, unfolded sim_def, rule_format, of m]
  note st = sim_guarded[OF sim_tools_main, of g E ?t, unfolded sim_def, rule_format, of m]
  have a: "fst (install_aikbt (override_returncode unchecked_aikbt g E) m) = fst (install_aikbt E m)
 \<and> fst (snd (install_aikbt (override_returncode unchecked_aikbt g E) m)) = fst (snd (install_aikbt E m))
 \<and> map blur (snd (snd (install_aikbt (override_returncode unchecked_aikbt g E) m)))
     = map blur (snd (snd (install_aikbt E m)))"
    using sa by (simp add: install_aikbt_guarded result_of_def machine_after_def events_of_def)
  have t: "fst (setup_tools (override_returncode unchecked_tools g E) m) = fst (setup_tools E m)
 \<and> fst (snd (setup_tools (override_returncode unchecked_tools g E) m)) = fst (snd (setup_tools E m))
 \<and> map blur (snd (snd (setup_tools (override_returncode unchecked_tools g E) m)))
     = map blur (snd (snd (setup_tools E m)))"
    using st
    by (simp add: setup_tools_guarded result_of_def machine_after_def events_of_def
        show_called_process_error_override)
  have w: "installed m ''winget'' \<longrightarrow>
       result_of (tools_run E (winget_cmd i) False) m = Inr (returncode (exec E (winget_cmd i) m))"
    using tools_run_unchecked_returns[of m "''winget''" E] by (simp add: winget_cmd_def)
  from a t w harmless_setup_update_alternatives[of E] harmless_install_on_windows[of E]
    setup_update_alternatives_goes_on[of _ _ E m]
  show ?thesis by blast
qed

lemma update_alternatives_example:
  "Run update_alternatives_cmd False (Exited 2)
     \<in> set (events_of (setup_update_alternatives ubuntu_root) ubuntu_machine)"
  by code_simp

theorem unchecked_commands_are_ignored_witness:
  "Run update_alternatives_cmd False (Exited 2)
     \<in> set (events_of (setup_update_alternatives ubuntu_root) ubuntu_machine)
   \<and> result_of (setup_update_alternatives ubuntu_root) ubuntu_machine = Inr ()
   \<and> installed ubuntu_machine ''winget''
   \<and> result_of (tools_run ubuntu_root (winget_cmd ''LLVM.LLVM'') False) ubuntu_machine
        = Inr (returncode (exec ubuntu_root (winget_cmd ''LLVM.LLVM'') ubuntu_machine))"
proof -
  have i: "installed ubuntu_machine ''winget''" by (simp add: ubuntu_machine_def)
  note t = unchecked_commands_are_ignored[of "\<lambda>c m. 0" ubuntu_root ubuntu_machine "''LLVM.LLVM''"]
  from t update_alternatives_example
  have 1: "result_of (setup_update_alternatives ubuntu_root) ubuntu_machine = Inr ()" by blast
  from t i
  have 2: "result_of (tools_run ubuntu_root (winget_cmd ''LLVM.LLVM'') False) ubuntu_machine
        = Inr (returncode (exec ubuntu_root (winget_cmd ''LLVM.LLVM'') ubuntu_machine))" by blast
  from update_alternatives_example 1 i 2 show ?thesis by (intro conjI)
qed

end
